(* ===== verification/Rust_Prelude.thy ===== *)
theory Rust_Prelude
  imports Main "HOL-Library.Word"
begin

text \<open>
  The vocabulary the component theories share: the outcome of a Rust function that can return
  \<open>Ok\<close>, return \<open>Err\<close> or panic; the integer operations of a build with
  \<open>overflow-checks = true\<close> (the release profile of every on-chain program of the repository),
  in which an overflowing \<open>+\<close>, \<open>-\<close> or \<open>*\<close> panics; slice access; and the generic lemmas the
  component proofs rest on. Unsigned integers are natural numbers; a value that fits its width
  is said to be so by \<open>fits\<close>, and every operation that can leave the width says what happens
  there. \<open>i64\<close> values are integers.
\<close>

section \<open>Outcomes\<close>

datatype ('e, 'a) res = Ok 'a | Err 'e | Panic

type_synonym u8 = "8 word"
type_synonym bytes = "8 word list"

text \<open>
  What is not code of the repository is a parameter: \<open>sha256\<close> is SHA-256 of a byte string
  (the sha2 crate, or the Solana syscall on chain), \<open>fnv_hash k bs\<close> the FNV hasher of the fnv
  crate seeded with the key \<open>k\<close> and fed \<open>bs\<close>. The code hashes a slice of slices by feeding the
  pieces one after the other, so \<open>sha256v\<close> is \<open>sha256\<close> of their concatenation.
\<close>

record externs =
  sha256 :: "bytes \<Rightarrow> bytes"
  fnv_hash :: "nat \<Rightarrow> bytes \<Rightarrow> nat"

definition sha256v :: "externs \<Rightarrow> bytes list \<Rightarrow> bytes" where
  "sha256v X parts = sha256 X (concat parts)"

text \<open>Two different strings with the same digest.\<close>

definition collision :: "externs \<Rightarrow> bool" where
  "collision X \<longleftrightarrow> (\<exists>a b. a \<noteq> b \<and> sha256 X a = sha256 X b)"

primrec rbind :: "('e, 'a) res \<Rightarrow> ('a \<Rightarrow> ('e, 'b) res) \<Rightarrow> ('e, 'b) res" where
  "rbind (Ok a) f = f a"
| "rbind (Err e) f = Err e"
| "rbind Panic f = Panic"

primrec map_err :: "('e \<Rightarrow> 'f) \<Rightarrow> ('e, 'a) res \<Rightarrow> ('f, 'a) res" where
  "map_err g (Ok a) = Ok a"
| "map_err g (Err e) = Err (g e)"
| "map_err g Panic = Panic"

text \<open>\<open>sat m Q\<close>: \<open>m\<close> does not panic, and a value it returns satisfies \<open>Q\<close>.\<close>

primrec sat :: "('e, 'a) res \<Rightarrow> ('a \<Rightarrow> bool) \<Rightarrow> bool" where
  "sat (Ok a) Q = Q a"
| "sat (Err e) Q = True"
| "sat Panic Q = False"

definition ok_or :: "'e \<Rightarrow> 'a option \<Rightarrow> ('e, 'a) res" where
  "ok_or e x = (case x of None \<Rightarrow> Err e | Some a \<Rightarrow> Ok a)"

definition guard_err :: "bool \<Rightarrow> 'e \<Rightarrow> ('e, unit) res" where
  "guard_err bad e = (if bad then Err e else Ok ())"

definition assert_ok :: "bool \<Rightarrow> ('e, unit) res" where
  "assert_ok b = (if b then Ok () else Panic)"

definition unwrap :: "'a option \<Rightarrow> ('e, 'a) res" where
  "unwrap x = (case x of None \<Rightarrow> Panic | Some a \<Rightarrow> Ok a)"

text \<open>\<open>Result::unwrap\<close> and \<open>Result::expect\<close>.\<close>

definition expect_ok :: "('e, 'a) res \<Rightarrow> ('f, 'a) res" where
  "expect_ok m = (case m of Ok a \<Rightarrow> Ok a | _ \<Rightarrow> Panic)"

section \<open>Machine integers\<close>

definition fits :: "nat \<Rightarrow> nat \<Rightarrow> bool" where
  "fits w a \<longleftrightarrow> a < 2 ^ w"

definition u_add :: "nat \<Rightarrow> nat \<Rightarrow> nat \<Rightarrow> ('e, nat) res" where
  "u_add w a b = (if a + b < 2 ^ w then Ok (a + b) else Panic)"

definition u_mul :: "nat \<Rightarrow> nat \<Rightarrow> nat \<Rightarrow> ('e, nat) res" where
  "u_mul w a b = (if a * b < 2 ^ w then Ok (a * b) else Panic)"

definition u_sub :: "nat \<Rightarrow> nat \<Rightarrow> ('e, nat) res" where
  "u_sub a b = (if b \<le> a then Ok (a - b) else Panic)"

definition u_div :: "nat \<Rightarrow> nat \<Rightarrow> ('e, nat) res" where
  "u_div a b = (if b = 0 then Panic else Ok (a div b))"

definition u_rem :: "nat \<Rightarrow> nat \<Rightarrow> ('e, nat) res" where
  "u_rem a b = (if b = 0 then Panic else Ok (a mod b))"

definition u_cast :: "nat \<Rightarrow> nat \<Rightarrow> nat" where
  "u_cast w a = a mod 2 ^ w"

definition div_ceil :: "nat \<Rightarrow> nat \<Rightarrow> nat" where
  "div_ceil a b = (if a mod b = 0 then a div b else a div b + 1)"

definition i64_add :: "int \<Rightarrow> int \<Rightarrow> ('e, int) res" where
  "i64_add a b = (if - (2 ^ 63) \<le> a + b \<and> a + b < 2 ^ 63 then Ok (a + b) else Panic)"

definition i64_sub :: "int \<Rightarrow> int \<Rightarrow> ('e, int) res" where
  "i64_sub a b = (if - (2 ^ 63) \<le> a - b \<and> a - b < 2 ^ 63 then Ok (a - b) else Panic)"

text \<open>\<open>x as u64\<close> of an \<open>i64\<close>: two's complement.\<close>

definition i64_as_u64 :: "int \<Rightarrow> nat" where
  "i64_as_u64 a = nat (a mod 2 ^ 64)"

text \<open>\<open>u64::from_le_bytes\<close> and \<open>to_le_bytes\<close>, least significant byte first.\<close>

primrec from_le_bytes :: "bytes \<Rightarrow> nat" where
  "from_le_bytes [] = 0"
| "from_le_bytes (b # bs) = unat b + 256 * from_le_bytes bs"

primrec to_le_bytes :: "nat \<Rightarrow> nat \<Rightarrow> bytes" where
  "to_le_bytes 0 n = []"
| "to_le_bytes (Suc k) n = word_of_nat (n mod 256) # to_le_bytes k (n div 256)"

text \<open>The bytes of a string literal of the source (ASCII).\<close>

definition str_bytes :: "string \<Rightarrow> bytes" where
  "str_bytes s = map (\<lambda>c. word_of_nat (of_char c)) s"

section \<open>Slices\<close>

definition slice_get :: "'a list \<Rightarrow> nat \<Rightarrow> 'a option" where
  "slice_get xs i = (if i < length xs then Some (xs ! i) else None)"

definition slice_index :: "'a list \<Rightarrow> nat \<Rightarrow> ('e, 'a) res" where
  "slice_index xs i = (if i < length xs then Ok (xs ! i) else Panic)"

primrec find_position :: "('a \<Rightarrow> bool) \<Rightarrow> 'a list \<Rightarrow> nat option" where
  "find_position P [] = None"
| "find_position P (x # xs) = (if P x then Some 0 else map_option Suc (find_position P xs))"

text \<open>\<open>xs[i] = f(xs[i])\<close> through a mutable borrow; the caller has checked \<open>i\<close>.\<close>

definition update_at :: "nat \<Rightarrow> ('a \<Rightarrow> 'a) \<Rightarrow> 'a list \<Rightarrow> 'a list" where
  "update_at i f xs = (if i < length xs then xs[i := f (xs ! i)] else xs)"

section \<open>Lemmas\<close>

named_theorems rust_arith
named_theorems rust_ctrl

declare fits_def [rust_arith] u_add_def [rust_arith] u_mul_def [rust_arith]
  u_sub_def [rust_arith] u_div_def [rust_arith] u_rem_def [rust_arith] u_cast_def [rust_arith]
  i64_add_def [rust_arith] i64_sub_def [rust_arith]

declare ok_or_def [rust_ctrl] guard_err_def [rust_ctrl] assert_ok_def [rust_ctrl]
  unwrap_def [rust_ctrl] slice_get_def [rust_ctrl] slice_index_def [rust_ctrl]

lemma sat_rbind [simp]: "sat (rbind m f) Q \<longleftrightarrow> sat m (\<lambda>a. sat (f a) Q)"
  by (cases m) auto

lemma sat_map_err [simp]: "sat (map_err g m) Q \<longleftrightarrow> sat m Q"
  by (cases m) auto

lemma sat_mono: "sat m P \<Longrightarrow> (\<And>a. P a \<Longrightarrow> Q a) \<Longrightarrow> sat m Q"
  by (cases m) auto

lemma sat_Ok: "sat m Q \<Longrightarrow> m = Ok a \<Longrightarrow> Q a"
  by simp

lemma sat_no_panic: "sat m Q \<Longrightarrow> m \<noteq> Panic"
  by auto

lemma sat_iff: "sat m Q \<longleftrightarrow> m \<noteq> Panic \<and> (\<forall>a. m = Ok a \<longrightarrow> Q a)"
  by (cases m) auto

lemma rbind_eq_Ok [simp]: "rbind m f = Ok b \<longleftrightarrow> (\<exists>a. m = Ok a \<and> f a = Ok b)"
  by (cases m) auto

lemma rbind_eq_Panic: "rbind m f = Panic \<longleftrightarrow> m = Panic \<or> (\<exists>a. m = Ok a \<and> f a = Panic)"
  by (cases m) auto

lemma rbind_eq_Err: "rbind m f = Err e \<longleftrightarrow> m = Err e \<or> (\<exists>a. m = Ok a \<and> f a = Err e)"
  by (cases m) auto

lemma rbind_assoc: "rbind (rbind m f) g = rbind m (\<lambda>a. rbind (f a) g)"
  by (cases m) auto

lemma map_err_eq_Ok [simp]: "map_err g m = Ok a \<longleftrightarrow> m = Ok a"
  by (cases m) auto

lemma map_err_eq_Panic [simp]: "map_err g m = Panic \<longleftrightarrow> m = Panic"
  by (cases m) auto

lemma ok_or_simps [simp]: "ok_or e None = Err e" "ok_or e (Some a) = Ok a"
  by (simp_all add: ok_or_def)

lemma expect_ok_simps [simp]: "expect_ok (Ok a) = Ok a" "expect_ok (Err e) = Panic" "expect_ok Panic = Panic"
  by (simp_all add: expect_ok_def)

lemma unwrap_simps [simp]: "unwrap None = Panic" "unwrap (Some a) = Ok a"
  by (simp_all add: unwrap_def)

lemma slice_get_Some [simp]: "slice_get xs i = Some x \<longleftrightarrow> i < length xs \<and> xs ! i = x"
  by (auto simp: slice_get_def)

lemma list_all_update: "list_all P xs \<Longrightarrow> P y \<Longrightarrow> list_all P (xs[i := y])"
  using set_update_subset_insert [of xs i y] by (auto simp: list_all_iff)

lemma length_update_at [simp]: "length (update_at i f xs) = length xs"
  by (simp add: update_at_def)

lemma set_update_at: "set (update_at i f xs) \<subseteq> set xs \<union> f ` set xs"
  by (auto simp: update_at_def dest: subsetD [OF set_update_subset_insert])

lemma find_position_Some:
  "find_position P xs = Some i \<Longrightarrow> i < length xs \<and> P (xs ! i) \<and> (\<forall>j<i. \<not> P (xs ! j))"
proof (induction xs arbitrary: i)
  case (Cons x xs)
  then show ?case by (cases i) (auto simp: less_Suc_eq_0_disj split: if_splits)
qed simp

lemma find_position_None: "find_position P xs = None \<longleftrightarrow> (\<forall>x\<in>set xs. \<not> P x)"
  by (induction xs) auto

lemma length_to_le_bytes [simp]: "length (to_le_bytes k n) = k"
  by (induction k arbitrary: n) auto

lemma from_le_bytes_to_le_bytes: "n < 256 ^ k \<Longrightarrow> from_le_bytes (to_le_bytes k n) = n"
proof (induction k arbitrary: n)
  case (Suc k)
  have "n div 256 < 256 ^ k"
    using Suc.prems by (simp add: less_mult_imp_div_less mult.commute)
  then show ?case
    using Suc.IH by (simp add: unat_of_nat)
qed simp

end
