(* ===== verification/Float64.thy ===== *)
theory Float64
  imports Rust_Prelude "HOL-Library.Log_Nat"
begin

text \<open>
  The part of \<open>f64\<close> arithmetic the coordinator computes with. A finite \<open>f64\<close> is its rational value;
  every operation is the exact rational operation followed by \<open>f64_round\<close>, rounding to nearest with
  ties to even at 53 significant bits. The values that occur lie between \<open>2^-64\<close> and \<open>2^65\<close> in
  magnitude or are zero, so subnormals, infinities and signed zeros do not arise and are not modelled.
  The lemmas shown here are the ones the callers need: rounding is monotone and fixes the integers up
  to \<open>2^53\<close>.
\<close>

section \<open>Definitions\<close>

text \<open>The binary exponent \<open>e\<close> of a positive rational, \<open>2^e \<le> x < 2^(e+1)\<close>.\<close>

definition f64_exponent :: "rat \<Rightarrow> int" where
  "f64_exponent x =
     (let (p, q) = quotient_of x; e = bitlen p - bitlen q in if 2 powi e \<le> x then e else e - 1)"

definition round_half_even :: "rat \<Rightarrow> int" where
  "round_half_even x =
     (let f = \<lfloor>x\<rfloor>; d = x - of_int f
      in if d < 1 / 2 then f else if 1 / 2 < d then f + 1 else if even f then f else f + 1)"

definition f64_round_pos :: "rat \<Rightarrow> rat" where
  "f64_round_pos x =
     (let ulp = 2 powi (f64_exponent x - 52) in of_int (round_half_even (x / ulp)) * ulp)"

definition f64_round :: "rat \<Rightarrow> rat" where
  "f64_round x = (if x = 0 then 0 else if x < 0 then - f64_round_pos (- x) else f64_round_pos x)"

definition f64_add :: "rat \<Rightarrow> rat \<Rightarrow> rat" where
  "f64_add x y = f64_round (x + y)"

definition f64_sub :: "rat \<Rightarrow> rat \<Rightarrow> rat" where
  "f64_sub x y = f64_round (x - y)"

definition f64_mul :: "rat \<Rightarrow> rat \<Rightarrow> rat" where
  "f64_mul x y = f64_round (x * y)"

definition f64_div :: "rat \<Rightarrow> rat \<Rightarrow> rat" where
  "f64_div x y = f64_round (x / y)"

text \<open>\<open>n as f64\<close> for an unsigned integer.\<close>

definition u_as_f64 :: "nat \<Rightarrow> rat" where
  "u_as_f64 n = f64_round (of_nat n)"

text \<open>\<open>f64::round\<close> rounds half away from zero; \<open>as u16\<close> truncates and saturates.\<close>

definition f64_half_away :: "rat \<Rightarrow> rat" where
  "f64_half_away x = (if 0 \<le> x then of_int \<lfloor>x + 1 / 2\<rfloor> else - of_int \<lfloor>1 / 2 - x\<rfloor>)"

definition f64_as_u16 :: "rat \<Rightarrow> nat" where
  "f64_as_u16 x = (if x \<le> 0 then 0 else min 65535 (nat \<lfloor>x\<rfloor>))"

section \<open>Rounding is monotone and fixes integers\<close>

lemma powi_less_exponent: "(2::rat) powi a < 2 powi b \<Longrightarrow> a < b"
  using power_int_increasing [of b a "2::rat"] by fastforce

lemma bitlen_rat:
  assumes "0 < p"
  shows "(2::rat) powi (bitlen p - 1) \<le> of_int p" "of_int p < (2::rat) powi (bitlen p)"
proof -
  have b: "0 < bitlen p"
    using bitlen_bounds [OF assms] assms by (cases "0 < bitlen p") auto
  have "2 ^ nat (bitlen p - 1) \<le> p" "p < 2 ^ nat (bitlen p)"
    using bitlen_bounds [OF assms] by auto
  then have "(of_int (2 ^ nat (bitlen p - 1)) :: rat) \<le> of_int p" "(of_int p :: rat) < of_int (2 ^ nat (bitlen p))"
    by (simp_all only: of_int_le_iff of_int_less_iff)
  then show "(2::rat) powi (bitlen p - 1) \<le> of_int p" "of_int p < (2::rat) powi (bitlen p)"
    using b by (simp_all add: power_int_def)
qed

lemma f64_exponent_bounds:
  assumes "0 < x"
  shows "2 powi f64_exponent x \<le> x" "x < 2 powi (f64_exponent x + 1)"
proof -
  obtain p q where pq: "quotient_of x = (p, q)" by force
  have x: "x = of_int p / of_int q"
    using quotient_of_div [OF pq] .
  have q: "0 < q"
    using quotient_of_denom_pos [OF pq] .
  have p: "0 < p"
    using assms x q by (simp add: zero_less_divide_iff)
  define e where "e = bitlen p - bitlen q"
  have "2 powi (e - 1) = 2 powi (bitlen p - 1) / (2::rat) powi (bitlen q)"
    by (simp add: e_def flip: power_int_diff) (simp add: algebra_simps)
  also have "\<dots> \<le> x"
    unfolding x using bitlen_rat [OF p] bitlen_rat [OF q] p q
    by (intro frac_le) auto
  finally have lo: "2 powi (e - 1) \<le> x" .
  have "x < 2 powi (bitlen p) / (2::rat) powi (bitlen q - 1)"
    unfolding x using bitlen_rat [OF p] bitlen_rat [OF q] p
    by (intro frac_less) auto
  also have "\<dots> = 2 powi (e + 1)"
    by (simp add: e_def flip: power_int_diff) (simp add: algebra_simps)
  finally have hi: "x < 2 powi (e + 1)" .
  show "2 powi f64_exponent x \<le> x" "x < 2 powi (f64_exponent x + 1)"
    using lo hi by (auto simp: f64_exponent_def pq e_def Let_def)
qed

lemma round_half_even_mono: "x \<le> y \<Longrightarrow> round_half_even x \<le> round_half_even y"
proof -
  assume xy: "x \<le> y"
  have "\<lfloor>x\<rfloor> \<le> \<lfloor>y\<rfloor>"
    using xy by (rule floor_mono)
  then consider "\<lfloor>x\<rfloor> = \<lfloor>y\<rfloor>" | "\<lfloor>x\<rfloor> + 1 \<le> \<lfloor>y\<rfloor>" by linarith
  then show ?thesis
    by cases (use xy in \<open>auto simp: round_half_even_def Let_def\<close>)
qed

lemma round_half_even_int [simp]: "round_half_even (of_int k) = k"
  by (simp add: round_half_even_def)

lemma round_half_even_nat [simp]: "round_half_even (of_nat k) = int k"
  using round_half_even_int [of "int k"] by simp

lemma f64_round_pos_bounds:
  assumes "0 < x"
  shows "2 powi f64_exponent x \<le> f64_round_pos x" "f64_round_pos x \<le> 2 powi (f64_exponent x + 1)"
proof -
  define e where "e = f64_exponent x"
  define u where "u = (2::rat) powi (e - 52)"
  have u: "0 < u" "2 powi e = of_int (2 ^ 52) * u" "2 powi (e + 1) = of_int (2 ^ 53) * u"
    by (simp_all add: u_def power_int_diff power_int_add)
  have "of_int (2 ^ 52) \<le> x / u" "x / u \<le> of_int (2 ^ 53)"
    using f64_exponent_bounds [OF assms] u by (simp_all add: e_def [symmetric] field_simps)
  then have "2 ^ 52 \<le> round_half_even (x / u)" "round_half_even (x / u) \<le> 2 ^ 53"
    using round_half_even_mono round_half_even_int by metis+
  then have "of_int (2 ^ 52) \<le> (of_int (round_half_even (x / u)) :: rat)"
      "(of_int (round_half_even (x / u)) :: rat) \<le> of_int (2 ^ 53)"
    by (simp_all only: of_int_le_iff)
  then show "2 powi f64_exponent x \<le> f64_round_pos x" "f64_round_pos x \<le> 2 powi (f64_exponent x + 1)"
    using u by (simp_all only: f64_round_pos_def Let_def e_def [symmetric] u_def [symmetric] mult_right_mono less_imp_le)
qed

lemma f64_round_pos_mono:
  assumes "0 < x" "x \<le> y"
  shows "f64_round_pos x \<le> f64_round_pos y"
proof -
  have y: "0 < y" using assms by simp
  have "(2::rat) powi f64_exponent x < 2 powi (f64_exponent y + 1)"
    using f64_exponent_bounds [OF assms(1)] f64_exponent_bounds [OF y] assms by linarith
  then have "f64_exponent x \<le> f64_exponent y"
    by (auto dest: powi_less_exponent)
  then consider "f64_exponent x = f64_exponent y" | "f64_exponent x + 1 \<le> f64_exponent y" by linarith
  then show ?thesis
  proof cases
    case 1
    then show ?thesis
      using assms by (simp add: f64_round_pos_def Let_def round_half_even_mono divide_right_mono)
  next
    case 2
    then have "(2::rat) powi (f64_exponent x + 1) \<le> 2 powi f64_exponent y"
      by (simp add: power_int_increasing)
    then show ?thesis
      using f64_round_pos_bounds [OF assms(1)] f64_round_pos_bounds [OF y] by linarith
  qed
qed

lemma f64_round_pos_pos: "0 < x \<Longrightarrow> 0 < f64_round_pos x"
  using f64_round_pos_bounds(1) [of x] by (meson less_le_trans zero_less_numeral zero_less_power_int)

lemma f64_round_mono: "0 \<le> x \<Longrightarrow> x \<le> y \<Longrightarrow> f64_round x \<le> f64_round y"
  using f64_round_pos_mono [of x y] f64_round_pos_pos [of y] by (auto simp: f64_round_def)

lemma f64_round_0 [simp]: "f64_round 0 = 0"
  by (simp add: f64_round_def)

lemma f64_round_nonneg: "0 \<le> x \<Longrightarrow> 0 \<le> f64_round x"
  using f64_round_mono [of 0 x] by simp

lemma f64_round_dyadic:
  assumes "n < 2 ^ 53"
  shows "f64_round (of_nat n / 2 ^ j) = of_nat n / 2 ^ j"
proof (cases "n = 0")
  case False
  define x :: rat where "x = of_nat n / 2 ^ j"
  define e where "e = f64_exponent x"
  have x: "0 < x" using False by (simp add: x_def)
  have "(of_nat n :: rat) < of_nat (2 ^ 53)"
    using assms by (simp only: of_nat_less_iff)
  then have "x < 2 powi (int 53 - int j)"
    by (simp add: x_def power_int_diff divide_strict_right_mono)
  then have "(2::rat) powi e < 2 powi (int 53 - int j)"
    using f64_exponent_bounds(1) [OF x] unfolding e_def by linarith
  then have e: "e < int 53 - int j"
    by (rule powi_less_exponent)
  define k where "k = nat (52 - e - int j)"
  have "e - 52 = - int (k + j)"
    using e by (simp add: k_def)
  then have u: "(2::rat) powi (e - 52) = 1 / 2 ^ (k + j)"
    by (simp only: power_int_minus power_int_of_nat divide_inverse mult_1)
  have "x / (1 / 2 ^ (k + j)) = of_nat (n * 2 ^ k)"
    by (simp add: x_def power_add)
  then have "f64_round_pos x = of_int (round_half_even (of_nat (n * 2 ^ k))) * (1 / 2 ^ (k + j))"
    by (simp only: f64_round_pos_def Let_def e_def [symmetric] u)
  also have "\<dots> = x"
    by (simp only: round_half_even_nat) (simp add: x_def power_add)
  finally show ?thesis
    using x by (simp add: f64_round_def x_def)
qed simp

lemma f64_round_of_nat: "n < 2 ^ 53 \<Longrightarrow> f64_round (of_nat n) = of_nat n"
  using f64_round_dyadic [of n 0] by simp

lemma u_as_f64_exact [simp]: "n < 2 ^ 53 \<Longrightarrow> u_as_f64 n = of_nat n"
  by (simp add: u_as_f64_def f64_round_of_nat)

lemma u_as_f64_mono: "m \<le> n \<Longrightarrow> u_as_f64 m \<le> u_as_f64 n"
  by (simp add: u_as_f64_def f64_round_mono)

lemma u_as_f64_pos: "0 < n \<Longrightarrow> 0 < u_as_f64 n"
  by (simp add: u_as_f64_def f64_round_def f64_round_pos_pos)

lemma u_as_f64_nonneg: "0 \<le> u_as_f64 n"
  by (simp add: u_as_f64_def f64_round_nonneg)

lemma f64_half_away_mono: "0 \<le> x \<Longrightarrow> x \<le> y \<Longrightarrow> f64_half_away x \<le> f64_half_away y"
  by (simp add: f64_half_away_def floor_mono)

lemma f64_half_away_nat [simp]: "f64_half_away (of_nat n) = of_nat n"
proof -
  have "\<lfloor>of_nat n + 1 / 2 :: rat\<rfloor> = int n" by linarith
  then show ?thesis by (simp add: f64_half_away_def)
qed

lemma f64_as_u16_mono: "x \<le> y \<Longrightarrow> f64_as_u16 x \<le> f64_as_u16 y"
  using floor_mono [of x y] by (auto simp: f64_as_u16_def nat_mono min.coboundedI2 le_diff_conv min_def)

lemma f64_as_u16_nat [simp]: "n < 65536 \<Longrightarrow> f64_as_u16 (of_nat n) = n"
  by (simp add: f64_as_u16_def)

lemma f64_exponent_unique:
  assumes "2 powi e \<le> x" "x < 2 powi (e + 1)"
  shows "f64_exponent x = e"
proof -
  have x: "0 < x"
    using assms(1) by (meson less_le_trans zero_less_numeral zero_less_power_int)
  have "(2::rat) powi e < 2 powi (f64_exponent x + 1)" "(2::rat) powi f64_exponent x < 2 powi (e + 1)"
    using assms f64_exponent_bounds [OF x] by linarith+
  then show ?thesis
    by (auto dest!: powi_less_exponent)
qed

lemma f64_two_thirds: "f64_div 2 3 = 6004799503160661 / 2 ^ 53"
proof -
  have e: "f64_exponent (2 / 3) = -1"
    by (rule f64_exponent_unique) (simp_all add: power_int_minus)
  have "(-1 - 52 :: int) = - int 53" by simp
  then have u: "(2::rat) powi (-1 - 52) = 1 / 2 ^ 53"
    by (simp only: power_int_minus power_int_of_nat divide_inverse mult_1)
  have "f64_round_pos (2 / 3) = of_int (round_half_even (2 / 3 / (1 / 2 ^ 53))) * (1 / 2 ^ 53)"
    by (simp only: f64_round_pos_def Let_def e u)
  also have "round_half_even (2 / 3 / (1 / 2 ^ 53)) = 6004799503160661"
  proof -
    have "(2::rat) / 3 / (1 / 2 ^ 53) = 6004799503160661 + 1 / 3"
      by simp
    moreover have "\<lfloor>6004799503160661 + 1 / 3 :: rat\<rfloor> = 6004799503160661"
      by linarith
    ultimately show ?thesis
      by (simp add: round_half_even_def)
  qed
  finally show ?thesis
    by (simp add: f64_div_def f64_round_def)
qed

text \<open>
  A rational just below a small integer, by a relative distance of at most half a unit in the last
  place, rounds up to it; at a power of two this is the tie that goes to the even mantissa.
\<close>

lemma f64_round_just_below:
  assumes "0 < m" "m < 2 ^ 50"
  shows "f64_round (of_nat m - of_nat m / 2 ^ 54) = of_nat m"
proof -
  define x :: rat where "x = of_nat m - of_nat m / 2 ^ 54"
  define e where "e = f64_exponent x"
  have x: "0 < x"
    using assms by (simp add: x_def field_simps)
  have "(of_nat m :: rat) < 2 ^ 50"
    using assms(2) by (metis of_nat_less_iff of_nat_numeral of_nat_power)
  then have "x < 2 powi 50"
    using assms(1) by (simp add: x_def)
  then have "(2::rat) powi e < 2 powi 50"
    using f64_exponent_bounds(1) [OF x] unfolding e_def by linarith
  then have e: "e < 50"
    by (rule powi_less_exponent)
  define k where "k = nat (52 - e)"
  have k: "2 \<le> k" "e - 52 = - int k"
    using e by (simp_all add: k_def)
  then have u: "(2::rat) powi (e - 52) = 1 / 2 ^ k"
    by (simp only: power_int_minus power_int_of_nat divide_inverse mult_1)
  define M where "M = m * 2 ^ k"
  define d :: rat where "d = of_nat M / 2 ^ 54"
  have xM: "x / (1 / 2 ^ k) = of_nat M - d"
    by (simp add: x_def M_def d_def field_simps)
  have "(2::rat) powi (e + 1) = 2 powi ((e - 52) + 53)"
    by (rule arg_cong [where f = "power_int 2"]) simp
  also have "\<dots> = 2 powi (e - 52) * 2 ^ 53"
    by (subst power_int_add) (simp_all only: power_int_numeral, simp)
  finally have "(2::rat) powi (e + 1) = 2 powi (e - 52) * 2 ^ 53" .
  then have "x < 1 / 2 ^ k * 2 ^ 53"
    using f64_exponent_bounds(2) [OF x] u by (simp only: e_def [symmetric])
  then have "x / (1 / 2 ^ k) < 2 ^ 53"
    by (simp add: field_simps)
  then have "of_nat M - d < 2 ^ 53"
    unfolding xM .
  then have "(of_nat M :: rat) < 2 ^ 53 + 1"
    by (simp add: d_def field_simps)
  then have "(of_nat M :: rat) < of_nat (2 ^ 53 + 1)"
    by simp
  then have M: "0 < M" "M \<le> 2 ^ 53"
    using assms(1) unfolding M_def by (simp_all only: of_nat_less_iff) simp_all
  have "(of_nat M :: rat) \<le> of_nat (2 ^ 53)"
    using M(2) by (simp only: of_nat_le_iff)
  then have d: "0 < d" "d \<le> 1 / 2"
    using M(1) by (simp_all add: d_def field_simps)
  have tie: "even M" if "d = 1 / 2"
  proof -
    have "(of_nat M :: rat) = of_nat (2 ^ 53)"
      using that by (simp add: d_def field_simps)
    then have "M = 2 ^ 53"
      by (simp only: of_nat_eq_iff)
    then show ?thesis by simp
  qed
  have "\<lfloor>of_nat M - d\<rfloor> = int M - 1"
    using d by linarith
  then have "round_half_even (of_nat M - d) = int M"
    using d tie by (auto simp: round_half_even_def Let_def)
  then have "f64_round_pos x = of_nat M * (1 / 2 ^ k)"
    by (simp add: f64_round_pos_def Let_def e_def [symmetric] u xM [simplified])
  also have "\<dots> = of_nat m"
    by (simp add: M_def)
  finally show ?thesis
    using x by (simp add: f64_round_def x_def)
qed

lemma f64_two_thirds_floor:
  assumes "0 < n" "n < 65536"
  shows "f64_as_u16 (f64_mul (u_as_f64 n) (f64_div 2 3)) = 2 * n div 3"
proof -
  define x :: rat where "x = of_nat n * (6004799503160661 / 2 ^ 53)"
  define m where "m = 2 * n div 3"
  have m: "m < 65535" "2 * n = 3 * m + 2 * n mod 3"
    using assms by (auto simp: m_def)
  have x: "x = of_nat (2 * n) / 3 - of_nat (2 * n) / 3 / 2 ^ 54"
    by (simp add: x_def field_simps)
  have "of_nat m \<le> f64_round x \<and> f64_round x < of_nat (m + 1)"
  proof (cases "2 * n mod 3 = 0")
    case True
    then have "of_nat (2 * n) = (3 * of_nat m :: rat)"
      using m(2) by (metis add_0_right of_nat_mult of_nat_numeral)
    then have "x = of_nat m - of_nat m / 2 ^ 54"
      by (simp add: x)
    moreover have "0 < m" "m < 2 ^ 50"
      using True assms m by auto
    ultimately have "f64_round x = of_nat m"
      using f64_round_just_below by (simp only:)
    then show ?thesis by simp
  next
    case False
    then have "2 * n = 3 * m + 1 \<or> 2 * n = 3 * m + 2"
      using m(2) by linarith
    then have b: "3 * of_nat m + 1 \<le> (of_nat (2 * n) :: rat)" "of_nat (2 * n) \<le> (3 * of_nat m + 2 :: rat)"
      by (auto simp del: of_nat_mult)
    have "(of_nat (2 * n) :: rat) < 131072"
      using assms(2) by (simp add: flip: of_nat_less_iff)
    then have "of_nat (2 * n) / 3 / 2 ^ 54 < (1 / 3 :: rat)"
      by simp
    then have lo: "of_nat m \<le> x"
      using b(1) by (simp add: x field_simps del: of_nat_mult)
    have "x \<le> of_nat (2 * n) / 3"
      by (simp add: x)
    also have "\<dots> \<le> of_nat (4 * m + 3) / 2 ^ 2"
      using b(2) by simp
    finally have "f64_round x \<le> of_nat (4 * m + 3) / 2 ^ 2"
      using lo m(1) f64_round_mono [of x "of_nat (4 * m + 3) / 2 ^ 2"] f64_round_dyadic [of "4 * m + 3" 2]
      by simp
    moreover have "of_nat m \<le> f64_round x"
      using lo m(1) f64_round_mono [of "of_nat m" x] f64_round_of_nat [of m] by simp
    ultimately show ?thesis by simp
  qed
  then have "\<lfloor>f64_round x\<rfloor> = int m" "f64_round x \<le> 0 \<Longrightarrow> m = 0"
    by (linarith, auto)
  then have "f64_as_u16 (f64_round x) = m"
    using m(1) by (auto simp: f64_as_u16_def)
  then show ?thesis
    using assms(2) by (simp add: f64_mul_def f64_two_thirds m_def x_def)
qed

end
