(* ===== verification/Model.thy ===== *)
theory Model
  imports Float64
begin

text \<open>
  The description of the model under training (shared/coordinator/src/model.rs) with the pieces of
  shared/core it is made of: \<open>FixedString\<close> (fixed_string.rs) and the learning-rate and optimizer
  descriptions (definitions.rs). A \<open>FixedString<L>\<close> is its \<open>L\<close> bytes; text is the UTF-8 bytes of a
  Rust string. Finite \<open>f32\<close> and \<open>f64\<close> fields are their rational values. \<open>model_check\<close> is the
  validation every update of a run passes through.
\<close>

section \<open>FixedString\<close>

type_synonym fixed_string = bytes

datatype FixedStringError = FixedStringError nat nat

definition fs_new :: "nat \<Rightarrow> fixed_string" where
  "fs_new L = replicate L 0"

definition fs_from_str_truncated :: "nat \<Rightarrow> bytes \<Rightarrow> fixed_string" where
  "fs_from_str_truncated L s =
     (let n = min (length s) L in take n s @ drop n (replicate L 0))"

text \<open>\<open>self.0[0] == 0\<close>; every \<open>FixedString\<close> of the program has a positive size.\<close>

definition fs_is_empty :: "fixed_string \<Rightarrow> bool" where
  "fs_is_empty s = (s ! 0 = 0)"

definition fs_try_from :: "nat \<Rightarrow> bytes \<Rightarrow> (FixedStringError, fixed_string) res" where
  "fs_try_from L s =
     rbind (guard_err (L < length s) (FixedStringError (length s) L)) (\<lambda>_.
       Ok (s @ drop (length s) (replicate L 0)))"

text \<open>The bytes handed to the UTF-8 decoder when a \<open>FixedString\<close> becomes a string.\<close>

definition fs_used :: "fixed_string \<Rightarrow> bytes" where
  "fs_used s = (case find_position (\<lambda>b. b = 0) s of Some p \<Rightarrow> take p s | None \<Rightarrow> s)"

section \<open>The model description\<close>

record ConstantLR =
  cl_base_lr :: rat
  cl_warmup_init_lr :: rat
  cl_warmup_steps :: nat

record LinearLR =
  ll_base_lr :: rat
  ll_warmup_init_lr :: rat
  ll_final_lr :: rat
  ll_warmup_steps :: nat
  ll_total_steps :: nat

record CosineLR =
  co_base_lr :: rat
  co_warmup_init_lr :: rat
  co_final_lr :: rat
  co_warmup_steps :: nat
  co_total_steps :: nat

record WarmupStableDecayLR =
  ws_base_lr :: rat
  ws_warmup_init_lr :: rat
  ws_cosine_decay_final_lr :: rat
  ws_linear_decay_final_lr :: rat
  ws_warmup_steps :: nat
  ws_stable_steps :: nat
  ws_cosine_decay_steps :: nat
  ws_linear_decay_steps :: nat

datatype LearningRateSchedule =
    Constant ConstantLR
  | Linear LinearLR
  | Cosine CosineLR
  | WarmupStableDecay WarmupStableDecayLR

datatype OptimizerDefinition =
    OptDummy
  | AdamW (betas: "rat \<times> rat") (aw_weight_decay: rat) (eps: rat) (aw_clip_grad_norm: "rat option")
  | Distro (di_clip_grad_norm: "rat option") (di_weight_decay: "rat option") (compression_decay: rat)
      (compression_topk: nat) (compression_chunk: nat) (quantize_1bit: bool)

datatype LLMArchitecture = HfLlama | HfDeepseek | HfAuto | Torchtitan

datatype LLMTrainingDataType = Pretraining | Finetuning

datatype HttpTrainingDataLocation =
    SingleUrl fixed_string
  | NumberedFiles (url_template: fixed_string) (start_index: nat) (n_left_pad_zeros: nat) (num_files: nat)
  | Gcp (bucket_name: fixed_string) (filter_directory: fixed_string)

datatype TokenSize = TwoBytes | FourBytes

datatype Shuffle_mode = DontShuffle | Seeded bytes

record HttpLLMTrainingDataLocation =
  http_location :: HttpTrainingDataLocation
  token_size_in_bytes :: TokenSize
  http_shuffle :: Shuffle_mode

datatype LLMTrainingDataLocation =
    DataDummy
  | Server fixed_string
  | Local fixed_string
  | Http HttpLLMTrainingDataLocation
  | WeightedHttp fixed_string
  | Preprocessed fixed_string

record HubRepo =
  repo_id :: fixed_string
  revision :: "fixed_string option"

record GcsRepo =
  gcs_bucket :: fixed_string
  gcs_prefix :: "fixed_string option"

datatype Checkpoint =
    Ephemeral
  | CkDummy HubRepo
  | Hub HubRepo
  | P2P HubRepo
  | Gcs GcsRepo
  | P2PGcs GcsRepo

record LLM =
  max_seq_len :: nat
  cold_start_warmup_steps :: nat
  architecture :: LLMArchitecture
  checkpoint :: Checkpoint
  data_type :: LLMTrainingDataType
  data_location :: LLMTrainingDataLocation
  lr_schedule :: LearningRateSchedule
  optimizer :: OptimizerDefinition

text \<open>The enum \<open>Model\<close> has the single variant \<open>LLM\<close>.\<close>

datatype model = Model_LLM (model_llm: LLM)

definition lr_get_warmup_steps :: "LearningRateSchedule \<Rightarrow> nat" where
  "lr_get_warmup_steps s = (case s of
       Constant l \<Rightarrow> cl_warmup_steps l
     | Linear l \<Rightarrow> ll_warmup_steps l
     | Cosine l \<Rightarrow> co_warmup_steps l
     | WarmupStableDecay l \<Rightarrow> ws_warmup_steps l)"

definition lr_get_warmup_init_lr :: "LearningRateSchedule \<Rightarrow> rat" where
  "lr_get_warmup_init_lr s = (case s of
       Constant l \<Rightarrow> cl_warmup_init_lr l
     | Linear l \<Rightarrow> ll_warmup_init_lr l
     | Cosine l \<Rightarrow> co_warmup_init_lr l
     | WarmupStableDecay l \<Rightarrow> ws_warmup_init_lr l)"

definition HubRepo_dummy :: HubRepo where
  "HubRepo_dummy = \<lparr>repo_id = fs_new 64, revision = None\<rparr>"

definition GcsRepo_dummy :: GcsRepo where
  "GcsRepo_dummy = \<lparr>gcs_bucket = fs_new 64, gcs_prefix = None\<rparr>"

definition LLM_dummy :: LLM where
  "LLM_dummy = \<lparr>max_seq_len = 2048, cold_start_warmup_steps = 0, architecture = HfLlama,
     checkpoint = CkDummy HubRepo_dummy, data_type = Pretraining, data_location = DataDummy,
     lr_schedule = Constant \<lparr>cl_base_lr = 0, cl_warmup_init_lr = 0, cl_warmup_steps = 0\<rparr>,
     optimizer = OptDummy\<rparr>"

definition bad_data_location :: "LLMTrainingDataLocation \<Rightarrow> bool" where
  "bad_data_location d = (case d of
       DataDummy \<Rightarrow> False
     | Server url \<Rightarrow> fs_is_empty url
     | Local _ \<Rightarrow> False
     | Http h \<Rightarrow> (case http_location h of
           SingleUrl url \<Rightarrow> fs_is_empty url
         | NumberedFiles template _ _ files \<Rightarrow> fs_is_empty template \<or> files = 0
         | Gcp bucket _ \<Rightarrow> fs_is_empty bucket)
     | WeightedHttp url \<Rightarrow> fs_is_empty url
     | Preprocessed url \<Rightarrow> fs_is_empty url)"

definition bad_checkpoint :: "Checkpoint \<Rightarrow> bool" where
  "bad_checkpoint c = (case c of
       CkDummy _ \<Rightarrow> False
     | Ephemeral \<Rightarrow> True
     | Hub r \<Rightarrow> fs_is_empty (repo_id r)
     | P2P r \<Rightarrow> fs_is_empty (repo_id r)
     | Gcs r \<Rightarrow> fs_is_empty (gcs_bucket r)
     | P2PGcs r \<Rightarrow> fs_is_empty (gcs_bucket r))"

definition good_optimizer :: "OptimizerDefinition \<Rightarrow> bool" where
  "good_optimizer opt = (case opt of OptDummy \<Rightarrow> False | AdamW _ _ _ _ \<Rightarrow> True | Distro _ _ _ _ _ _ \<Rightarrow> True)"

definition model_check :: "model \<Rightarrow> bool" where
  "model_check m = (case m of Model_LLM llm \<Rightarrow>
     if max_seq_len llm = 0 then False
     else if bad_data_location (data_location llm) then False
     else if bad_checkpoint (checkpoint llm) then False
     else if \<not> good_optimizer (optimizer llm) then False
     else True)"

section \<open>Lemmas\<close>

lemma find_position_append_zeros:
  "0 \<notin> set s \<Longrightarrow>
   find_position (\<lambda>b. b = (0::8 word)) (s @ replicate k 0) = (if k = 0 then None else Some (length s))"
  by (induction s) (cases k; auto)+

lemma fs_used_padded: "0 \<notin> set s \<Longrightarrow> fs_used (s @ replicate k 0) = s"
  by (simp add: fs_used_def find_position_append_zeros)

text \<open>
  A string without NUL bytes survives the trip through \<open>FixedString<L>\<close>: it converts exactly
  when it fits, the result has \<open>L\<close> bytes and reads back as the same string, \<open>is_empty\<close> tells the
  empty one, and truncation reads back as the longest prefix that fits.
\<close>

theorem fixed_string_roundtrip:
  assumes "0 \<notin> set s" "0 < L"
  shows "(length s \<le> L \<longrightarrow> (\<exists>f. fs_try_from L s = Ok f \<and> length f = L \<and> fs_used f = s
            \<and> (fs_is_empty f \<longleftrightarrow> s = []) \<and> f = fs_from_str_truncated L s))
       \<and> (L < length s \<longrightarrow> fs_try_from L s = Err (FixedStringError (length s) L))
       \<and> length (fs_from_str_truncated L s) = L
       \<and> fs_used (fs_from_str_truncated L s) = take L s"
proof -
  have "fs_from_str_truncated L s = take L s @ replicate (L - length s) 0"
    by (simp add: fs_from_str_truncated_def Let_def min_def)
  moreover have "0 \<notin> set (take L s)"
    using assms(1) in_set_takeD by force
  moreover have "fs_is_empty (s @ replicate (L - length s) 0) \<longleftrightarrow> s = []"
    using assms by (cases s) (auto simp: fs_is_empty_def)
  ultimately show ?thesis
    using assms by (auto simp: fs_try_from_def guard_err_def fs_used_padded)
qed

theorem fixed_string_roundtrip_witness:
  "fs_try_from 4 [112, 121] = Ok [112, 121, 0, 0] \<and> fs_used [112, 121, 0, 0] = [112, 121 :: 8 word]"
proof -
  have "fs_from_str_truncated 4 [112, 121] = [112, 121, 0, 0]"
    by (simp add: fs_from_str_truncated_def Let_def eval_nat_numeral)
  then show ?thesis
    using fixed_string_roundtrip [of "[112, 121]" 4] by simp
qed

end
