(* ===== verification/Bloom.thy ===== *)
theory Bloom
  imports Rust_Prelude
begin

text \<open>
  The Bloom filter of shared/core/src/bloom.rs. \<open>BitArray<[u64; U]>\<close> is a word of \<open>64 * U\<close> bits with
  the bit at a position as the array's bit; the length of a word is positive, so \<open>checked_rem\<close> always
  succeeds and every position is in range. The FNV hasher is the parameter \<open>fnv_hash\<close>.
\<close>

unbundle bit_operations_syntax

record (overloaded) 'u bloom =
  bloom_keys :: "nat list"
  bloom_bits :: "'u word"

definition max_bits :: "('u::len) bloom \<Rightarrow> nat" where
  "max_bits b = LENGTH('u)"

definition bloom_new :: "nat \<Rightarrow> nat \<Rightarrow> nat list \<Rightarrow> ('e, ('u::len) bloom) res" where
  "bloom_new K num_bits ks =
     (let b = \<lparr>bloom_keys = ks, bloom_bits = 0\<rparr> in
      rbind (assert_ok (num_bits \<le> max_bits b)) (\<lambda>_.
      rbind (assert_ok (length ks = K)) (\<lambda>_. Ok b)))"

definition slice_hash :: "externs \<Rightarrow> bytes \<Rightarrow> nat \<Rightarrow> nat" where
  "slice_hash X key hash_index = fnv_hash X hash_index key"

definition bloom_pos :: "externs \<Rightarrow> ('u::len) bloom \<Rightarrow> bytes \<Rightarrow> nat \<Rightarrow> nat" where
  "bloom_pos X b key k = slice_hash X key k mod LENGTH('u)"

definition bloom_clear :: "('u::len) bloom \<Rightarrow> 'u bloom" where
  "bloom_clear b = b\<lparr>bloom_bits := 0\<rparr>"

definition bloom_add_key :: "nat \<Rightarrow> ('u::len) bloom \<Rightarrow> 'u bloom" where
  "bloom_add_key pos b =
     (if \<not> bit (bloom_bits b) pos then b\<lparr>bloom_bits := set_bit pos (bloom_bits b)\<rparr> else b)"

definition bloom_add :: "externs \<Rightarrow> bytes \<Rightarrow> ('u::len) bloom \<Rightarrow> 'u bloom" where
  "bloom_add X key b = fold (\<lambda>k. bloom_add_key (bloom_pos X b key k)) (bloom_keys b) b"

definition bloom_contains :: "externs \<Rightarrow> ('u::len) bloom \<Rightarrow> bytes \<Rightarrow> bool" where
  "bloom_contains X b key =
     list_all (\<lambda>k. bit (bloom_bits b) (bloom_pos X b key k)) (bloom_keys b)"

section \<open>Lemmas\<close>

lemma bloom_pos_less: "bloom_pos X (b :: ('u::len) bloom) key k < LENGTH('u)"
  by (simp add: bloom_pos_def)

lemma bloom_add_loop:
  fixes b c :: "('u::len) bloom"
  shows "bloom_keys (fold (\<lambda>k. bloom_add_key (bloom_pos X c key k)) ks b) = bloom_keys b
   \<and> (\<forall>p. bit (bloom_bits (fold (\<lambda>k. bloom_add_key (bloom_pos X c key k)) ks b)) p \<longleftrightarrow>
          bit (bloom_bits b) p \<or> p \<in> bloom_pos X c key ` set ks)"
  by (induction ks arbitrary: b)
    (auto simp: bloom_add_key_def bit_set_bit_iff bloom_pos_less)

lemma bloom_keys_add [simp]: "bloom_keys (bloom_add X key b) = bloom_keys b"
  using bloom_add_loop [of X b key "bloom_keys b" b] by (simp add: bloom_add_def)

lemma bit_bloom_add:
  "bit (bloom_bits (bloom_add X key b)) p \<longleftrightarrow>
   bit (bloom_bits b) p \<or> p \<in> bloom_pos X b key ` set (bloom_keys b)"
  using bloom_add_loop [of X b key "bloom_keys b" b] by (simp add: bloom_add_def)

lemma bloom_pos_add [simp]: "bloom_pos X (bloom_add X key b) = bloom_pos X b"
  by (simp add: bloom_pos_def fun_eq_iff)

lemma bloom_contains_iff:
  "bloom_contains X b key \<longleftrightarrow> (\<forall>k\<in>set (bloom_keys b). bit (bloom_bits b) (bloom_pos X b key k))"
  by (simp add: bloom_contains_def list_all_iff)

lemma bloom_contains_add: "bloom_contains X (bloom_add X key b) key"
  by (simp add: bloom_contains_iff bit_bloom_add)

lemma bloom_contains_add_mono: "bloom_contains X b key' \<Longrightarrow> bloom_contains X (bloom_add X key b) key'"
  by (simp add: bloom_contains_iff bit_bloom_add)

lemma bloom_contains_fold_mono:
  "bloom_contains X b key \<Longrightarrow> bloom_contains X (fold (bloom_add X) xs b) key"
  by (induction xs arbitrary: b) (simp_all add: bloom_contains_add_mono)

text \<open>
  The filter has no false negatives: whatever was in the filter or was added to it, in any
  order and with whatever else, is reported as contained; and an element reported as contained was
  set at every one of its positions by the additions, so a filter fresh from \<open>new\<close> or \<open>clear\<close>
  contains nothing as long as it has a key.
\<close>

theorem bloom_no_false_negatives:
  fixes b :: "('u::len) bloom"
  shows "(x \<in> set xs \<or> bloom_contains X b x \<longrightarrow> bloom_contains X (fold (bloom_add X) xs b) x)
   \<and> (bloom_contains X (fold (bloom_add X) xs (bloom_clear b)) x \<longrightarrow>
        (\<forall>k\<in>set (bloom_keys b). \<exists>y\<in>set xs. \<exists>k'\<in>set (bloom_keys b). bloom_pos X b x k = bloom_pos X b y k'))"
proof -
  have bits: "bloom_keys (fold (bloom_add X) xs c) = bloom_keys c
      \<and> (\<forall>p. bit (bloom_bits (fold (bloom_add X) xs c)) p \<longleftrightarrow>
             bit (bloom_bits c) p \<or> (\<exists>y\<in>set xs. p \<in> bloom_pos X b y ` set (bloom_keys c)))" for c :: "'u bloom"
    by (induction xs arbitrary: c) (auto simp: bit_bloom_add bloom_pos_def)
  have "x \<in> set xs \<Longrightarrow> bloom_contains X (fold (bloom_add X) xs b) x"
    by (induction xs arbitrary: b) (auto simp: bloom_contains_fold_mono bloom_contains_add)
  moreover have "bloom_contains X (fold (bloom_add X) xs (bloom_clear b)) x \<Longrightarrow>
      \<forall>k\<in>set (bloom_keys b). \<exists>y\<in>set xs. \<exists>k'\<in>set (bloom_keys b). bloom_pos X b x k = bloom_pos X b y k'"
    using bits [of "bloom_clear b"] by (auto simp: bloom_contains_iff bloom_clear_def bloom_pos_def image_iff)
  ultimately show ?thesis
    using bloom_contains_fold_mono by blast
qed

theorem bloom_no_false_negatives_witness:
  "\<exists>X (b :: 64 bloom). bloom_contains X (fold (bloom_add X) [[3], [5]] b) [5]
     \<and> bloom_keys b = [7] \<and> \<not> bloom_contains X (bloom_clear b) [5]"
  using bloom_no_false_negatives [of "[5]" "[[3], [5]]"
      "\<lparr>sha256 = (\<lambda>bs. bs), fnv_hash = (\<lambda>k bs. k)\<rparr>" "\<lparr>bloom_keys = [7], bloom_bits = (0 :: 64 word)\<rparr>"]
    bloom_no_false_negatives [of "[5]" "[]"
      "\<lparr>sha256 = (\<lambda>bs. bs), fnv_hash = (\<lambda>k bs. k)\<rparr>" "\<lparr>bloom_keys = [7], bloom_bits = (0 :: 64 word)\<rparr>"]
  by (intro exI [of _ "\<lparr>sha256 = (\<lambda>bs. bs), fnv_hash = (\<lambda>k bs. k)\<rparr>"]
      exI [of _ "\<lparr>bloom_keys = [7], bloom_bits = (0 :: 64 word)\<rparr>"]) simp

end
