(* ===== verification/Fixed_Vec.thy ===== *)
theory Fixed_Vec
  imports Rust_Prelude
begin

text \<open>
  \<open>FixedVec<T, N>\<close> (shared/core/src/fixed_vec.rs): an array of \<open>N\<close> slots and a length. The record
  keeps both; \<open>d\<close> is \<open>T::default()\<close> and \<open>N\<close> is the length of the array. The loops that shift,
  clear and compact the array are modelled as they run. The abstraction \<open>fv_list\<close> is the slice
  \<open>data[..len]\<close> the container dereferences to; the locale \<open>bounded_vec\<close> is the contract its
  clients use, and the interpretation shows that the array code provides it.
\<close>

section \<open>The container\<close>

record 'a fixed_vec =
  fv_data :: "'a list"
  fv_len :: nat

definition fv_new :: "'a \<Rightarrow> nat \<Rightarrow> 'a fixed_vec" where
  "fv_new d N = \<lparr>fv_data = replicate N d, fv_len = 0\<rparr>"

definition fv_is_empty :: "'a fixed_vec \<Rightarrow> bool" where
  "fv_is_empty v \<longleftrightarrow> fv_len v = 0"

definition fv_capacity :: "'a fixed_vec \<Rightarrow> nat" where
  "fv_capacity v = length (fv_data v)"

definition fv_is_full :: "'a fixed_vec \<Rightarrow> bool" where
  "fv_is_full v \<longleftrightarrow> fv_len v = fv_capacity v"

definition fv_push :: "'a fixed_vec \<Rightarrow> 'a \<Rightarrow> (string, 'a fixed_vec) res" where
  "fv_push v x =
     (if fv_len v < fv_capacity v
      then Ok (v\<lparr>fv_data := (fv_data v)[fv_len v := x], fv_len := fv_len v + 1\<rparr>)
      else Err ''FixedVec is full'')"

text \<open>\<open>std::mem::take\<close> leaves the default behind.\<close>

definition fv_pop :: "'a \<Rightarrow> 'a fixed_vec \<Rightarrow> 'a option \<times> 'a fixed_vec" where
  "fv_pop d v =
     (if 0 < fv_len v
      then (Some (fv_data v ! (fv_len v - 1)),
            v\<lparr>fv_data := (fv_data v)[fv_len v - 1 := d], fv_len := fv_len v - 1\<rparr>)
      else (None, v))"

definition fv_get :: "'a fixed_vec \<Rightarrow> nat \<Rightarrow> 'a option" where
  "fv_get v i = (if i < fv_len v then Some (fv_data v ! i) else None)"

definition fv_set :: "'a fixed_vec \<Rightarrow> nat \<Rightarrow> 'a \<Rightarrow> 'a fixed_vec option" where
  "fv_set v i x = (if i < fv_len v then Some (v\<lparr>fv_data := (fv_data v)[i := x]\<rparr>) else None)"

definition fv_clear :: "'a \<Rightarrow> 'a fixed_vec \<Rightarrow> 'a fixed_vec" where
  "fv_clear d v =
     v\<lparr>fv_data := fold (\<lambda>i xs. xs[i := d]) [0..<fv_len v] (fv_data v), fv_len := 0\<rparr>"

text \<open>\<open>extend\<close> over any container with a fallible push; \<open>fv_extend\<close> is the method.\<close>

primrec vec_extend :: "('v \<Rightarrow> 'a \<Rightarrow> ('e, 'v) res) \<Rightarrow> 'v \<Rightarrow> 'a list \<Rightarrow> ('e, 'v) res" where
  "vec_extend push v [] = Ok v"
| "vec_extend push v (x # xs) = rbind (push v x) (\<lambda>v'. vec_extend push v' xs)"

definition fv_extend :: "'a fixed_vec \<Rightarrow> 'a list \<Rightarrow> (string, 'a fixed_vec) res" where
  "fv_extend v xs = vec_extend fv_push v xs"

definition fv_first :: "'a fixed_vec \<Rightarrow> 'a option" where
  "fv_first v = (if 0 < fv_len v then Some (fv_data v ! 0) else None)"

definition fv_last :: "'a fixed_vec \<Rightarrow> 'a option" where
  "fv_last v = (if 0 < fv_len v then Some (fv_data v ! (fv_len v - 1)) else None)"

definition fv_remove :: "'a \<Rightarrow> 'a fixed_vec \<Rightarrow> nat \<Rightarrow> 'a option \<times> 'a fixed_vec" where
  "fv_remove d v i =
     (if fv_len v \<le> i then (None, v)
      else let last_pos = fv_len v - 1;
               shifted = fold (\<lambda>j xs. xs[j := xs ! (j + 1)]) [i..<last_pos] (fv_data v)
           in (Some (fv_data v ! i),
               v\<lparr>fv_data := shifted[last_pos := d], fv_len := fv_len v - 1\<rparr>))"

definition fv_insert :: "'a fixed_vec \<Rightarrow> nat \<Rightarrow> 'a \<Rightarrow> (string, 'a fixed_vec) res" where
  "fv_insert v i x =
     (if fv_capacity v \<le> fv_len v then Err ''FixedVec is full''
      else if fv_len v < i then Err ''Index out of bounds''
      else let shifted = fold (\<lambda>j xs. xs[j + 1 := xs ! j]) (rev [i..<fv_len v]) (fv_data v)
           in Ok (v\<lparr>fv_data := shifted[i := x], fv_len := fv_len v + 1\<rparr>))"

text \<open>
  The two-pointer loop of \<open>retain\<close>. The closure is an \<open>FnMut\<close>: it threads a state \<open>s\<close> and may
  panic, so it returns the verdict and the new state as an outcome.
\<close>

function retain_loop ::
  "('s \<Rightarrow> 'a \<Rightarrow> ('e, bool \<times> 's) res) \<Rightarrow> 's \<Rightarrow> 'a list \<Rightarrow> nat \<Rightarrow> nat \<Rightarrow> nat
     \<Rightarrow> ('e, 's \<times> 'a list \<times> nat) res" where
  "retain_loop f s xs rd wr n =
     (if rd < n then
        (case f s (xs ! rd) of
           Ok (keep, s') \<Rightarrow>
             if keep then
               retain_loop f s' (if rd \<noteq> wr then xs[wr := xs ! rd] else xs)
                 (rd + 1) (wr + 1) n
             else retain_loop f s' xs (rd + 1) wr n
         | Err e \<Rightarrow> Err e
         | Panic \<Rightarrow> Panic)
      else Ok (s, xs, wr))"
  by pat_completeness auto
termination
  by (relation "measure (\<lambda>(f, s, xs, rd, wr, n). n - rd)") auto

declare retain_loop.simps [simp del]

definition fv_retain ::
  "'a \<Rightarrow> ('s \<Rightarrow> 'a \<Rightarrow> ('e, bool \<times> 's) res) \<Rightarrow> 's \<Rightarrow> 'a fixed_vec \<Rightarrow> ('e, 's \<times> 'a fixed_vec) res" where
  "fv_retain d f s v =
     rbind (retain_loop f s (fv_data v) 0 0 (fv_len v)) (\<lambda>(s', xs, wr).
       Ok (s', v\<lparr>fv_data := fold (\<lambda>i ys. ys[i := d]) [wr..<fv_len v] xs, fv_len := wr\<rparr>))"

definition fv_index :: "'a fixed_vec \<Rightarrow> nat \<Rightarrow> ('e, 'a) res" where
  "fv_index v i = unwrap (fv_get v i)"

definition fv_index_range :: "'a fixed_vec \<Rightarrow> nat \<Rightarrow> nat \<Rightarrow> ('e, 'a list) res" where
  "fv_index_range v a b =
     (if b < a \<or> fv_len v < b then Panic else Ok (drop a (take b (fv_data v))))"

definition fv_index_range_from :: "'a fixed_vec \<Rightarrow> nat \<Rightarrow> ('e, 'a list) res" where
  "fv_index_range_from v a =
     (if fv_len v < a then Panic else Ok (drop a (take (fv_len v) (fv_data v))))"

definition fv_index_range_to :: "'a fixed_vec \<Rightarrow> nat \<Rightarrow> ('e, 'a list) res" where
  "fv_index_range_to v b = (if fv_len v < b then Panic else Ok (take b (fv_data v)))"

text \<open>\<open>Deref\<close>: the slice of the used slots.\<close>

definition fv_list :: "'a fixed_vec \<Rightarrow> 'a list" where
  "fv_list v = take (fv_len v) (fv_data v)"

definition fv_try_from_iter :: "'a \<Rightarrow> nat \<Rightarrow> 'a list \<Rightarrow> (string, 'a fixed_vec) res" where
  "fv_try_from_iter d N xs = fv_extend (fv_new d N) xs"

definition fv_from_iter :: "'a \<Rightarrow> nat \<Rightarrow> 'a list \<Rightarrow> (string, 'a fixed_vec) res" where
  "fv_from_iter d N xs = (case fv_try_from_iter d N xs of Ok v \<Rightarrow> Ok v | _ \<Rightarrow> Panic)"

text \<open>
  The representation invariant. Besides the bound it records that every slot past the length holds
  the default: the account is compared and serialised as raw bytes, so an operation that shrinks
  the vector must not leave a stale element behind.
\<close>

definition fv_inv :: "'a \<Rightarrow> 'a fixed_vec \<Rightarrow> bool" where
  "fv_inv d v \<longleftrightarrow> fv_len v \<le> fv_capacity v \<and> list_all (\<lambda>x. x = d) (drop (fv_len v) (fv_data v))"

text \<open>The list-level meaning of \<open>retain\<close>: visit in order, thread the closure's state.\<close>

primrec retain_list ::
  "('s \<Rightarrow> 'a \<Rightarrow> ('e, bool \<times> 's) res) \<Rightarrow> 's \<Rightarrow> 'a list \<Rightarrow> ('e, 's \<times> 'a list) res" where
  "retain_list f s [] = Ok (s, [])"
| "retain_list f s (x # xs) =
     rbind (f s x) (\<lambda>(keep, s').
       rbind (retain_list f s' xs) (\<lambda>(s'', ys). Ok (s'', if keep then x # ys else ys)))"

text \<open>A vector of capacity \<open>N\<close> at list level, as the coordinator's theories use it.\<close>

definition vec_push :: "nat \<Rightarrow> 'a list \<Rightarrow> 'a \<Rightarrow> (string, 'a list) res" where
  "vec_push N xs x = (if length xs < N then Ok (xs @ [x]) else Err ''FixedVec is full'')"

section \<open>The contract of a bounded vector\<close>

locale bounded_vec =
  fixes vlist :: "'v \<Rightarrow> 'a list"
    and vinv :: "'v \<Rightarrow> bool"
    and vcap :: "'v \<Rightarrow> nat"
    and vpush :: "'v \<Rightarrow> 'a \<Rightarrow> (string, 'v) res"
  assumes vlist_cap: "vinv v \<Longrightarrow> length (vlist v) \<le> vcap v"
    and vpush_ok: "vinv v \<Longrightarrow> length (vlist v) < vcap v \<Longrightarrow>
      \<exists>v'. vpush v x = Ok v' \<and> vinv v' \<and> vlist v' = vlist v @ [x] \<and> vcap v' = vcap v"
    and vpush_full: "vinv v \<Longrightarrow> vcap v \<le> length (vlist v) \<Longrightarrow> vpush v x = Err ''FixedVec is full''"
begin

lemma vpush_cases:
  assumes "vinv v"
  shows "vpush v x = Err ''FixedVec is full'' \<and> vec_push (vcap v) (vlist v) x = Err ''FixedVec is full''
    \<or> (\<exists>v'. vpush v x = Ok v' \<and> vinv v' \<and> vcap v' = vcap v
        \<and> vec_push (vcap v) (vlist v) x = Ok (vlist v'))"
  using assms vpush_ok [of v x] vpush_full [of v x] by (fastforce simp: vec_push_def)

lemma extend_ok:
  assumes "vinv v" "length (vlist v) + length xs \<le> vcap v"
  shows "\<exists>v'. vec_extend vpush v xs = Ok v' \<and> vinv v' \<and> vlist v' = vlist v @ xs \<and> vcap v' = vcap v"
  using assms
proof (induction xs arbitrary: v)
  case (Cons x xs)
  then obtain v' where v': "vpush v x = Ok v'" "vinv v'" "vlist v' = vlist v @ [x]" "vcap v' = vcap v"
    using vpush_ok [of v x] by auto
  with Cons.IH [of v'] Cons.prems show ?case by auto
qed simp

lemma extend_too_long:
  assumes "vinv v" "vcap v < length (vlist v) + length xs"
  shows "vec_extend vpush v xs = Err ''FixedVec is full''"
  using assms
proof (induction xs arbitrary: v)
  case Nil
  then show ?case using vlist_cap [of v] by simp
next
  case (Cons x xs)
  show ?case
  proof (cases "length (vlist v) < vcap v")
    case True
    then obtain v' where v': "vpush v x = Ok v'" "vinv v'" "vlist v' = vlist v @ [x]" "vcap v' = vcap v"
      using vpush_ok [of v x] Cons.prems by auto
    with Cons.IH [of v'] Cons.prems show ?thesis by simp
  next
    case False
    then show ?thesis using vpush_full [of v x] Cons.prems by simp
  qed
qed

end

section \<open>Lemmas\<close>

lemma fv_inv_nth:
  "fv_inv d v \<longleftrightarrow> fv_len v \<le> fv_capacity v
     \<and> (\<forall>i. fv_len v \<le> i \<and> i < fv_capacity v \<longrightarrow> fv_data v ! i = d)"
proof -
  have "list_all (\<lambda>x. x = d) (drop n xs) \<longleftrightarrow> (\<forall>i. n \<le> i \<and> i < length xs \<longrightarrow> xs ! i = d)"
    if "n \<le> length xs" for n and xs :: "'a list"
    using that by (auto simp: list_all_length) (metis add_diff_inverse_nat diff_less_mono leD)
  then show ?thesis
    by (auto simp: fv_inv_def fv_capacity_def)
qed

lemma fv_list_length: "fv_len v \<le> fv_capacity v \<Longrightarrow> length (fv_list v) = fv_len v"
  by (simp add: fv_list_def fv_capacity_def)

lemma fold_fill:
  "fold (\<lambda>i xs. xs[i := d]) [a..<b] ys
     = map (\<lambda>i. if a \<le> i \<and> i < b then d else ys ! i) [0..<length ys]"
proof (induction b)
  case 0
  then show ?case by (simp add: map_nth)
next
  case (Suc b)
  show ?case
  proof (cases "a \<le> b")
    case True
    then show ?thesis
      by (auto simp: Suc.IH nth_list_update less_Suc_eq intro!: nth_equalityI)
  next
    case False
    then show ?thesis by (auto simp: map_nth intro!: nth_equalityI)
  qed
qed

lemma fv_inv_new: "fv_inv d (fv_new d N)" "fv_list (fv_new d N) = []" "fv_capacity (fv_new d N) = N"
  by (simp_all add: fv_inv_nth fv_new_def fv_capacity_def fv_list_def)

lemma fv_push_ok:
  assumes "fv_inv d v" "fv_len v < fv_capacity v"
  shows "\<exists>v'. fv_push v x = Ok v' \<and> fv_inv d v' \<and> fv_list v' = fv_list v @ [x] \<and> fv_capacity v' = fv_capacity v"
  using assms
  by (auto simp: fv_push_def fv_inv_nth fv_capacity_def fv_list_def take_Suc_conv_app_nth nth_list_update)

interpretation fv: bounded_vec fv_list "fv_inv d" fv_capacity fv_push for d
proof unfold_locales
  fix v :: "'a fixed_vec" and x
  assume inv: "fv_inv d v"
  then have len: "length (fv_list v) = fv_len v"
    by (simp add: fv_inv_nth fv_list_length)
  show "length (fv_list v) \<le> fv_capacity v"
    using inv by (simp add: len fv_inv_nth)
  show "\<exists>v'. fv_push v x = Ok v' \<and> fv_inv d v' \<and> fv_list v' = fv_list v @ [x] \<and> fv_capacity v' = fv_capacity v"
    if "length (fv_list v) < fv_capacity v"
    using that fv_push_ok [OF inv] by (simp add: len)
  show "fv_push v x = Err ''FixedVec is full''" if "fv_capacity v \<le> length (fv_list v)"
    using that by (simp add: len fv_push_def)
qed

interpretation lv: bounded_vec "\<lambda>xs. xs" "\<lambda>xs. length xs \<le> N" "\<lambda>_. N" "vec_push N" for N
  by unfold_locales (auto simp: vec_push_def)

lemma fv_clear_list: "fv_list (fv_clear d v) = []" "fv_capacity (fv_clear d v) = fv_capacity v"
  by (simp_all add: fv_clear_def fv_list_def fv_capacity_def fold_fill)

lemma fv_clear_inv: "fv_inv d v \<Longrightarrow> fv_inv d (fv_clear d v)"
  by (auto simp: fv_inv_nth fv_clear_def fv_capacity_def fold_fill)


lemma fold_shift_down:
  "b < length ys \<Longrightarrow> fold (\<lambda>j xs. xs[j := xs ! Suc j]) [a..<b] ys
     = map (\<lambda>i. if a \<le> i \<and> i < b then ys ! Suc i else ys ! i) [0..<length ys]"
proof (induction b)
  case 0
  then show ?case by (simp add: map_nth)
next
  case (Suc b)
  then show ?case
    by (cases "a \<le> b")
      (auto simp: nth_list_update less_Suc_eq map_nth intro!: nth_equalityI)
qed

lemma fold_shift_up:
  "b < length ys \<Longrightarrow> fold (\<lambda>j xs. xs[Suc j := xs ! j]) (rev [a..<b]) ys
     = map (\<lambda>i. if a < i \<and> i \<le> b then ys ! (i - Suc 0) else ys ! i) [0..<length ys]"
proof (induction b arbitrary: ys)
  case 0
  then show ?case by (auto intro!: nth_equalityI)
next
  case (Suc b)
  show ?case
  proof (cases "a \<le> b")
    case True
    then show ?thesis
      using Suc.prems Suc.IH [of "ys[Suc b := ys ! b]"]
      by (auto simp: nth_list_update le_Suc_eq intro!: nth_equalityI)
  next
    case False
    then show ?thesis by (auto simp: map_nth intro!: nth_equalityI)
  qed
qed

text \<open>What the loop has to deliver for the list-level result \<open>r\<close> of the unread part.\<close>

definition retain_spec ::
  "('e, 's \<times> 'a list \<times> nat) res \<Rightarrow> 'a list \<Rightarrow> nat \<Rightarrow> nat \<Rightarrow> ('e, 's \<times> 'a list) res \<Rightarrow> bool" where
  "retain_spec l xs wr n r \<longleftrightarrow> (case r of
      Ok (s', ys) \<Rightarrow> (\<exists>xs'. l = Ok (s', xs', wr + length ys)
        \<and> length xs' = length xs \<and> take (wr + length ys) xs' = take wr xs @ ys
        \<and> wr + length ys \<le> n \<and> (\<forall>i. n \<le> i \<and> i < length xs \<longrightarrow> xs' ! i = xs ! i))
    | Err e \<Rightarrow> l = Err e
    | Panic \<Rightarrow> l = Panic)"

lemma retain_spec_keep:
  assumes "retain_spec l xs1 (Suc wr) n r"
    and "length xs1 = length xs" "take (Suc wr) xs1 = take wr xs @ [x]"
    and "\<And>i. n \<le> i \<Longrightarrow> xs1 ! i = xs ! i"
  shows "retain_spec l xs wr n (rbind r (\<lambda>(s'', ys). Ok (s'', x # ys)))"
  using assms by (cases r) (auto simp: retain_spec_def)

lemma retain_spec_drop:
  "retain_spec l xs wr n r \<Longrightarrow> retain_spec l xs wr n (rbind r (\<lambda>(s'', ys). Ok (s'', ys)))"
  by (cases r) (auto simp: retain_spec_def)

lemma retain_loop_list:
  assumes "wr \<le> rd" "rd \<le> n" "n \<le> length xs"
  shows "retain_spec (retain_loop f s xs rd wr n) xs wr n (retain_list f s (drop rd (take n xs)))"
  using assms
proof (induction f s xs rd wr n rule: retain_loop.induct)
  case (1 f s xs rd wr n)
  show ?case
  proof (cases "rd < n")
    case False
    with "1.prems" show ?thesis by (simp add: retain_spec_def retain_loop.simps [of f s xs n wr n])
  next
    case True
    let ?xs1 = "if rd \<noteq> wr then xs[wr := xs ! rd] else xs"
    have head: "drop rd (take n xs) = xs ! rd # drop (Suc rd) (take n xs)"
      using True "1.prems" by (metis Cons_nth_drop_Suc length_take min.absorb2 nth_take)
    have tail: "drop (Suc rd) (take n ?xs1) = drop (Suc rd) (take n xs)"
      using "1.prems" by (auto simp: take_update_swap drop_update_cancel)
    have kept: "take (Suc wr) ?xs1 = take wr xs @ [xs ! rd]"
      using True "1.prems" by (simp add: take_Suc_conv_app_nth)
    show ?thesis
    proof (cases "f s (xs ! rd)")
      case (Ok ks)
      obtain keep s' where ks: "ks = (keep, s')" by force
      show ?thesis
      proof (cases keep)
        case k: True
        have "retain_spec (retain_loop f s' ?xs1 (Suc rd) (Suc wr) n) xs wr n
            (rbind (retain_list f s' (drop (Suc rd) (take n xs))) (\<lambda>(s'', ys). Ok (s'', xs ! rd # ys)))"
          using "1.IH"(1) [OF True Ok ks [symmetric] k] "1.prems" True kept tail
          by (intro retain_spec_keep [of _ ?xs1]) (auto simp del: if_split)
        then show ?thesis
          by (simp add: head True Ok ks k retain_loop.simps [of f s xs rd wr n])
      next
        case k: False
        have "retain_spec (retain_loop f s' xs (Suc rd) wr n) xs wr n
            (rbind (retain_list f s' (drop (Suc rd) (take n xs))) (\<lambda>(s'', ys). Ok (s'', ys)))"
          using "1.IH"(2) [OF True Ok ks [symmetric] k] "1.prems" True
          by (intro retain_spec_drop) simp
        then show ?thesis
          by (simp add: head True Ok ks k retain_loop.simps [of f s xs rd wr n])
      qed
    qed (simp_all add: head True retain_spec_def retain_loop.simps [of f s xs rd wr n])
  qed
qed

lemma fv_set_list:
  "fv_inv d v \<Longrightarrow> fv_set v i x = Some v' \<Longrightarrow> fv_list v' = (fv_list v)[i := x] \<and> fv_inv d v'"
  by (auto simp: fv_set_def fv_list_def fv_inv_nth fv_capacity_def take_update_swap split: if_splits)

lemma fv_get_list: "fv_inv d v \<Longrightarrow> fv_get v i = slice_get (fv_list v) i"
  by (auto simp: fv_get_def slice_get_def fv_list_def fv_inv_nth fv_capacity_def)

text \<open>
  \<open>FixedVec::retain\<close> implements the in-order filter: on a well-formed vector the two-pointer
  loop calls the closure once per element from first to last, threads its state (and its panics
  and errors) exactly as the list-level traversal does, leaves the kept elements in their order,
  and resets every freed slot to the default.
\<close>

theorem fv_retain_refines:
  assumes "fv_inv d v"
  shows "case retain_list f s (fv_list v) of
      Ok (s', ys) \<Rightarrow> (\<exists>v'. fv_retain d f s v = Ok (s', v') \<and> fv_list v' = ys \<and> fv_inv d v'
        \<and> fv_capacity v' = fv_capacity v)
    | Err e \<Rightarrow> fv_retain d f s v = Err e
    | Panic \<Rightarrow> fv_retain d f s v = Panic"
proof -
  have spec: "retain_spec (retain_loop f s (fv_data v) 0 0 (fv_len v)) (fv_data v) 0 (fv_len v)
      (retain_list f s (fv_list v))"
    using assms retain_loop_list [of 0 0 "fv_len v" "fv_data v" f s]
    by (simp add: fv_list_def fv_inv_nth fv_capacity_def)
  show ?thesis
  proof (cases "retain_list f s (fv_list v)")
    case (Ok r)
    obtain s' ys where r: "r = (s', ys)" by force
    from spec Ok r obtain xs' where xs': "retain_loop f s (fv_data v) 0 0 (fv_len v) = Ok (s', xs', length ys)"
      "length xs' = length (fv_data v)" "take (length ys) xs' = ys" "length ys \<le> fv_len v"
      "\<forall>i. fv_len v \<le> i \<and> i < length (fv_data v) \<longrightarrow> xs' ! i = fv_data v ! i"
      by (auto simp: retain_spec_def)
    have "take (length ys) (map (\<lambda>i. if length ys \<le> i \<and> i < fv_len v then d else xs' ! i) [0..<length xs'])
        = take (length ys) xs'"
      by (auto intro!: nth_equalityI)
    with xs' assms have "\<exists>v'. fv_retain d f s v = Ok (s', v') \<and> fv_list v' = ys \<and> fv_inv d v'
        \<and> fv_capacity v' = fv_capacity v"
      by (simp add: fv_retain_def fold_fill fv_list_def fv_inv_nth fv_capacity_def)
    then show ?thesis by (simp add: Ok r)
  qed (use spec in \<open>simp_all add: retain_spec_def fv_retain_def\<close>)
qed

theorem fv_retain_refines_witness:
  "fv_inv (0::nat) \<lparr>fv_data = [5, 6, 7, 0], fv_len = 3\<rparr>
   \<and> fv_retain 0 (\<lambda>s x. Ok (x \<noteq> 6, s + x) :: (string, bool \<times> nat) res) 0 \<lparr>fv_data = [5, 6, 7, 0], fv_len = 3\<rparr>
       = Ok (18, \<lparr>fv_data = [5, 7, 0, 0], fv_len = 2\<rparr>)"
proof -
  let ?v = "\<lparr>fv_data = [5, 6, 7, 0], fv_len = 3\<rparr> :: nat fixed_vec"
  let ?f = "\<lambda>s x. Ok (x \<noteq> 6, s + x) :: (string, bool \<times> nat) res"
  have inv: "fv_inv 0 ?v"
    by (simp add: fv_inv_def fv_capacity_def)
  have "fv_list ?v = [5, 6, 7]"
    by (simp add: fv_list_def numeral_eq_Suc)
  with fv_retain_refines [OF inv, of ?f 0] obtain v' where v': "fv_retain 0 ?f 0 ?v = Ok (18, v')"
      "fv_list v' = [5, 7]" "fv_inv 0 v'" "fv_capacity v' = 4"
    by (auto simp: fv_capacity_def)
  have "fv_retain 0 ?f 0 ?v = Ok (18, \<lparr>fv_data = [5, 7, 0, 0], fv_len = 2\<rparr>)"
    by (simp add: fv_retain_def retain_loop.simps upt_rec)
  with inv show ?thesis by blast
qed

lemma fv_remove_list:
  assumes "fv_inv d v" "i < fv_len v"
  shows "fst (fv_remove d v i) = Some (fv_list v ! i)"
    and "fv_list (snd (fv_remove d v i)) = take i (fv_list v) @ drop (Suc i) (fv_list v)"
    and "fv_inv d (snd (fv_remove d v i))"
  using assms
  by (auto simp: fv_remove_def Let_def fv_list_def fv_inv_nth fv_capacity_def fold_shift_down
      nth_append nth_list_update min_def intro!: nth_equalityI split: if_splits)

lemma fv_insert_list:
  assumes "fv_inv d v" "i \<le> fv_len v" "fv_len v < fv_capacity v"
  shows "\<exists>v'. fv_insert v i x = Ok v' \<and> fv_inv d v' \<and> fv_capacity v' = fv_capacity v
    \<and> fv_list v' = take i (fv_list v) @ x # drop i (fv_list v)"
  using assms
  by (auto simp: fv_insert_def Let_def fv_list_def fv_inv_nth fv_capacity_def fold_shift_up
      nth_append nth_list_update nth_Cons' min_def intro!: nth_equalityI split: if_splits)

text \<open>
  Inserting an element and removing it again gives back the vector it started from, slot for
  slot: \<open>remove\<close> undoes \<open>insert\<close> at every position of a vector that is not full, and hands the
  element back.
\<close>

theorem fv_remove_insert:
  assumes "fv_inv d v" "i \<le> fv_len v" "fv_len v < fv_capacity v"
  shows "\<exists>v'. fv_insert v i x = Ok v' \<and> fst (fv_remove d v' i) = Some x
    \<and> fv_list (snd (fv_remove d v' i)) = fv_list v"
proof -
  obtain v' where v': "fv_insert v i x = Ok v'" "fv_inv d v'"
    "fv_list v' = take i (fv_list v) @ x # drop i (fv_list v)"
    using fv_insert_list [OF assms] by blast
  have len: "length (fv_list v) = fv_len v" "length (fv_list v') = fv_len v'"
    using assms(1) v'(2) by (simp_all add: fv_inv_nth fv_list_length)
  have "i < fv_len v'"
    using assms(2) len v'(3) by (metis add_Suc_right add_diff_cancel_left' le_add_diff_inverse length_append
        length_Cons length_drop length_take less_Suc_eq_le min.absorb2 trans_le_add1 le_add1)
  then show ?thesis
    using fv_remove_list [OF v'(2)] v' assms(2) len by (auto simp: nth_append min_def)
qed

theorem fv_remove_insert_witness:
  "\<exists>v'. fv_insert \<lparr>fv_data = [5, 6, 0 :: nat], fv_len = 2\<rparr> 1 9 = Ok v' \<and> fst (fv_remove 0 v' 1) = Some 9
    \<and> fv_list (snd (fv_remove 0 v' 1)) = [5, 6]"
  using fv_remove_insert [of 0 "\<lparr>fv_data = [5, 6, 0 :: nat], fv_len = 2\<rparr>" 1 9]
  by (simp add: fv_inv_def fv_capacity_def fv_list_def)

text \<open>
  \<open>extend\<close> succeeds exactly when the new elements fit: then the vector holds the old elements
  followed by the new ones; otherwise it reports \<open>FixedVec is full\<close>.
\<close>

theorem fv_extend_fits:
  assumes "fv_inv d v"
  shows "if fv_len v + length xs \<le> fv_capacity v
    then \<exists>v'. fv_extend v xs = Ok v' \<and> fv_inv d v' \<and> fv_list v' = fv_list v @ xs
    else fv_extend v xs = Err ''FixedVec is full''"
  using assms fv.extend_ok [of d v xs] fv.extend_too_long [of d v xs]
  by (auto simp: fv_extend_def fv_list_length fv_inv_nth)

theorem fv_extend_fits_witness:
  "(\<exists>v'. fv_extend (fv_new (0::nat) 3) [4, 5] = Ok v' \<and> fv_list v' = [4, 5])
   \<and> fv_extend (fv_new (0::nat) 1) [4, 5] = Err ''FixedVec is full''"
  using fv_extend_fits [OF fv_inv_new(1) [of 0 3], of "[4, 5]"]
    fv_extend_fits [OF fv_inv_new(1) [of 0 1], of "[4, 5]"]
  by (auto simp: fv_inv_new fv_new_def fv_capacity_def fv_list_def)

end
