(* ===== verification/Coordinator_Types.thy ===== *)
theory Coordinator_Types
  imports Model Bloom Fixed_Vec
begin

text \<open>
  The data of the coordinator: node identities, clients, rounds, witnesses, the configuration, the
  epoch state and the coordinator itself (shared/coordinator/src/coordinator.rs,
  committee_selection.rs, shared/core/src/node_identity.rs, small_boolean.rs). A \<open>FixedVec\<close> field is
  its list of elements (\<open>Fixed_Vec\<close> proves the array implements it) and is only ever grown by
  \<open>vec_push\<close> with the capacity of the field. Unsigned integer fields are naturals; every operation
  that computes on them checks the width.
\<close>

definition SOLANA_MAX_NUM_CLIENTS :: nat where
  "SOLANA_MAX_NUM_CLIENTS = 256"

definition SOLANA_MAX_NUM_WITNESSES :: nat where
  "SOLANA_MAX_NUM_WITNESSES = 32"

definition NUM_STORED_ROUNDS :: nat where
  "NUM_STORED_ROUNDS = 4"

section \<open>SmallBoolean\<close>

type_synonym small_boolean = "8 word"

definition sb_new :: "bool \<Rightarrow> small_boolean" where
  "sb_new v = (if v then 1 else 0)"

definition sb_is_false :: "small_boolean \<Rightarrow> bool" where
  "sb_is_false b = (b = 0)"

definition sb_is_true :: "small_boolean \<Rightarrow> bool" where
  "sb_is_true b = (\<not> sb_is_false b)"

section \<open>Identities and clients\<close>

record NodeIdentity =
  signer :: bytes
  p2p_identity :: bytes

text \<open>\<open>PartialEq for NodeIdentity\<close> compares the signer alone.\<close>

definition node_eq :: "NodeIdentity \<Rightarrow> NodeIdentity \<Rightarrow> bool" where
  "node_eq a b = (signer a = signer b)"

datatype ClientState = Healthy | Dropped | Withdrawn | Ejected

record Client =
  client_id :: NodeIdentity
  client_state :: ClientState
  exited_height :: nat

definition client_new :: "NodeIdentity \<Rightarrow> Client" where
  "client_new i = \<lparr>client_id = i, client_state = Healthy, exited_height = 0\<rparr>"

section \<open>Committees and witnesses\<close>

datatype Committee = TieBreaker | Verifier | Trainer

record CommitteeProof =
  cp_committee :: Committee
  cp_position :: nat
  cp_index :: nat

record WitnessProof =
  wp_position :: nat
  wp_index :: nat
  wp_witness :: small_boolean

type_synonym WitnessBloom = "1024 bloom"

record Witness =
  wt_proof :: WitnessProof
  wt_participant_bloom :: WitnessBloom
  wt_broadcast_bloom :: WitnessBloom
  wt_broadcast_merkle :: bytes

record Commitment =
  cm_data_hash :: bytes
  cm_signature :: bytes

section \<open>The coordinator\<close>

datatype RunState =
  Uninitialized | WaitingForMembers | Warmup | RoundTrain | RoundWitness | Cooldown | Finished | Paused

record Round =
  rd_witnesses :: "Witness list"
  rd_data_index :: nat
  rd_random_seed :: nat
  rd_height :: nat
  rd_clients_len :: nat
  rd_tie_breaker_tasks :: nat

datatype CoordinatorError =
    NoActiveRound | InvalidWitness | InvalidRunState | DuplicateWitness | InvalidHealthCheck | Halted
  | WitnessesFull | CannotResume | InvalidWithdraw | InvalidCommitteeSelection | InvalidCommitteeProof
  | InvalidSlash

datatype TickResult = Ticked | EpochEnd bool

type_synonym HealthChecks = "(NodeIdentity \<times> CommitteeProof) list"

record CoordinatorConfig =
  cc_warmup_time :: nat
  cc_cooldown_time :: nat
  cc_max_round_train_time :: nat
  cc_round_witness_time :: nat
  cc_global_batch_size_warmup_tokens :: nat
  cc_epoch_time :: nat
  cc_total_steps :: nat
  cc_init_min_clients :: nat
  cc_min_clients :: nat
  cc_witness_nodes :: nat
  cc_global_batch_size_start :: nat
  cc_global_batch_size_end :: nat
  cc_verification_percent :: nat
  cc_waiting_for_members_extra_time :: nat

record CoordinatorEpochState =
  es_rounds :: "Round list"
  es_clients :: "Client list"
  es_exited_clients :: "Client list"
  es_rounds_head :: nat
  es_start_step :: nat
  es_last_step :: nat
  es_start_timestamp :: nat
  es_first_round :: small_boolean
  es_cold_start_epoch :: small_boolean

record CoordinatorProgress =
  pr_epoch :: nat
  pr_step :: nat
  pr_epoch_start_data_index :: nat

record Coordinator =
  c_run_id :: fixed_string
  c_run_state :: RunState
  c_model :: model
  c_config :: CoordinatorConfig
  c_progress :: CoordinatorProgress
  c_epoch_state :: CoordinatorEpochState
  c_run_state_start_unix_timestamp :: nat
  c_pending_pause :: small_boolean

definition Round_default :: Round where
  "Round_default = \<lparr>rd_witnesses = [], rd_data_index = 0, rd_random_seed = 0, rd_height = 0,
     rd_clients_len = 0, rd_tie_breaker_tasks = 0\<rparr>"

definition EpochState_default :: CoordinatorEpochState where
  "EpochState_default = \<lparr>es_rounds = replicate NUM_STORED_ROUNDS Round_default, es_clients = [],
     es_exited_clients = [], es_rounds_head = 0, es_start_step = 0, es_last_step = 0,
     es_start_timestamp = 0, es_first_round = sb_new True, es_cold_start_epoch = sb_new False\<rparr>"

definition Progress_default :: CoordinatorProgress where
  "Progress_default = \<lparr>pr_epoch = 0, pr_step = 1, pr_epoch_start_data_index = 0\<rparr>"

fun RunState_try_from :: "nat \<Rightarrow> (CoordinatorError, RunState) res" where
  "RunState_try_from v =
     (if v = 0 then Ok Uninitialized else if v = 1 then Ok WaitingForMembers
      else if v = 2 then Ok Warmup else if v = 3 then Ok RoundTrain
      else if v = 4 then Ok RoundWitness else if v = 5 then Ok Cooldown
      else if v = 6 then Ok Finished else if v = 7 then Ok Paused
      else Err InvalidRunState)"

fun RunState_to_usize :: "RunState \<Rightarrow> nat" where
  "RunState_to_usize Uninitialized = 0"
| "RunState_to_usize WaitingForMembers = 1"
| "RunState_to_usize Warmup = 2"
| "RunState_to_usize RoundTrain = 3"
| "RunState_to_usize RoundWitness = 4"
| "RunState_to_usize Cooldown = 5"
| "RunState_to_usize Finished = 6"
| "RunState_to_usize Paused = 7"

section \<open>Lemmas\<close>

lemma sb_simps [simp]: "sb_is_true (sb_new v) = v" "sb_is_false (sb_new v) = (\<not> v)"
  by (simp_all add: sb_is_true_def sb_is_false_def sb_new_def)

lemma sb_is_true_lit [simp]: "\<not> sb_is_true 0" "sb_is_true 1"
  by (simp_all add: sb_is_true_def sb_is_false_def)

lemma sb_is_false_not [simp]: "sb_is_false b = (\<not> sb_is_true b)"
  by (simp add: sb_is_true_def)

lemma RunState_roundtrip [simp]: "RunState_try_from (RunState_to_usize s) = Ok s"
  by (cases s) simp_all

declare RunState_try_from.simps [simp del]

end
