(* ===== verification/Shuffle.thy ===== *)
theory Shuffle
  imports Rust_Prelude "HOL-Library.Multiset"
begin

text \<open>
  The two deterministic shuffles of shared/core. \<open>deterministic_shuffle\<close> is the Fisher-Yates shuffle
  driven by the linear congruential generator of lcg.rs; \<open>compute_shuffled_index\<close> (swap_or_not.rs)
  is the swap-or-not network that places one index without building the permutation. The locale
  \<open>index_shuffle\<close> is the contract the committee selection relies on: the placement is a bijection
  of the indices. \<open>son_perm\<close> is the reference permutation, the composition of ninety involutions.
\<close>

section \<open>The generator and the Fisher-Yates shuffle\<close>

definition LCG_A :: "64 word" where
  "LCG_A = 6364136223846793005"

definition LCG_C :: "64 word" where
  "LCG_C = 1442695040888963407"

record LCG =
  lcg_state :: "64 word"

definition lcg_new :: "64 word \<Rightarrow> LCG" where
  "lcg_new seed = \<lparr>lcg_state = seed\<rparr>"

text \<open>\<open>wrapping_mul\<close> and \<open>wrapping_add\<close> are the word operations.\<close>

definition next_u64 :: "LCG \<Rightarrow> 64 word \<times> LCG" where
  "next_u64 g = (let s = lcg_state g * LCG_A + LCG_C in (s, g\<lparr>lcg_state := s\<rparr>))"

definition next_range :: "LCG \<Rightarrow> nat \<Rightarrow> ('e, nat \<times> LCG) res" where
  "next_range g m = (let (x, g') = next_u64 g in rbind (u_rem (unat x) m) (\<lambda>j. Ok (j, g')))"

definition slice_swap :: "'a list \<Rightarrow> nat \<Rightarrow> nat \<Rightarrow> ('e, 'a list) res" where
  "slice_swap xs i j =
     (if i < length xs \<and> j < length xs then Ok (xs[i := xs ! j, j := xs ! i]) else Panic)"

primrec shuffle_loop :: "nat list \<Rightarrow> LCG \<Rightarrow> 'a list \<Rightarrow> ('e, 'a list) res" where
  "shuffle_loop [] g xs = Ok xs"
| "shuffle_loop (i # is) g xs =
     rbind (next_range g (i + 1)) (\<lambda>(j, g').
     rbind (slice_swap xs i j) (\<lambda>xs'. shuffle_loop is g' xs'))"

definition deterministic_shuffle :: "'a list \<Rightarrow> 64 word \<Rightarrow> ('e, 'a list) res" where
  "deterministic_shuffle xs seed = shuffle_loop (rev [1..<length xs]) (lcg_new seed) xs"

section \<open>Swap or not\<close>

definition SHUFFLE_ROUND_COUNT :: nat where
  "SHUFFLE_ROUND_COUNT = 90"

text \<open>
  The pivot and the decision bit of one round. The digest is a \<open>[u8; 32]\<close>, so the byte index
  \<open>position mod 256 div 8\<close> is always in range.
\<close>

definition son_pivot :: "externs \<Rightarrow> bytes \<Rightarrow> nat \<Rightarrow> nat \<Rightarrow> nat" where
  "son_pivot X seed n r = from_le_bytes (take 8 (sha256v X [seed, [word_of_nat r]])) mod n"

definition son_bit :: "externs \<Rightarrow> bytes \<Rightarrow> nat \<Rightarrow> nat \<Rightarrow> bool" where
  "son_bit X seed r pos =
     (let source = sha256v X [seed, [word_of_nat r], take 4 (to_le_bytes 8 (pos div 256))];
          byte = source ! (pos mod 256 div 8)
      in drop_bit (pos mod 8) byte mod 2 = 1)"

definition son_round :: "externs \<Rightarrow> bytes \<Rightarrow> nat \<Rightarrow> nat \<Rightarrow> nat \<Rightarrow> ('e, nat) res" where
  "son_round X seed n r i =
     (let pivot = son_pivot X seed n r in
      rbind (u_add 64 pivot n) (\<lambda>pn.
      rbind (u_sub pn i) (\<lambda>d.
      rbind (u_rem d n) (\<lambda>flip.
        Ok (if son_bit X seed r (max i flip) then flip else i)))))"

primrec son_rounds :: "externs \<Rightarrow> bytes \<Rightarrow> nat \<Rightarrow> nat list \<Rightarrow> nat \<Rightarrow> ('e, nat) res" where
  "son_rounds X seed n [] i = Ok i"
| "son_rounds X seed n (r # rs) i = rbind (son_round X seed n r i) (son_rounds X seed n rs)"

definition compute_shuffled_index :: "externs \<Rightarrow> nat \<Rightarrow> nat \<Rightarrow> bytes \<Rightarrow> ('e, nat) res" where
  "compute_shuffled_index X index index_count seed =
     rbind (assert_ok (index < index_count)) (\<lambda>_.
       son_rounds X seed index_count [0..<SHUFFLE_ROUND_COUNT] index)"

text \<open>The reference: each round either keeps the index or reflects it in the pivot.\<close>

definition son_flip :: "externs \<Rightarrow> bytes \<Rightarrow> nat \<Rightarrow> nat \<Rightarrow> nat \<Rightarrow> nat" where
  "son_flip X seed n r i = (son_pivot X seed n r + n - i) mod n"

definition son_step :: "externs \<Rightarrow> bytes \<Rightarrow> nat \<Rightarrow> nat \<Rightarrow> nat \<Rightarrow> nat" where
  "son_step X seed n r i =
     (let flip = son_flip X seed n r i in if son_bit X seed r (max i flip) then flip else i)"

definition son_perm :: "externs \<Rightarrow> bytes \<Rightarrow> nat \<Rightarrow> nat \<Rightarrow> nat" where
  "son_perm X seed n i = fold (son_step X seed n) [0..<SHUFFLE_ROUND_COUNT] i"

section \<open>The contract of an index shuffle\<close>

locale index_shuffle =
  fixes n :: nat and place :: "nat \<Rightarrow> nat"
  assumes place_bij: "bij_betw place {..<n} {..<n}"
begin

lemma place_less: "i < n \<Longrightarrow> place i < n"
  using place_bij by (auto simp: bij_betw_def)

lemma place_inj: "i < n \<Longrightarrow> j < n \<Longrightarrow> place i = place j \<Longrightarrow> i = j"
  using place_bij by (auto simp: bij_betw_def inj_on_def)

lemma card_window:
  assumes "b \<le> n"
  shows "card {i. i < n \<and> a \<le> place i \<and> place i < b} = b - a"
proof -
  have "place ` {i. i < n \<and> a \<le> place i \<and> place i < b} = {a..<b}"
  proof (rule equalityI)
    show "{a..<b} \<subseteq> place ` {i. i < n \<and> a \<le> place i \<and> place i < b}"
    proof
      fix k assume k: "k \<in> {a..<b}"
      then have "k \<in> place ` {..<n}"
        using place_bij assms by (auto simp: bij_betw_def)
      then show "k \<in> place ` {i. i < n \<and> a \<le> place i \<and> place i < b}"
        using k by auto
    qed
  qed auto
  moreover have "inj_on place {i. i < n \<and> a \<le> place i \<and> place i < b}"
    using place_bij by (auto simp: bij_betw_def inj_on_def)
  ultimately show ?thesis
    using card_image by fastforce
qed

end

section \<open>Lemmas\<close>

lemma son_flip_less: "0 < n \<Longrightarrow> son_flip X seed n r i < n"
  by (simp add: son_flip_def)

lemma son_flip_flip:
  assumes "i < n"
  shows "son_flip X seed n r (son_flip X seed n r i) = i"
proof -
  define p where "p = son_pivot X seed n r"
  have p: "p < n"
    using assms by (simp add: p_def son_pivot_def)
  have flip: "(p + n - i) mod n = (if i \<le> p then p - i else p + n - i)" if "i < n" for i
    using that p by (auto simp: mod_if)
  show ?thesis
    using assms p by (auto simp: son_flip_def p_def [symmetric] flip)
qed

lemma son_step_less: "i < n \<Longrightarrow> son_step X seed n r i < n"
  by (simp add: son_step_def Let_def son_flip_less)

lemma son_step_step: "i < n \<Longrightarrow> son_step X seed n r (son_step X seed n r i) = i"
  by (auto simp: son_step_def Let_def son_flip_flip max.commute)

lemma son_step_bij: "bij_betw (son_step X seed n r) {..<n} {..<n}"
  by (rule bij_betw_byWitness [where f' = "son_step X seed n r"]) (auto simp: son_step_step son_step_less)

lemma fold_bij: "(\<And>r. bij_betw (f r) A A) \<Longrightarrow> bij_betw (fold f rs) A A"
proof (induction rs)
  case Nil
  then show ?case by (simp add: bij_betw_def id_def)
next
  case (Cons r rs)
  then show ?case using bij_betw_trans [of "f r" A A "fold f rs" A] by (simp add: comp_def)
qed

interpretation son: index_shuffle n "son_perm X seed n" for X seed n
proof unfold_locales
  show "bij_betw (son_perm X seed n) {..<n} {..<n}"
    unfolding son_perm_def by (rule fold_bij) (rule son_step_bij)
qed

lemma son_round_eq:
  assumes "i < n" "n \<le> 2 ^ 63"
  shows "son_round X seed n r i = Ok (son_step X seed n r i)"
proof -
  have "son_pivot X seed n r < n"
    using assms by (simp add: son_pivot_def)
  then have "son_pivot X seed n r + n < 2 ^ 64" "i \<le> son_pivot X seed n r + n"
    using assms by auto
  then show ?thesis
    using assms by (simp add: son_round_def son_step_def son_flip_def Let_def u_add_def u_sub_def u_rem_def)
qed

lemma son_rounds_eq:
  "i < n \<Longrightarrow> n \<le> 2 ^ 63 \<Longrightarrow> son_rounds X seed n rs i = Ok (fold (son_step X seed n) rs i)"
  by (induction rs arbitrary: i) (simp_all add: son_round_eq son_step_less)

lemma compute_shuffled_index_eq:
  "i < n \<Longrightarrow> n \<le> 2 ^ 63 \<Longrightarrow> compute_shuffled_index X i n seed = Ok (son_perm X seed n i)"
  by (simp add: compute_shuffled_index_def assert_ok_def son_rounds_eq son_perm_def)

lemma compute_shuffled_index_panic:
  "n \<le> i \<Longrightarrow> compute_shuffled_index X i n seed = Panic"
  by (simp add: compute_shuffled_index_def assert_ok_def)

text \<open>
  The swap-or-not placement is a permutation: for every hash function, every seed and every
  count up to \<open>2^63\<close>, \<open>compute_shuffled_index\<close> returns (never overflows, never indexes out of
  range) on every index below the count, and the placements form a bijection of the indices; at or
  above the count the assertion fires.
\<close>

theorem compute_shuffled_index_permutes:
  assumes "n \<le> 2 ^ 63"
  shows "\<exists>place. bij_betw place {..<n} {..<n}
      \<and> (\<forall>i. compute_shuffled_index X i n seed = (if i < n then Ok (place i) else Panic))"
  using assms son.place_bij [of X seed n]
  by (intro exI [of _ "son_perm X seed n"]) (simp add: compute_shuffled_index_eq compute_shuffled_index_panic)

theorem compute_shuffled_index_permutes_witness:
  "\<exists>place. bij_betw place {..<7} {..<7::nat}
      \<and> (\<forall>i. (compute_shuffled_index \<lparr>sha256 = (\<lambda>bs. replicate 32 (last bs)), fnv_hash = (\<lambda>k bs. k)\<rparr> i 7 [1, 2]
            :: (unit, nat) res) = (if i < 7 then Ok (place i) else Panic))"
  by (rule compute_shuffled_index_permutes) simp

lemma shuffle_loop_mset:
  assumes "\<forall>i\<in>set is. i < length xs"
  shows "\<exists>ys. (shuffle_loop is g xs :: ('e, 'a list) res) = Ok ys \<and> mset ys = mset xs"
  using assms
proof (induction "is" arbitrary: g xs)
  case (Cons i "is")
  obtain x g' where g: "next_u64 g = (x, g')" by force
  let ?j = "unat x mod (i + 1)"
  let ?ys = "xs[i := xs ! ?j, ?j := xs ! i]"
  have ij: "i < length xs" "?j < length xs"
    using Cons.prems by (auto intro: le_less_trans [OF mod_less_eq_dividend] simp: less_Suc_eq_le)
      (meson less_Suc_eq_le le_less_trans mod_less_divisor zero_less_Suc)
  then have "mset ?ys = mset xs"
    by (simp add: mset_swap)
  moreover have "\<forall>k\<in>set is. k < length ?ys"
    using Cons.prems by simp
  from Cons.IH [OF this, of g'] obtain zs
    where "(shuffle_loop is g' ?ys :: ('e, 'a list) res) = Ok zs" "mset zs = mset ?ys"
    by blast
  ultimately show ?case
    using ij by (simp add: next_range_def g u_rem_def slice_swap_def)
qed simp

text \<open>
  \<open>deterministic_shuffle\<close> permutes: on every list and every seed it finishes without a panic
  (the divisor \<open>i + 1\<close> is never zero, every swap is in bounds) and its result is a rearrangement
  of the input, so no trainer is lost or duplicated by it.
\<close>

theorem deterministic_shuffle_permutes:
  "\<exists>ys. deterministic_shuffle xs seed = Ok ys \<and> mset ys = mset xs"
  unfolding deterministic_shuffle_def by (rule shuffle_loop_mset) auto

end
