(* ===== verification/Committee_Selection.thy ===== *)
theory Committee_Selection
  imports Coordinator_Types Shuffle
begin

text \<open>
  The committee of a round (shared/coordinator/src/committee_selection.rs): the clients are placed by
  the swap-or-not shuffle and the first places are tie breakers, the next verifiers, the rest
  trainers; a second shuffle picks the witnesses. The two constructors that read a \<open>Coordinator\<close> are
  in \<open>Coordinator\<close>, where the rounds are. The counting lemmas come from the locale
  \<open>index_shuffle\<close> through its interpretation on the model of \<open>compute_shuffled_index\<close>.
\<close>

section \<open>Definitions\<close>

definition COMMITTEE_SALT :: string where
  "COMMITTEE_SALT = ''committee''"

definition WITNESS_SALT :: string where
  "WITNESS_SALT = ''witness''"

record CommitteeSelection =
  cs_tie_breaker_nodes :: nat
  cs_verifier_nodes :: nat
  cs_total_nodes :: nat
  cs_witness_nodes :: nat
  cs_seed :: bytes

definition cs_new ::
  "externs \<Rightarrow> nat \<Rightarrow> nat \<Rightarrow> nat \<Rightarrow> nat \<Rightarrow> nat \<Rightarrow> (CoordinatorError, CommitteeSelection) res" where
  "cs_new X tie_breaker_nodes witness_nodes verification_percent total_nodes seed =
     rbind (guard_err (2 ^ 64 - 1 \<le> total_nodes) InvalidCommitteeSelection) (\<lambda>_.
     rbind (guard_err (total_nodes < tie_breaker_nodes) InvalidCommitteeSelection) (\<lambda>_.
     rbind (guard_err (witness_nodes \<noteq> 0 \<and> total_nodes < witness_nodes) InvalidCommitteeSelection) (\<lambda>_.
     rbind (guard_err (100 < verification_percent) InvalidCommitteeSelection) (\<lambda>_.
     rbind (u_sub total_nodes tie_breaker_nodes) (\<lambda>free_nodes.
     rbind (u_mul 64 free_nodes verification_percent) (\<lambda>scaled.
       Ok \<lparr>cs_tie_breaker_nodes = tie_breaker_nodes, cs_verifier_nodes = scaled div 100,
           cs_total_nodes = total_nodes, cs_witness_nodes = witness_nodes,
           cs_seed = sha256 X (to_le_bytes 8 seed)\<rparr>))))))"

definition cs_compute_shuffled_index :: "externs \<Rightarrow> CommitteeSelection \<Rightarrow> nat \<Rightarrow> string \<Rightarrow> ('e, nat) res" where
  "cs_compute_shuffled_index X s index salt =
     compute_shuffled_index X index (cs_total_nodes s) (sha256v X [cs_seed s, str_bytes salt])"

definition get_committee_from_position :: "CommitteeSelection \<Rightarrow> nat \<Rightarrow> ('e, Committee) res" where
  "get_committee_from_position s position =
     (if position < cs_tie_breaker_nodes s then Ok TieBreaker
      else rbind (u_add 64 (cs_tie_breaker_nodes s) (cs_verifier_nodes s)) (\<lambda>bound.
             if position < bound then Ok Verifier else Ok Trainer))"

definition get_witness_from_position :: "CommitteeSelection \<Rightarrow> nat \<Rightarrow> bool" where
  "get_witness_from_position s position =
     (if cs_witness_nodes s = 0 then position < SOLANA_MAX_NUM_WITNESSES
      else position < cs_witness_nodes s)"

definition get_witness :: "externs \<Rightarrow> CommitteeSelection \<Rightarrow> nat \<Rightarrow> ('e, WitnessProof) res" where
  "get_witness X s index =
     rbind (cs_compute_shuffled_index X s index WITNESS_SALT) (\<lambda>position.
       Ok \<lparr>wp_position = position, wp_index = index,
           wp_witness = sb_new (get_witness_from_position s position)\<rparr>)"

definition get_committee :: "externs \<Rightarrow> CommitteeSelection \<Rightarrow> nat \<Rightarrow> ('e, CommitteeProof) res" where
  "get_committee X s index =
     rbind (cs_compute_shuffled_index X s index COMMITTEE_SALT) (\<lambda>position.
     rbind (get_committee_from_position s position) (\<lambda>committee.
       Ok \<lparr>cp_committee = committee, cp_position = position, cp_index = index\<rparr>))"

definition get_num_tie_breaker_nodes :: "CommitteeSelection \<Rightarrow> nat" where
  "get_num_tie_breaker_nodes s = cs_tie_breaker_nodes s"

definition get_num_verifier_nodes :: "CommitteeSelection \<Rightarrow> nat" where
  "get_num_verifier_nodes s = cs_verifier_nodes s"

definition verify_client :: "NodeIdentity \<Rightarrow> nat \<Rightarrow> Client list \<Rightarrow> bool" where
  "verify_client i index clients =
     (case slice_get clients index of None \<Rightarrow> False | Some c \<Rightarrow> node_eq (client_id c) i)"

definition verify_committee :: "externs \<Rightarrow> CommitteeSelection \<Rightarrow> CommitteeProof \<Rightarrow> ('e, bool) res" where
  "verify_committee X s pf =
     rbind (cs_compute_shuffled_index X s (cp_index pf) COMMITTEE_SALT) (\<lambda>position.
       if cp_position pf = position
       then rbind (get_committee_from_position s position) (\<lambda>committee. Ok (cp_committee pf = committee))
       else Ok False)"

definition verify_witness :: "externs \<Rightarrow> CommitteeSelection \<Rightarrow> WitnessProof \<Rightarrow> ('e, bool) res" where
  "verify_witness X s pf =
     rbind (cs_compute_shuffled_index X s (wp_index pf) WITNESS_SALT) (\<lambda>position.
       Ok (wp_position pf = position \<and> wp_witness pf = sb_new (get_witness_from_position s position)))"

definition verify_committee_for_client ::
  "externs \<Rightarrow> CommitteeSelection \<Rightarrow> NodeIdentity \<Rightarrow> CommitteeProof \<Rightarrow> Client list \<Rightarrow> ('e, bool) res" where
  "verify_committee_for_client X s i pf clients =
     (if verify_client i (cp_index pf) clients then verify_committee X s pf else Ok False)"

definition verify_witness_for_client ::
  "externs \<Rightarrow> CommitteeSelection \<Rightarrow> NodeIdentity \<Rightarrow> WitnessProof \<Rightarrow> Client list \<Rightarrow> ('e, bool) res" where
  "verify_witness_for_client X s i pf clients =
     (if verify_client i (wp_index pf) clients then verify_witness X s pf else Ok False)"

definition get_num_trainer_nodes :: "CommitteeSelection \<Rightarrow> ('e, nat) res" where
  "get_num_trainer_nodes s =
     rbind (u_sub (cs_total_nodes s) (cs_tie_breaker_nodes s)) (\<lambda>n. u_sub n (cs_verifier_nodes s))"

section \<open>Well-formed selections\<close>

definition cs_wf :: "CommitteeSelection \<Rightarrow> bool" where
  "cs_wf s = (cs_tie_breaker_nodes s + cs_verifier_nodes s \<le> cs_total_nodes s
              \<and> cs_total_nodes s \<le> 2 ^ 63
              \<and> (cs_witness_nodes s \<noteq> 0 \<longrightarrow> cs_witness_nodes s \<le> cs_total_nodes s))"

lemma cs_new_wf:
  assumes "cs_new X t w pct n seed = Ok s" "n < 2 ^ 57"
  shows "cs_wf s \<and> cs_tie_breaker_nodes s = t \<and> cs_verifier_nodes s = (n - t) * pct div 100
      \<and> cs_total_nodes s = n \<and> cs_witness_nodes s = w \<and> cs_seed s = sha256 X (to_le_bytes 8 seed)"
proof -
  have pct: "pct \<le> 100" and t: "t \<le> n" and s: "s = \<lparr>cs_tie_breaker_nodes = t, cs_verifier_nodes = (n - t) * pct div 100,
      cs_total_nodes = n, cs_witness_nodes = w, cs_seed = sha256 X (to_le_bytes 8 seed)\<rparr>"
      "w \<noteq> 0 \<longrightarrow> w \<le> n"
    using assms(1) by (auto simp: cs_new_def guard_err_def u_sub_def u_mul_def split: if_splits)
  have "(n - t) * pct div 100 \<le> (n - t) * 100 div 100"
    using pct by (intro div_le_mono mult_le_mono2)
  then show ?thesis
    using s t assms(2) by (simp add: cs_wf_def)
qed

lemma cs_new_ok:
  assumes "n < 2 ^ 57"
  shows "(\<exists>s. cs_new X t w pct n seed = Ok s) \<longleftrightarrow> t \<le> n \<and> (w \<noteq> 0 \<longrightarrow> w \<le> n) \<and> pct \<le> 100"
    and "cs_new X t w pct n seed \<noteq> Panic"
proof -
  have "(n - t) * pct < 2 ^ 64" if "pct \<le> 100"
  proof -
    have "(n - t) * pct \<le> n * 100"
      using that by (intro mult_le_mono) auto
    then show ?thesis
      using assms by simp
  qed
  then show "(\<exists>s. cs_new X t w pct n seed = Ok s) \<longleftrightarrow> t \<le> n \<and> (w \<noteq> 0 \<longrightarrow> w \<le> n) \<and> pct \<le> 100"
    and "cs_new X t w pct n seed \<noteq> Panic"
    using assms by (auto simp: cs_new_def guard_err_def u_sub_def u_mul_def)
qed

abbreviation cs_place :: "externs \<Rightarrow> CommitteeSelection \<Rightarrow> string \<Rightarrow> nat \<Rightarrow> nat" where
  "cs_place X s salt \<equiv> son_perm X (sha256v X [cs_seed s, str_bytes salt]) (cs_total_nodes s)"

lemma cs_compute_shuffled_index_eq:
  assumes "cs_wf s"
  shows "cs_compute_shuffled_index X s i salt =
     (if i < cs_total_nodes s then Ok (cs_place X s salt i) else Panic)"
  using assms
  by (simp add: cs_compute_shuffled_index_def cs_wf_def compute_shuffled_index_eq compute_shuffled_index_panic)

definition committee_at :: "CommitteeSelection \<Rightarrow> nat \<Rightarrow> Committee" where
  "committee_at s p = (if p < cs_tie_breaker_nodes s then TieBreaker
     else if p < cs_tie_breaker_nodes s + cs_verifier_nodes s then Verifier else Trainer)"

lemma get_committee_from_position_eq:
  assumes "cs_wf s"
  shows "get_committee_from_position s p = Ok (committee_at s p)"
proof -
  have "cs_tie_breaker_nodes s + cs_verifier_nodes s < 2 ^ 64"
    using assms by (simp add: cs_wf_def)
  then show ?thesis
    by (simp add: get_committee_from_position_def committee_at_def u_add_def)
qed

lemma get_committee_eq:
  "cs_wf s \<Longrightarrow> i < cs_total_nodes s \<Longrightarrow>
   get_committee X s i = Ok \<lparr>cp_committee = committee_at s (cs_place X s COMMITTEE_SALT i),
     cp_position = cs_place X s COMMITTEE_SALT i, cp_index = i\<rparr>"
  by (simp add: get_committee_def cs_compute_shuffled_index_eq get_committee_from_position_eq)

lemma get_witness_eq:
  "cs_wf s \<Longrightarrow> i < cs_total_nodes s \<Longrightarrow>
   get_witness X s i = Ok \<lparr>wp_position = cs_place X s WITNESS_SALT i, wp_index = i,
     wp_witness = sb_new (get_witness_from_position s (cs_place X s WITNESS_SALT i))\<rparr>"
  by (simp add: get_witness_def cs_compute_shuffled_index_eq)

lemma verify_committee_iff:
  "cs_wf s \<Longrightarrow> cp_index pf < cs_total_nodes s \<Longrightarrow>
   verify_committee X s pf = Ok (get_committee X s (cp_index pf) = (Ok pf :: ('e, CommitteeProof) res))"
  by (cases pf)
    (auto simp: verify_committee_def get_committee_eq cs_compute_shuffled_index_eq get_committee_from_position_eq)

lemma verify_witness_iff:
  "cs_wf s \<Longrightarrow> wp_index pf < cs_total_nodes s \<Longrightarrow>
   verify_witness X s pf = Ok (get_witness X s (wp_index pf) = (Ok pf :: ('e, WitnessProof) res))"
  by (cases pf) (auto simp: verify_witness_def get_witness_eq cs_compute_shuffled_index_eq)

lemma committee_at_iff:
  "committee_at s p = TieBreaker \<longleftrightarrow> p < cs_tie_breaker_nodes s"
  "committee_at s p = Verifier \<longleftrightarrow>
     cs_tie_breaker_nodes s \<le> p \<and> p < cs_tie_breaker_nodes s + cs_verifier_nodes s"
  "committee_at s p = Trainer \<longleftrightarrow> cs_tie_breaker_nodes s + cs_verifier_nodes s \<le> p"
  by (auto simp: committee_at_def)

lemma place_window:
  assumes "b \<le> cs_total_nodes s"
  shows "card {i. i < cs_total_nodes s \<and> a \<le> cs_place X s salt i \<and> cs_place X s salt i < b} = b - a"
  using assms by (rule son.card_window)

text \<open>
  (C9) Exact committee sizes. A selection built for \<open>n\<close> clients with \<open>t\<close> tie breakers and a
  verification percentage assigns every client exactly one role, and the roles have exactly \<open>t\<close>,
  \<open>(n - t) * percent / 100\<close> and the remaining number of members, whatever the hash function and the
  seed. The trainer count the selection reports is the real one.
\<close>

theorem committee_sizes:
  fixes X t w pct n seed s
  defines "members r \<equiv> {i. i < n \<and> (\<exists>p. get_committee X s i = (Ok p :: (unit, CommitteeProof) res) \<and> cp_committee p = r)}"
  assumes "cs_new X t w pct n seed = Ok s" "n < 2 ^ 57"
  shows "members TieBreaker \<union> members Verifier \<union> members Trainer = {..<n}
       \<and> card (members TieBreaker) = t
       \<and> card (members Verifier) = (n - t) * pct div 100
       \<and> card (members Trainer) = n - t - (n - t) * pct div 100
       \<and> get_num_trainer_nodes s = (Ok (card (members Trainer)) :: (unit, nat) res)"
proof -
  have wf: "cs_wf s" and f: "cs_tie_breaker_nodes s = t" "cs_verifier_nodes s = (n - t) * pct div 100"
      "cs_total_nodes s = n"
    using cs_new_wf [OF assms(2,3)] by auto
  have sum: "t + (n - t) * pct div 100 \<le> n"
    using wf f by (simp add: cs_wf_def)
  have mem: "members r = {i. i < n \<and> committee_at s (cs_place X s COMMITTEE_SALT i) = r}" for r
    using wf f by (auto simp: members_def get_committee_eq)
  have place: "i < n \<Longrightarrow> cs_place X s COMMITTEE_SALT i < n" for i
    using son.place_less f(3) by metis
  have tb: "card (members TieBreaker) = t"
    using place_window [of t s 0 X COMMITTEE_SALT] f sum by (simp add: mem committee_at_iff)
  have ve: "card (members Verifier) = (n - t) * pct div 100"
    using place_window [of "t + (n - t) * pct div 100" s t X COMMITTEE_SALT] f sum
    by (simp add: mem committee_at_iff)
  have "members Trainer = {i. i < n \<and> t + (n - t) * pct div 100 \<le> cs_place X s COMMITTEE_SALT i
      \<and> cs_place X s COMMITTEE_SALT i < n}"
    using place f by (auto simp: mem committee_at_iff)
  then have tr: "card (members Trainer) = n - t - (n - t) * pct div 100"
    using place_window [of n s "t + (n - t) * pct div 100" X COMMITTEE_SALT] f by simp
  have "members TieBreaker \<union> members Verifier \<union> members Trainer = {..<n}"
    by (auto simp: mem committee_at_def)
  then show ?thesis
    using tb ve tr sum f by (simp add: get_num_trainer_nodes_def u_sub_def le_diff_conv2)
qed

theorem committee_sizes_witness:
  "\<exists>s. cs_new \<lparr>sha256 = (\<lambda>bs. replicate 32 (last bs)), fnv_hash = (\<lambda>k bs. k)\<rparr> 1 0 40 11 5 = Ok s
     \<and> card {i. i < 11 \<and> (\<exists>p. get_committee \<lparr>sha256 = (\<lambda>bs. replicate 32 (last bs)), fnv_hash = (\<lambda>k bs. k)\<rparr> s i
              = (Ok p :: (unit, CommitteeProof) res) \<and> cp_committee p = Verifier)} = 4"
proof -
  obtain s where "cs_new \<lparr>sha256 = (\<lambda>bs. replicate 32 (last bs)), fnv_hash = (\<lambda>k bs. k)\<rparr> 1 0 40 11 5 = Ok s"
    using cs_new_ok(1) [of 11 _ 1 0 40 5] by auto
  then show ?thesis
    using committee_sizes [of _ 1 0 40 11 5 s] by auto
qed

text \<open>
  Exactly the configured number of witnesses: among the \<open>n\<close> clients of a selection the proofs
  that assert witness membership are \<open>witness_nodes\<close> many, or \<open>min n 32\<close> when \<open>witness_nodes\<close> is
  zero, so a round never elects more witnesses than its \<open>FixedVec\<close> of witnesses can store as long as
  the configuration asks for at most 32.
\<close>

theorem witness_count:
  assumes "cs_new X t w pct n seed = Ok s" "n < 2 ^ 57"
  shows "card {i. i < n \<and> (\<exists>p. get_witness X s i = (Ok p :: (unit, WitnessProof) res) \<and> sb_is_true (wp_witness p))}
       = (if w = 0 then min n SOLANA_MAX_NUM_WITNESSES else w)"
proof -
  have wf: "cs_wf s" and f: "cs_total_nodes s = n" "cs_witness_nodes s = w"
    using cs_new_wf [OF assms] by auto
  define b where "b = (if w = 0 then min n SOLANA_MAX_NUM_WITNESSES else w)"
  have b: "b \<le> n"
    using wf f by (simp add: b_def cs_wf_def)
  have place: "i < n \<Longrightarrow> cs_place X s WITNESS_SALT i < n" for i
    using son.place_less f(1) by metis
  have "{i. i < n \<and> (\<exists>p. get_witness X s i = (Ok p :: (unit, WitnessProof) res) \<and> sb_is_true (wp_witness p))}
      = {i. i < n \<and> 0 \<le> cs_place X s WITNESS_SALT i \<and> cs_place X s WITNESS_SALT i < b}"
    using wf f place by (auto simp: get_witness_eq get_witness_from_position_def b_def split: if_splits)
  then show ?thesis
    using place_window [of b s 0 X WITNESS_SALT] b f by (simp add: b_def)
qed

theorem witness_count_witness:
  "\<exists>s. cs_new \<lparr>sha256 = (\<lambda>bs. replicate 32 (last bs)), fnv_hash = (\<lambda>k bs. k)\<rparr> 0 3 0 11 5 = Ok s
     \<and> card {i. i < 11 \<and> (\<exists>p. get_witness \<lparr>sha256 = (\<lambda>bs. replicate 32 (last bs)), fnv_hash = (\<lambda>k bs. k)\<rparr> s i
              = (Ok p :: (unit, WitnessProof) res) \<and> sb_is_true (wp_witness p))} = 3"
proof -
  obtain s where "cs_new \<lparr>sha256 = (\<lambda>bs. replicate 32 (last bs)), fnv_hash = (\<lambda>k bs. k)\<rparr> 0 3 0 11 5 = Ok s"
    using cs_new_ok(1) [of 11 _ 0 3 0 5] by auto
  then show ?thesis
    using witness_count [of _ 0 3 0 11 5 s] by auto
qed

text \<open>
  (C10) Verification is sound and complete: a committee proof (or a witness proof) passes for a client
  exactly when the client at the proof's index has that identity and the proof is the one the
  selection computes for that index. A forged role, position, index or flag never passes, the honest
  proof always does, and verification returns on every proof as long as no client lies beyond the
  selection.
\<close>

theorem verification_sound_complete:
  assumes "cs_new X t w pct n seed = Ok s" "n < 2 ^ 57" "length clients \<le> n"
  shows "verify_committee_for_client X s i p clients = (Ok (\<exists>c. slice_get clients (cp_index p) = Some c
            \<and> signer (client_id c) = signer i \<and> get_committee X s (cp_index p) = (Ok p :: (unit, CommitteeProof) res)) :: (unit, bool) res)
       \<and> verify_witness_for_client X s i q clients = (Ok (\<exists>c. slice_get clients (wp_index q) = Some c
            \<and> signer (client_id c) = signer i \<and> get_witness X s (wp_index q) = (Ok q :: (unit, WitnessProof) res)) :: (unit, bool) res)"
proof -
  have wf: "cs_wf s" and f: "cs_total_nodes s = n"
    using cs_new_wf [OF assms(1,2)] by auto
  have idx: "k < length clients \<Longrightarrow> k < cs_total_nodes s" for k
    using assms(3) f by simp
  note facts = verify_client_def node_eq_def idx wf slice_get_def
    verify_committee_iff [where 'e = unit] verify_witness_iff [where 'e = unit]
  have "verify_committee_for_client X s i p clients = (Ok (\<exists>c. slice_get clients (cp_index p) = Some c
            \<and> signer (client_id c) = signer i \<and> get_committee X s (cp_index p) = (Ok p :: (unit, CommitteeProof) res)) :: (unit, bool) res)"
    by (cases "cp_index p < length clients") (simp_all add: verify_committee_for_client_def facts)
  moreover have "verify_witness_for_client X s i q clients = (Ok (\<exists>c. slice_get clients (wp_index q) = Some c
            \<and> signer (client_id c) = signer i \<and> get_witness X s (wp_index q) = (Ok q :: (unit, WitnessProof) res)) :: (unit, bool) res)"
    by (cases "wp_index q < length clients") (simp_all add: verify_witness_for_client_def facts)
  ultimately show ?thesis by blast
qed

theorem verification_sound_complete_witness:
  "\<exists>X s p. cs_new X 0 0 40 1 5 = Ok s
     \<and> verify_committee_for_client X s \<lparr>signer = [1], p2p_identity = []\<rparr> p
         [client_new \<lparr>signer = [1], p2p_identity = []\<rparr>] = (Ok True :: (unit, bool) res)"
proof -
  let ?X = "\<lparr>sha256 = (\<lambda>bs. replicate 32 (last bs)), fnv_hash = (\<lambda>k bs. k)\<rparr>"
  obtain s where s: "cs_new ?X 0 0 40 1 5 = Ok s"
    using cs_new_ok(1) [of 1 ?X 0 0 40 5] by auto
  then have "cs_wf s" "cs_total_nodes s = 1"
    using cs_new_wf [OF s] by auto
  then obtain p where p: "get_committee ?X s 0 = (Ok p :: (unit, CommitteeProof) res)" "cp_index p = 0"
    by (simp add: get_committee_eq)
  then have "verify_committee_for_client ?X s \<lparr>signer = [1], p2p_identity = []\<rparr> p
         [client_new \<lparr>signer = [1], p2p_identity = []\<rparr>] = (Ok True :: (unit, bool) res)"
    using verification_sound_complete [OF s, of "[client_new \<lparr>signer = [1], p2p_identity = []\<rparr>]"
        "\<lparr>signer = [1], p2p_identity = []\<rparr>" p undefined]
    by (auto simp: slice_get_def client_new_def)
  then show ?thesis
    using s by blast
qed

end
