(* ===== verification/Coordinator.thy ===== *)
theory Coordinator
  imports Committee_Selection
begin

text \<open>
  The coordinator state machine (shared/coordinator/src/coordinator.rs). An operation that takes
  \<open>&mut self\<close> returns the new coordinator; \<open>Err\<close> carries no state because every error of the source
  is returned before anything is written. \<open>Panic\<close> is a failed assertion, \<open>unwrap\<close> or index, or an
  overflow of an integer operation, which aborts the transaction on chain.
\<close>

section \<open>Configuration\<close>

datatype ConfigError =
    EpochTime | WarmupTime | MaxRoundTrainTime | RoundWitnessTime | MinClients | InitMinClients
  | GlobalBatchSize | TotalSteps | WitnessNodes | CooldownTime | WaitingForMembersExtraTime

definition check_error :: "CoordinatorConfig \<Rightarrow> (ConfigError, unit) res" where
  "check_error cfg =
     rbind (guard_err (cc_epoch_time cfg = 0) EpochTime) (\<lambda>_.
     rbind (guard_err (cc_epoch_time cfg \<le> cc_warmup_time cfg) WarmupTime) (\<lambda>_.
     rbind (guard_err (cc_max_round_train_time cfg = 0
                       \<or> cc_epoch_time cfg \<le> cc_max_round_train_time cfg) MaxRoundTrainTime) (\<lambda>_.
     rbind (guard_err (cc_round_witness_time cfg = 0) RoundWitnessTime) (\<lambda>_.
     rbind (guard_err (cc_min_clients cfg = 0) MinClients) (\<lambda>_.
     rbind (guard_err (cc_init_min_clients cfg < cc_min_clients cfg
                       \<or> SOLANA_MAX_NUM_CLIENTS < cc_init_min_clients cfg) InitMinClients) (\<lambda>_.
     rbind (guard_err (cc_global_batch_size_start cfg = 0 \<or> cc_global_batch_size_end cfg = 0
                       \<or> cc_global_batch_size_end cfg < cc_global_batch_size_start cfg) GlobalBatchSize) (\<lambda>_.
     rbind (guard_err (cc_total_steps cfg = 0) TotalSteps) (\<lambda>_.
     rbind (guard_err (cc_min_clients cfg < cc_witness_nodes cfg
                       \<or> SOLANA_MAX_NUM_WITNESSES < cc_witness_nodes cfg) WitnessNodes) (\<lambda>_.
     rbind (guard_err (cc_cooldown_time cfg = 0) CooldownTime) (\<lambda>_.
       guard_err (cc_waiting_for_members_extra_time cfg = 0) WaitingForMembersExtraTime))))))))))"

definition config_check :: "CoordinatorConfig \<Rightarrow> bool" where
  "config_check cfg = (check_error cfg = Ok ())"

definition get_batch_size :: "CoordinatorConfig \<Rightarrow> nat \<Rightarrow> nat" where
  "get_batch_size cfg total_tokens_processed =
     (if cc_global_batch_size_warmup_tokens cfg \<le> total_tokens_processed then cc_global_batch_size_end cfg
      else let progress = f64_div (u_as_f64 total_tokens_processed)
                            (u_as_f64 (cc_global_batch_size_warmup_tokens cfg));
               start = u_as_f64 (cc_global_batch_size_start cfg);
               end' = u_as_f64 (cc_global_batch_size_end cfg)
           in f64_as_u16 (f64_half_away (f64_add start (f64_mul (f64_sub end' start) progress))))"

definition progress_check :: "CoordinatorProgress \<Rightarrow> bool" where
  "progress_check p = (0 < pr_step p)"

definition WITNESS_QUORUM_RAIO :: rat where
  "WITNESS_QUORUM_RAIO = f64_div 2 3"

definition witness_quorum :: "CoordinatorConfig \<Rightarrow> nat \<Rightarrow> ('e, nat) res" where
  "witness_quorum cfg num_witnesses =
     (let witness_nodes = (if cc_witness_nodes cfg = 0 then num_witnesses else cc_witness_nodes cfg) in
      if witness_nodes = 0 then Panic
      else if witness_nodes = 1 then Ok 1
      else if witness_nodes = 2 then Ok 2
      else if witness_nodes = 3 then Ok 2
      else Ok (max (f64_as_u16 (f64_mul (u_as_f64 witness_nodes) WITNESS_QUORUM_RAIO)) 1))"

section \<open>Rounds and clients\<close>

definition active :: "Coordinator \<Rightarrow> bool" where
  "active c = (c_run_state c \<notin> {WaitingForMembers, Warmup, Uninitialized, Finished, Paused})"

definition halted :: "Coordinator \<Rightarrow> bool" where
  "halted c = (c_run_state c \<in> {Uninitialized, Finished, Paused})"

definition current_round :: "Coordinator \<Rightarrow> Round option" where
  "current_round c = slice_get (es_rounds (c_epoch_state c)) (es_rounds_head (c_epoch_state c))"

definition current_round_unchecked :: "Coordinator \<Rightarrow> ('e, Round) res" where
  "current_round_unchecked c = slice_index (es_rounds (c_epoch_state c)) (es_rounds_head (c_epoch_state c))"

text \<open>A write through \<open>current_round_mut_unchecked\<close>.\<close>

definition set_epoch_state :: "(CoordinatorEpochState \<Rightarrow> CoordinatorEpochState) \<Rightarrow> Coordinator \<Rightarrow> Coordinator" where
  "set_epoch_state f c = c\<lparr>c_epoch_state := f (c_epoch_state c)\<rparr>"

definition current_round_mut_unchecked :: "Coordinator \<Rightarrow> (Round \<Rightarrow> Round) \<Rightarrow> ('e, Coordinator) res" where
  "current_round_mut_unchecked c f =
     (let es = c_epoch_state c in
      rbind (slice_index (es_rounds es) (es_rounds_head es)) (\<lambda>r.
        Ok (set_epoch_state (\<lambda>es. es\<lparr>es_rounds := (es_rounds es)[es_rounds_head es := f r]\<rparr>) c)))"

definition previous_round :: "Coordinator \<Rightarrow> Round option" where
  "previous_round c =
     (let es = c_epoch_state c in
      case current_round c of
        Some r \<Rightarrow>
          if es_rounds_head es = 0 \<and> rd_height r = 0 then None
          else if es_rounds_head es = 0 then Some (es_rounds es ! (NUM_STORED_ROUNDS - 1))
          else Some (es_rounds es ! (es_rounds_head es - 1))
      | None \<Rightarrow> None)"

definition previous_previous_round :: "Coordinator \<Rightarrow> Round option" where
  "previous_previous_round c =
     (let es = c_epoch_state c in
      case current_round c of
        Some r \<Rightarrow>
          if es_rounds_head es = 0 \<and> rd_height r \<le> 1 then None
          else if es_rounds_head es = 0 then Some (es_rounds es ! (NUM_STORED_ROUNDS - 2))
          else if es_rounds_head es = 1 then Some (es_rounds es ! (NUM_STORED_ROUNDS - 1))
          else Some (es_rounds es ! (es_rounds_head es - 2))
      | None \<Rightarrow> None)"

definition get_client_at_historical_index :: "Coordinator \<Rightarrow> nat \<Rightarrow> nat \<Rightarrow> Client option" where
  "get_client_at_historical_index c n prev_clients_len =
     (let es = c_epoch_state c in
      if n < length (es_clients es) then Some (es_clients es ! n)
      else if n < prev_clients_len then slice_get (rev (es_exited_clients es)) (prev_clients_len - n - 1)
      else None)"

definition get_historical_clients :: "Coordinator \<Rightarrow> nat \<Rightarrow> Client list" where
  "get_historical_clients c clients_len =
     List.map_filter (\<lambda>i. get_client_at_historical_index c i clients_len) [0..<clients_len]"

definition get_sequence_length :: "Coordinator \<Rightarrow> nat" where
  "get_sequence_length c = max_seq_len (model_llm (c_model c))"

definition total_tokens_processed :: "Coordinator \<Rightarrow> Round option \<Rightarrow> ('e, nat) res" where
  "total_tokens_processed c rnd =
     (let start = (case rnd of Some r \<Rightarrow> rd_data_index r | None \<Rightarrow> pr_epoch_start_data_index (c_progress c))
      in u_mul 64 start (get_sequence_length c))"

definition get_target_global_batch_size :: "Coordinator \<Rightarrow> Round option \<Rightarrow> ('e, nat) res" where
  "get_target_global_batch_size c rnd =
     rbind (total_tokens_processed c rnd) (\<lambda>t. Ok (get_batch_size (c_config c) t))"

definition get_cold_start_warmup_bounds :: "Coordinator \<Rightarrow> ('e, (nat \<times> nat) option) res" where
  "get_cold_start_warmup_bounds c =
     (let steps = cold_start_warmup_steps (model_llm (c_model c)); es = c_epoch_state c in
      if sb_is_false (es_cold_start_epoch es) \<or> steps = 0 then Ok None
      else rbind (u_add 32 (es_start_step es) steps) (\<lambda>e. Ok (Some (es_start_step es, e))))"

definition check_cold_start_warmup_steps :: "Coordinator \<Rightarrow> ('e, bool) res" where
  "check_cold_start_warmup_steps c =
     (let steps = cold_start_warmup_steps (model_llm (c_model c)); cfg = c_config c in
      if steps = 0 then Ok True
      else rbind (u_sub (cc_epoch_time cfg) (cc_warmup_time cfg)) (\<lambda>training_time.
           rbind (u_div training_time (cc_max_round_train_time cfg)) (\<lambda>rounds.
             Ok (\<not> rounds < steps))))"

section \<open>Committees of a round\<close>

definition round_at_offset :: "Coordinator \<Rightarrow> int \<Rightarrow> (CoordinatorError, Round) res" where
  "round_at_offset c offset =
     (if offset = -2 then ok_or NoActiveRound (previous_previous_round c)
      else if offset = -1 then ok_or NoActiveRound (previous_round c)
      else if offset = 0 then ok_or NoActiveRound (current_round c)
      else Err NoActiveRound)"

definition cs_from_coordinator :: "externs \<Rightarrow> Coordinator \<Rightarrow> int \<Rightarrow> (CoordinatorError, CommitteeSelection) res" where
  "cs_from_coordinator X c offset =
     rbind (round_at_offset c offset) (\<lambda>r.
       cs_new X (rd_tie_breaker_tasks r) (cc_witness_nodes (c_config c))
         (cc_verification_percent (c_config c)) (rd_clients_len r) (rd_random_seed r))"

definition cs_from_coordinator_with_tie_breakers ::
  "externs \<Rightarrow> Coordinator \<Rightarrow> int \<Rightarrow> nat \<Rightarrow> (CoordinatorError, CommitteeSelection) res" where
  "cs_from_coordinator_with_tie_breakers X c offset tie_breaker_nodes =
     rbind (round_at_offset c offset) (\<lambda>r.
       cs_new X tie_breaker_nodes (cc_witness_nodes (c_config c))
         (cc_verification_percent (c_config c)) (rd_clients_len r) (rd_random_seed r))"

section \<open>State changes\<close>

definition check_timeout :: "Coordinator \<Rightarrow> nat \<Rightarrow> nat \<Rightarrow> ('e, bool) res" where
  "check_timeout c unix_timestamp duration =
     (if c_run_state_start_unix_timestamp c \<noteq> unix_timestamp
      then rbind (u_add 64 duration (c_run_state_start_unix_timestamp c)) (\<lambda>t. Ok (t \<le> unix_timestamp))
      else Ok False)"

definition check_epoch_timeout :: "Coordinator \<Rightarrow> nat \<Rightarrow> ('e, bool) res" where
  "check_epoch_timeout c unix_timestamp =
     (if es_start_timestamp (c_epoch_state c) \<noteq> unix_timestamp
      then rbind (u_add 64 (es_start_timestamp (c_epoch_state c)) (cc_epoch_time (c_config c)))
             (\<lambda>t. Ok (t \<le> unix_timestamp))
      else Ok False)"

definition last_step_set :: "CoordinatorEpochState \<Rightarrow> bool" where
  "last_step_set es = (es_last_step es \<noteq> 0)"

definition change_state :: "nat \<Rightarrow> RunState \<Rightarrow> Coordinator \<Rightarrow> ('e, Coordinator) res" where
  "change_state unix_timestamp new_state c =
     rbind (assert_ok (c_run_state c \<noteq> new_state)) (\<lambda>_.
       Ok (c\<lparr>c_run_state_start_unix_timestamp := unix_timestamp, c_run_state := new_state\<rparr>))"

definition start_waiting_for_members :: "nat \<Rightarrow> Coordinator \<Rightarrow> ('e, Coordinator) res" where
  "start_waiting_for_members unix_timestamp c =
     change_state unix_timestamp
       (if pr_step (c_progress c) < cc_total_steps (c_config c) then WaitingForMembers else Finished) c"

definition start_warmup :: "nat \<Rightarrow> Coordinator \<Rightarrow> ('e, Coordinator) res" where
  "start_warmup unix_timestamp c = change_state unix_timestamp Warmup c"

definition start_cooldown :: "nat \<Rightarrow> Coordinator \<Rightarrow> ('e, Coordinator) res" where
  "start_cooldown unix_timestamp c =
     rbind (current_round_mut_unchecked c (\<lambda>r. r\<lparr>rd_witnesses := []\<rparr>)) (change_state unix_timestamp Cooldown)"

definition next_round_position :: "Coordinator \<Rightarrow> ('e, nat \<times> nat \<times> nat) res" where
  "next_round_position c =
     (let es = c_epoch_state c in
      if sb_is_true (es_first_round es) then Ok (0, 0, pr_epoch_start_data_index (c_progress c))
      else rbind (slice_index (es_rounds es) (es_rounds_head es)) (\<lambda>prev.
           rbind (u_mul 64 (rd_data_index prev) (get_sequence_length c)) (\<lambda>tokens.
           rbind (u_add 32 (es_rounds_head es) 1) (\<lambda>h.
           rbind (u_rem h (length (es_rounds es))) (\<lambda>head.
           rbind (u_add 32 (rd_height prev) 1) (\<lambda>height.
           rbind (u_add 64 (rd_data_index prev) (get_batch_size (c_config c) tokens)) (\<lambda>data_index.
             Ok (head, height, data_index))))))))"

definition start_round_train :: "nat \<Rightarrow> nat \<Rightarrow> nat \<Rightarrow> Coordinator \<Rightarrow> ('e, Coordinator) res" where
  "start_round_train unix_timestamp random_seed tie_breaker_tasks c =
     rbind (next_round_position c) (\<lambda>(head, height, data_index).
     rbind (slice_index (es_rounds (c_epoch_state c)) head) (\<lambda>r.
       let r' = r\<lparr>rd_clients_len := u_cast 16 (length (es_clients (c_epoch_state c))), rd_height := height,
                  rd_data_index := data_index, rd_tie_breaker_tasks := tie_breaker_tasks,
                  rd_random_seed := random_seed, rd_witnesses := []\<rparr>
       in change_state unix_timestamp RoundTrain
            (set_epoch_state (\<lambda>es. es\<lparr>es_rounds_head := head, es_rounds := (es_rounds es)[head := r']\<rparr>) c)))"

text \<open>
  \<open>retain\<close> with a closure that pushes the unhealthy clients to \<open>exited_clients\<close> and stamps the height
  on the one just pushed.
\<close>

definition exit_client :: "nat \<Rightarrow> Client list \<Rightarrow> Client \<Rightarrow> ('e, bool \<times> Client list) res" where
  "exit_client height exited x =
     (if client_state x \<noteq> Healthy
      then rbind (expect_ok (vec_push SOLANA_MAX_NUM_CLIENTS exited x)) (\<lambda>exited'.
             Ok (False, butlast exited' @ [last exited'\<lparr>exited_height := height\<rparr>]))
      else Ok (True, exited))"

definition move_clients_to_exited :: "nat \<Rightarrow> Coordinator \<Rightarrow> ('e, Coordinator) res" where
  "move_clients_to_exited height c =
     rbind (retain_list (exit_client height) (es_exited_clients (c_epoch_state c)) (es_clients (c_epoch_state c)))
       (\<lambda>(exited, clients).
          Ok (set_epoch_state (\<lambda>es. es\<lparr>es_exited_clients := exited, es_clients := clients\<rparr>) c))"

section \<open>Membership\<close>

definition set_client_state :: "nat \<Rightarrow> ClientState \<Rightarrow> Coordinator \<Rightarrow> Coordinator" where
  "set_client_state i st c =
     set_epoch_state (\<lambda>es. es\<lparr>es_clients := update_at i (\<lambda>x. x\<lparr>client_state := st\<rparr>) (es_clients es)\<rparr>) c"

definition withdraw :: "nat \<Rightarrow> Coordinator \<Rightarrow> (CoordinatorError, Coordinator) res" where
  "withdraw index c =
     (case slice_get (es_clients (c_epoch_state c)) index of
        Some client \<Rightarrow>
          if client_state client = Healthy then Ok (set_client_state index Withdrawn c) else Err InvalidWithdraw
      | None \<Rightarrow> Err InvalidWithdraw)"

text \<open>\<open>withdraw_all\<close> ignores the error of a client that already left.\<close>

definition withdraw_ignoring :: "nat \<Rightarrow> Coordinator \<Rightarrow> Coordinator" where
  "withdraw_ignoring i c = (case withdraw i c of Ok c' \<Rightarrow> c' | _ \<Rightarrow> c)"

definition withdraw_all :: "Coordinator \<Rightarrow> Coordinator" where
  "withdraw_all c = fold withdraw_ignoring [0..<length (es_clients (c_epoch_state c))] c"

definition eject :: "nat \<Rightarrow> Coordinator \<Rightarrow> (CoordinatorError, Coordinator) res" where
  "eject index c =
     (case slice_get (es_clients (c_epoch_state c)) index of
        Some client \<Rightarrow>
          if client_state client = Healthy \<or> client_state client = Dropped
          then Ok (set_client_state index Ejected c) else Err InvalidSlash
      | None \<Rightarrow> Err InvalidSlash)"

definition pause :: "nat \<Rightarrow> Coordinator \<Rightarrow> (CoordinatorError, Coordinator) res" where
  "pause unix_timestamp c =
     (if \<not> halted c then
        if active c then Ok (c\<lparr>c_pending_pause := sb_new True\<rparr>)
        else rbind (change_state unix_timestamp Paused (withdraw_all c)) (\<lambda>c'.
               Ok (set_epoch_state (\<lambda>es. es\<lparr>es_cold_start_epoch := sb_new True\<rparr>) c'))
      else Err Halted)"

definition resume :: "nat \<Rightarrow> Coordinator \<Rightarrow> (CoordinatorError, Coordinator) res" where
  "resume unix_timestamp c =
     rbind (guard_err (c_run_state c \<noteq> Paused) CannotResume) (\<lambda>_. start_waiting_for_members unix_timestamp c)"

section \<open>Checkpoints\<close>

definition set_checkpoint :: "Checkpoint \<Rightarrow> Coordinator \<Rightarrow> Coordinator" where
  "set_checkpoint ck c = c\<lparr>c_model := Model_LLM ((model_llm (c_model c))\<lparr>checkpoint := ck\<rparr>)\<rparr>"

definition merge_checkpoint :: "Checkpoint \<Rightarrow> Checkpoint \<Rightarrow> Checkpoint" where
  "merge_checkpoint current repo = (case (current, repo) of
       (P2P _, Hub r) \<Rightarrow> P2P r
     | (P2PGcs _, Gcs g) \<Rightarrow> P2PGcs g
     | (Hub _, Hub r) \<Rightarrow> Hub r
     | (Gcs _, Gcs g) \<Rightarrow> Gcs g
     | (P2PGcs _, Hub r) \<Rightarrow> P2P r
     | (P2P _, Gcs g) \<Rightarrow> P2PGcs g
     | _ \<Rightarrow> current)"

definition record_checkpoint ::
  "NodeIdentity \<Rightarrow> nat \<Rightarrow> Checkpoint \<Rightarrow> Coordinator \<Rightarrow> (CoordinatorError, Coordinator) res" where
  "record_checkpoint from index repo c =
     (case slice_get (es_clients (c_epoch_state c)) index of
        Some client \<Rightarrow>
          if node_eq (client_id client) from
          then Ok (set_checkpoint (merge_checkpoint (checkpoint (model_llm (c_model c))) repo) c)
          else Err InvalidCommitteeProof
      | None \<Rightarrow> Err InvalidCommitteeProof)"

section \<open>Witnesses\<close>

definition expected_witnesses :: "Coordinator \<Rightarrow> nat" where
  "expected_witnesses c =
     (if cc_witness_nodes (c_config c) = 0
      then min (length (es_clients (c_epoch_state c))) SOLANA_MAX_NUM_WITNESSES
      else cc_witness_nodes (c_config c))"

text \<open>
  The loop that looks for an earlier witness of the sender: it indexes the client list with the index
  stored in each witness.
\<close>

primrec check_duplicate_witness ::
  "Client list \<Rightarrow> NodeIdentity \<Rightarrow> Witness list \<Rightarrow> (CoordinatorError, unit) res" where
  "check_duplicate_witness clients from [] = Ok ()"
| "check_duplicate_witness clients from (w # ws) =
     rbind (slice_index clients (wp_index (wt_proof w))) (\<lambda>client.
     rbind (guard_err (node_eq (client_id client) from) DuplicateWitness) (\<lambda>_.
       check_duplicate_witness clients from ws))"

text \<open>The part the two witness handlers share: duplicate check, then push.\<close>

definition store_witness :: "NodeIdentity \<Rightarrow> Witness \<Rightarrow> Coordinator \<Rightarrow> (CoordinatorError, Coordinator \<times> nat) res" where
  "store_witness from w c =
     rbind (unwrap (current_round c)) (\<lambda>r.
     rbind (check_duplicate_witness (es_clients (c_epoch_state c)) from (rd_witnesses r)) (\<lambda>_.
     rbind (map_err (\<lambda>_. WitnessesFull) (vec_push SOLANA_MAX_NUM_WITNESSES (rd_witnesses r) w)) (\<lambda>ws.
     rbind (current_round_mut_unchecked c (\<lambda>r. r\<lparr>rd_witnesses := ws\<rparr>)) (\<lambda>c'. Ok (c', length ws)))))"

definition warmup_witness ::
  "NodeIdentity \<Rightarrow> Witness \<Rightarrow> nat \<Rightarrow> nat \<Rightarrow> Coordinator \<Rightarrow> (CoordinatorError, Coordinator) res" where
  "warmup_witness from w unix_timestamp random_seed c =
     (if halted c then Err Halted
      else if c_run_state c = RoundTrain then Ok c
      else if c_run_state c \<noteq> Warmup then Err InvalidRunState
      else if \<not> verify_client from (wp_index (wt_proof w)) (es_clients (c_epoch_state c))
      then Err InvalidCommitteeProof
      else rbind (store_witness from w c) (\<lambda>(c', n).
             if n = expected_witnesses c then start_round_train unix_timestamp random_seed 0 c' else Ok c'))"

definition submit_witness ::
  "externs \<Rightarrow> NodeIdentity \<Rightarrow> Witness \<Rightarrow> nat \<Rightarrow> Coordinator \<Rightarrow> (CoordinatorError, Coordinator) res" where
  "submit_witness X from w unix_timestamp c =
     (if halted c then Err Halted
      else if c_run_state c \<notin> {RoundWitness, RoundTrain} then Err InvalidRunState
      else rbind (cs_from_coordinator X c 0) (\<lambda>sel.
           rbind (verify_witness_for_client X sel from (wt_proof w) (es_clients (c_epoch_state c))) (\<lambda>valid.
           rbind (guard_err (\<not> valid \<or> sb_is_false (wp_witness (wt_proof w))) InvalidWitness) (\<lambda>_.
           rbind (store_witness from w c) (\<lambda>(c', n).
             if n = expected_witnesses c \<and> c_run_state c \<noteq> RoundWitness
             then change_state unix_timestamp RoundWitness c' else Ok c')))))"

section \<open>Health\<close>

primrec score_by_witnesses :: "externs \<Rightarrow> bytes \<Rightarrow> Witness list \<Rightarrow> nat \<Rightarrow> ('e, nat) res" where
  "score_by_witnesses X hash [] score = Ok score"
| "score_by_witnesses X hash (w # ws) score =
     (if bloom_contains X (wt_participant_bloom w) hash
      then rbind (u_add 16 score 1) (score_by_witnesses X hash ws)
      else score_by_witnesses X hash ws score)"

definition trainer_healthy_score_by_witnesses :: "externs \<Rightarrow> NodeIdentity \<Rightarrow> Witness list \<Rightarrow> ('e, nat) res" where
  "trainer_healthy_score_by_witnesses X i ws = score_by_witnesses X (sha256 X (signer i)) ws 0"

definition trainer_healthy :: "externs \<Rightarrow> NodeIdentity \<Rightarrow> Coordinator \<Rightarrow> (CoordinatorError, bool) res" where
  "trainer_healthy X i c =
     rbind (ok_or NoActiveRound (previous_round c)) (\<lambda>r.
     rbind (trainer_healthy_score_by_witnesses X i (rd_witnesses r)) (\<lambda>score.
     rbind (witness_quorum (c_config c) (u_cast 16 (length (rd_witnesses r)))) (\<lambda>q. Ok (q \<le> score))))"

definition healthy :: "externs \<Rightarrow> NodeIdentity \<Rightarrow> CommitteeProof \<Rightarrow> Coordinator \<Rightarrow> (CoordinatorError, bool) res" where
  "healthy X i pf c =
     rbind (ok_or NoActiveRound (previous_round c)) (\<lambda>r.
       if cp_index pf < rd_clients_len r then
         rbind (ok_or InvalidCommitteeProof
                  (get_client_at_historical_index c (cp_index pf) (rd_clients_len r))) (\<lambda>client.
         rbind (cs_from_coordinator X c (-1)) (\<lambda>sel.
         rbind (if \<not> node_eq (client_id client) i then Ok False
                else verify_committee_for_client X sel (client_id client) pf (es_clients (c_epoch_state c))) (\<lambda>valid.
         rbind (guard_err (\<not> valid) InvalidCommitteeProof) (\<lambda>_.
           case cp_committee pf of
             TieBreaker \<Rightarrow> Ok True
           | Verifier \<Rightarrow> Ok True
           | Trainer \<Rightarrow> trainer_healthy X (client_id client) c))))
       else Err InvalidCommitteeProof)"

primrec all_unhealthy :: "externs \<Rightarrow> HealthChecks \<Rightarrow> Coordinator \<Rightarrow> (CoordinatorError, unit) res" where
  "all_unhealthy X [] c = Ok ()"
| "all_unhealthy X (ch # checks) c =
     rbind (healthy X (fst ch) (snd ch) c) (\<lambda>h.
     rbind (guard_err h InvalidHealthCheck) (\<lambda>_. all_unhealthy X checks c))"

primrec drop_clients :: "HealthChecks \<Rightarrow> Coordinator \<Rightarrow> nat \<Rightarrow> ('e, Coordinator \<times> nat) res" where
  "drop_clients [] c dropped = Ok (c, dropped)"
| "drop_clients (ch # checks) c dropped =
     (let index = cp_index (snd ch) in
      rbind (slice_index (es_clients (c_epoch_state c)) index) (\<lambda>client.
        if client_state client = Healthy
        then rbind (u_add 32 dropped 1) (drop_clients checks (set_client_state index Dropped c))
        else drop_clients checks c dropped))"

definition health_check :: "externs \<Rightarrow> HealthChecks \<Rightarrow> Coordinator \<Rightarrow> (CoordinatorError, Coordinator \<times> nat) res" where
  "health_check X checks c =
     (if halted c then Err Halted
      else rbind (ok_or NoActiveRound (current_round c)) (\<lambda>r.
           rbind (guard_err (rd_height r < 2) InvalidHealthCheck) (\<lambda>_.
           rbind (all_unhealthy X checks c) (\<lambda>_. drop_clients checks c 0))))"

section \<open>Consensus on a commitment\<close>

primrec score_commitments :: "externs \<Rightarrow> Commitment list \<Rightarrow> Witness list \<Rightarrow> nat list \<Rightarrow> ('e, nat list) res" where
  "score_commitments X cms [] scores = Ok scores"
| "score_commitments X cms (w # ws) scores =
     (case find_position (\<lambda>cm. bloom_contains X (wt_broadcast_bloom w) (cm_data_hash cm)) cms of
        Some i \<Rightarrow> rbind (u_add 16 (scores ! i) 1) (\<lambda>v. score_commitments X cms ws (scores[i := v]))
      | None \<Rightarrow> score_commitments X cms ws scores)"

text \<open>\<open>Iterator::max_by_key\<close> keeps the last of the equal maxima.\<close>

definition max_by_key_snd :: "(nat \<times> nat) list \<Rightarrow> (nat \<times> nat) option" where
  "max_by_key_snd xs =
     fold (\<lambda>x best. case best of None \<Rightarrow> Some x | Some b \<Rightarrow> if snd b \<le> snd x then Some x else Some b) xs None"

definition select_consensus_commitment_by_witnesses ::
  "externs \<Rightarrow> Commitment list \<Rightarrow> Witness list \<Rightarrow> nat \<Rightarrow> ('e, nat option) res" where
  "select_consensus_commitment_by_witnesses X cms ws quorum =
     rbind (score_commitments X cms ws (replicate (length cms) 0)) (\<lambda>scores.
       Ok (map_option fst (max_by_key_snd (filter (\<lambda>(_, score). quorum \<le> score) (enumerate 0 scores)))))"

section \<open>Ticks\<close>

text \<open>\<open>bytemuck::write_zeroes\<close> on the epoch state.\<close>

definition EpochState_zeroed :: CoordinatorEpochState where
  "EpochState_zeroed = EpochState_default\<lparr>es_first_round := 0, es_cold_start_epoch := 0\<rparr>"

definition downgrade_checkpoint :: "Checkpoint \<Rightarrow> Checkpoint" where
  "downgrade_checkpoint ck = (case ck of P2P r \<Rightarrow> Hub r | P2PGcs g \<Rightarrow> Gcs g | _ \<Rightarrow> ck)"

definition upgrade_checkpoint :: "Checkpoint \<Rightarrow> Checkpoint" where
  "upgrade_checkpoint ck = (case ck of Hub r \<Rightarrow> P2P r | CkDummy r \<Rightarrow> P2P r | Gcs g \<Rightarrow> P2PGcs g | _ \<Rightarrow> ck)"

definition begin_epoch :: "NodeIdentity list \<Rightarrow> nat \<Rightarrow> Coordinator \<Rightarrow> (CoordinatorError, Coordinator) res" where
  "begin_epoch pending unix_timestamp c =
     rbind (current_round_unchecked c) (\<lambda>r.
     rbind (move_clients_to_exited (rd_height r) c) (\<lambda>c1.
       let all_prev_clients_disconnected =
             \<not> list_ex (\<lambda>client. list_ex (node_eq (client_id client)) pending) (es_clients (c_epoch_state c1));
           c2 = (if all_prev_clients_disconnected
                 then set_checkpoint (downgrade_checkpoint (checkpoint (model_llm (c_model c1)))) c1 else c1);
           cold = es_cold_start_epoch (c_epoch_state c2);
           c3 = c2\<lparr>c_epoch_state := EpochState_zeroed\<lparr>es_first_round := sb_new True, es_cold_start_epoch := cold,
                     es_start_step := pr_step (c_progress c2), es_start_timestamp := unix_timestamp\<rparr>\<rparr>
       in rbind (expect_ok (vec_extend (vec_push SOLANA_MAX_NUM_CLIENTS) (es_clients (c_epoch_state c3))
                   (map client_new (take SOLANA_MAX_NUM_CLIENTS pending)))) (\<lambda>clients.
            start_warmup unix_timestamp (set_epoch_state (\<lambda>es. es\<lparr>es_clients := clients\<rparr>) c3))))"

definition tick_waiting_for_members ::
  "NodeIdentity list option \<Rightarrow> nat \<Rightarrow> Coordinator \<Rightarrow> (CoordinatorError, Coordinator \<times> TickResult) res" where
  "tick_waiting_for_members pending_clients unix_timestamp c =
     (case pending_clients of
        None \<Rightarrow> Ok (c, Ticked)
      | Some pending \<Rightarrow>
          rbind (if cc_init_min_clients (c_config c) \<le> u_cast 16 (length pending)
                 then check_timeout c unix_timestamp (cc_waiting_for_members_extra_time (c_config c))
                 else Ok False) (\<lambda>ready.
            if ready then rbind (begin_epoch pending unix_timestamp c) (\<lambda>c'. Ok (c', Ticked))
            else Ok (c, Ticked)))"

definition tick_warmup :: "nat \<Rightarrow> nat \<Rightarrow> Coordinator \<Rightarrow> (CoordinatorError, Coordinator \<times> TickResult) res" where
  "tick_warmup unix_timestamp random_seed c =
     rbind (check_timeout c unix_timestamp (cc_warmup_time (c_config c))) (\<lambda>expired.
     rbind (if expired then start_round_train unix_timestamp random_seed 0 c
            else move_clients_to_exited 0 c) (\<lambda>c'.
       if u_cast 16 (length (es_clients (c_epoch_state c'))) < cc_min_clients (c_config c')
       then rbind (start_waiting_for_members unix_timestamp c') (\<lambda>c''. Ok (c'', EpochEnd False))
       else Ok (c', Ticked)))"

definition tick_round_train :: "nat \<Rightarrow> Coordinator \<Rightarrow> (CoordinatorError, Coordinator \<times> TickResult) res" where
  "tick_round_train unix_timestamp c =
     rbind (check_timeout c unix_timestamp (cc_max_round_train_time (c_config c))) (\<lambda>expired.
       if expired then rbind (change_state unix_timestamp RoundWitness c) (\<lambda>c'. Ok (c', Ticked))
       else Ok (c, Ticked))"

text \<open>The end of a round once its witness window is over.\<close>

definition set_last_step :: "nat \<Rightarrow> Coordinator \<Rightarrow> (CoordinatorError, Coordinator) res" where
  "set_last_step unix_timestamp c =
     rbind (check_epoch_timeout c unix_timestamp) (\<lambda>over.
       if over \<and> \<not> last_step_set (c_epoch_state c) then
         rbind (u_add 32 (pr_step (c_progress c)) 2) (\<lambda>last_step.
           Ok (if 4 \<le> last_step then set_epoch_state (\<lambda>es. es\<lparr>es_last_step := last_step\<rparr>) c else c))
       else Ok c)"

definition must_cooldown :: "nat \<Rightarrow> Coordinator \<Rightarrow> (CoordinatorError, bool) res" where
  "must_cooldown num_witnesses c =
     (if length (es_clients (c_epoch_state c)) < cc_min_clients (c_config c) then Ok True
      else rbind (witness_quorum (c_config c) num_witnesses) (\<lambda>q.
             Ok (num_witnesses < q \<or> cc_total_steps (c_config c) \<le> pr_step (c_progress c)
                 \<or> sb_is_true (c_pending_pause c))))"

definition end_round :: "nat \<Rightarrow> nat \<Rightarrow> Coordinator \<Rightarrow> (CoordinatorError, Coordinator) res" where
  "end_round unix_timestamp random_seed c =
     rbind (u_add 32 (pr_step (c_progress c)) 1) (\<lambda>step.
       let c1 = (set_epoch_state (\<lambda>es. es\<lparr>es_first_round := sb_new False\<rparr>) c)
                  \<lparr>c_progress := (c_progress c)\<lparr>pr_step := step\<rparr>\<rparr>
       in rbind (current_round_unchecked c1) (\<lambda>r.
          let num_witnesses = u_cast 16 (length (rd_witnesses r)) in
          rbind (move_clients_to_exited (rd_height r) c1) (\<lambda>c2.
            if num_witnesses = 0 then start_cooldown unix_timestamp (withdraw_all c2)
            else rbind (set_last_step unix_timestamp c2) (\<lambda>c3.
              if last_step_set (c_epoch_state c3) \<and> pr_step (c_progress c3) = es_last_step (c_epoch_state c3)
              then start_cooldown unix_timestamp c3
              else rbind (must_cooldown num_witnesses c3) (\<lambda>stop.
                if stop then start_cooldown unix_timestamp c3
                else start_round_train unix_timestamp random_seed 0 c3)))))"

definition tick_round_witness :: "nat \<Rightarrow> nat \<Rightarrow> Coordinator \<Rightarrow> (CoordinatorError, Coordinator \<times> TickResult) res" where
  "tick_round_witness unix_timestamp random_seed c =
     rbind (check_timeout c unix_timestamp (cc_round_witness_time (c_config c))) (\<lambda>expired.
       if expired then rbind (end_round unix_timestamp random_seed c) (\<lambda>c'. Ok (c', Ticked))
       else Ok (c, Ticked))"

definition end_epoch :: "nat \<Rightarrow> Coordinator \<Rightarrow> (CoordinatorError, Coordinator) res" where
  "end_epoch unix_timestamp c =
     rbind (get_target_global_batch_size c (current_round c)) (\<lambda>batch.
     rbind (current_round_unchecked c) (\<lambda>r.
     rbind (u_add 64 (rd_data_index r) batch) (\<lambda>data_index.
     rbind (u_add 16 (pr_epoch (c_progress c)) 1) (\<lambda>epoch.
       let c1 = c\<lparr>c_progress := (c_progress c)\<lparr>pr_epoch_start_data_index := data_index, pr_epoch := epoch\<rparr>\<rparr> in
       rbind (move_clients_to_exited (rd_height r) c1) (\<lambda>c2.
         let c3 = set_checkpoint (upgrade_checkpoint (checkpoint (model_llm (c_model c2)))) c2 in
         if sb_is_true (c_pending_pause c3) then
           rbind (change_state unix_timestamp Paused (withdraw_all c3)) (\<lambda>c4.
             Ok (set_epoch_state (\<lambda>es. es\<lparr>es_cold_start_epoch := sb_new True\<rparr>)
                   (c4\<lparr>c_pending_pause := sb_new False\<rparr>)))
         else
           rbind (start_waiting_for_members unix_timestamp c3) (\<lambda>c4.
             Ok (set_epoch_state (\<lambda>es. es\<lparr>es_cold_start_epoch := sb_new False\<rparr>) c4)))))))"

definition tick_cooldown :: "nat \<Rightarrow> Coordinator \<Rightarrow> (CoordinatorError, Coordinator \<times> TickResult) res" where
  "tick_cooldown unix_timestamp c =
     rbind (check_timeout c unix_timestamp (cc_cooldown_time (c_config c))) (\<lambda>expired.
       if expired then rbind (end_epoch unix_timestamp c) (\<lambda>c'. Ok (c', EpochEnd True))
       else Ok (c, Ticked))"

definition tick ::
  "NodeIdentity list option \<Rightarrow> nat \<Rightarrow> nat \<Rightarrow> Coordinator \<Rightarrow> (CoordinatorError, Coordinator \<times> TickResult) res" where
  "tick new_clients unix_timestamp random_seed c = (case c_run_state c of
       WaitingForMembers \<Rightarrow> tick_waiting_for_members new_clients unix_timestamp c
     | Warmup \<Rightarrow> tick_warmup unix_timestamp random_seed c
     | RoundTrain \<Rightarrow> tick_round_train unix_timestamp c
     | RoundWitness \<Rightarrow> tick_round_witness unix_timestamp random_seed c
     | Cooldown \<Rightarrow> tick_cooldown unix_timestamp c
     | _ \<Rightarrow> Err Halted)"

definition is_warmup_just_starting :: "Coordinator \<Rightarrow> bool" where
  "is_warmup_just_starting c = (sb_is_true (es_first_round (c_epoch_state c)) \<and> c_run_state c = Warmup)"

definition is_training_just_starting :: "Coordinator \<Rightarrow> bool" where
  "is_training_just_starting c = (sb_is_true (es_first_round (c_epoch_state c)) \<and> c_run_state c = RoundTrain)"

end
