(* ===== verification/Coordinator_Inv.thy ===== *)
theory Coordinator_Inv
  imports Coordinator
begin

text \<open>
  The invariant of the coordinator and what every operation does to it. Closed forms of the helper
  operations come first, then one preservation lemma per operation, then the properties: the machine
  never panics on a state it reaches, its transitions, what an accepted witness and a health check
  mean, the witness quorum and the batch size.
\<close>

section \<open>The invariant\<close>

abbreviation es :: "Coordinator \<Rightarrow> CoordinatorEpochState" where
  "es c \<equiv> c_epoch_state c"

abbreviation clients :: "Coordinator \<Rightarrow> Client list" where
  "clients c \<equiv> es_clients (c_epoch_state c)"

definition cur :: "Coordinator \<Rightarrow> Round" where
  "cur c = es_rounds (es c) ! es_rounds_head (es c)"

definition prev_pos :: "nat \<Rightarrow> nat" where
  "prev_pos h = (if h = 0 then 3 else h - 1)"

definition config_wf :: "CoordinatorConfig \<Rightarrow> bool" where
  "config_wf cfg = (config_check cfg \<and> cc_total_steps cfg + 2 < 2 ^ 32 \<and> cc_global_batch_size_end cfg < 2 ^ 16)"

definition rounds_wf :: "CoordinatorEpochState \<Rightarrow> bool" where
  "rounds_wf e = (length (es_rounds e) = 4 \<and> es_rounds_head e < 4
     \<and> list_all (\<lambda>r. length (rd_witnesses r) \<le> 32 \<and> rd_clients_len r \<le> 256 \<and> rd_tie_breaker_tasks r = 0) (es_rounds e)
     \<and> rd_height (es_rounds e ! es_rounds_head e) mod 4 = es_rounds_head e
     \<and> (rd_height (es_rounds e ! es_rounds_head e) = 0 \<or> rd_witnesses (es_rounds e ! prev_pos (es_rounds_head e)) \<noteq> []))"

definition coord_inv :: "Coordinator \<Rightarrow> bool" where
  "coord_inv c =
     (config_wf (c_config c) \<and> rounds_wf (es c)
      \<and> length (clients c) + length (es_exited_clients (es c)) \<le> 256
      \<and> (c_run_state c = Warmup \<longrightarrow> sb_is_true (es_first_round (es c)))
      \<and> (c_run_state c \<in> {WaitingForMembers, Warmup, RoundTrain, RoundWitness}
           \<longrightarrow> pr_step (c_progress c) < cc_total_steps (c_config c))
      \<and> (c_run_state c \<in> {Warmup, RoundTrain, RoundWitness}
           \<longrightarrow> cc_min_clients (c_config c) \<le> length (clients c))
      \<and> (c_run_state c \<in> {RoundTrain, RoundWitness}
           \<longrightarrow> rd_clients_len (cur c) = length (clients c)
             \<and> list_all (\<lambda>w. wp_index (wt_proof w) < length (clients c)) (rd_witnesses (cur c))))"

text \<open>
  What a tick may add up without leaving its width: the durations to the time the state was entered,
  and a round's batch to its data index. The height of a round and the epoch number have room for one
  more.
\<close>

definition tick_room :: "Coordinator \<Rightarrow> bool" where
  "tick_room c =
     (let cfg = c_config c; t = c_run_state_start_unix_timestamp c in
      cc_waiting_for_members_extra_time cfg + t < 2 ^ 64 \<and> cc_warmup_time cfg + t < 2 ^ 64
      \<and> cc_max_round_train_time cfg + t < 2 ^ 64 \<and> cc_round_witness_time cfg + t < 2 ^ 64
      \<and> cc_cooldown_time cfg + t < 2 ^ 64
      \<and> es_start_timestamp (es c) + cc_epoch_time cfg < 2 ^ 64
      \<and> rd_data_index (cur c) * get_sequence_length c < 2 ^ 64 \<and> rd_data_index (cur c) + 2 ^ 16 < 2 ^ 64
      \<and> rd_height (cur c) + 1 < 2 ^ 32 \<and> pr_epoch (c_progress c) + 1 < 2 ^ 16)"

section \<open>Closed forms\<close>

named_theorems coord_def

declare change_state_def [coord_def] start_waiting_for_members_def [coord_def] start_warmup_def [coord_def]
  set_epoch_state_def [coord_def] assert_ok_def [coord_def] cur_def [coord_def]

lemma rounds_wf_updates [simp]:
  "rounds_wf (e\<lparr>es_clients := x\<rparr>) = rounds_wf e" "rounds_wf (e\<lparr>es_exited_clients := x\<rparr>) = rounds_wf e"
  "rounds_wf (e\<lparr>es_first_round := b\<rparr>) = rounds_wf e" "rounds_wf (e\<lparr>es_last_step := n\<rparr>) = rounds_wf e"
  "rounds_wf (e\<lparr>es_cold_start_epoch := b\<rparr>) = rounds_wf e"
  by (simp_all add: rounds_wf_def)

lemma cur_updates [simp]:
  "cur (c\<lparr>c_epoch_state := (es c)\<lparr>es_clients := x\<rparr>\<rparr>) = cur c"
  "cur (c\<lparr>c_epoch_state := (es c)\<lparr>es_first_round := b\<rparr>\<rparr>) = cur c"
  "cur (c\<lparr>c_epoch_state := (es c)\<lparr>es_last_step := n\<rparr>\<rparr>) = cur c"
  "cur (c\<lparr>c_progress := p\<rparr>) = cur c" "cur (c\<lparr>c_run_state := s\<rparr>) = cur c"
  "cur (c\<lparr>c_run_state_start_unix_timestamp := t\<rparr>) = cur c" "cur (c\<lparr>c_model := m\<rparr>) = cur c"
  "cur (c\<lparr>c_pending_pause := b\<rparr>) = cur c"
  by (simp_all add: cur_def)

lemma length_clients_set [simp]: "length (clients (set_client_state i s c)) = length (clients c)"
  by (simp add: set_client_state_def set_epoch_state_def)

lemma current_round_cur:
  "rounds_wf (es c) \<Longrightarrow> current_round c = Some (cur c)"
  "rounds_wf (es c) \<Longrightarrow> current_round_unchecked c = Ok (cur c)"
  by (simp_all add: current_round_def current_round_unchecked_def slice_get_def slice_index_def rounds_wf_def cur_def)

lemma cur_in_rounds: "rounds_wf (es c) \<Longrightarrow> cur c \<in> set (es_rounds (es c))"
  by (simp add: rounds_wf_def cur_def)

lemma current_round_mut_cur:
  "rounds_wf (es c) \<Longrightarrow> current_round_mut_unchecked c f =
     Ok (c\<lparr>c_epoch_state := (es c)\<lparr>es_rounds := (es_rounds (es c))[es_rounds_head (es c) := f (cur c)]\<rparr>\<rparr>)"
  by (simp add: current_round_mut_unchecked_def slice_index_def rounds_wf_def cur_def set_epoch_state_def Let_def)

lemma previous_round_cur:
  assumes "rounds_wf (es c)"
  shows "previous_round c =
     (if rd_height (cur c) = 0 then None else Some (es_rounds (es c) ! prev_pos (es_rounds_head (es c))))"
proof -
  have "rd_height (cur c) = 0 \<Longrightarrow> es_rounds_head (es c) = 0"
    using assms by (auto simp: rounds_wf_def cur_def)
  then show ?thesis
    using assms
    by (auto simp: previous_round_def current_round_cur prev_pos_def NUM_STORED_ROUNDS_def Let_def)
qed

definition stamp :: "nat \<Rightarrow> Client \<Rightarrow> Client" where
  "stamp height x = x\<lparr>exited_height := height\<rparr>"

lemma retain_exit_client:
  "length xs + length exited \<le> SOLANA_MAX_NUM_CLIENTS \<Longrightarrow>
   retain_list (exit_client height) exited xs =
     Ok (exited @ map (stamp height) (filter (\<lambda>x. client_state x \<noteq> Healthy) xs),
         filter (\<lambda>x. client_state x = Healthy) xs)"
  by (induction xs arbitrary: exited) (auto simp: exit_client_def vec_push_def stamp_def)

definition exit_unhealthy :: "nat \<Rightarrow> Coordinator \<Rightarrow> Coordinator" where
  "exit_unhealthy height c = c\<lparr>c_epoch_state := (es c)\<lparr>
     es_exited_clients := es_exited_clients (es c)
       @ map (stamp height) (filter (\<lambda>x. client_state x \<noteq> Healthy) (clients c)),
     es_clients := filter (\<lambda>x. client_state x = Healthy) (clients c)\<rparr>\<rparr>"

lemma move_clients_to_exited_eq:
  "length (clients c) + length (es_exited_clients (es c)) \<le> 256 \<Longrightarrow>
   move_clients_to_exited height c = Ok (exit_unhealthy height c)"
  by (simp add: move_clients_to_exited_def retain_exit_client SOLANA_MAX_NUM_CLIENTS_def
      set_epoch_state_def exit_unhealthy_def)

lemma exit_unhealthy_simps [simp]:
  "c_run_state (exit_unhealthy h c) = c_run_state c" "c_config (exit_unhealthy h c) = c_config c"
  "c_progress (exit_unhealthy h c) = c_progress c" "c_model (exit_unhealthy h c) = c_model c"
  "c_pending_pause (exit_unhealthy h c) = c_pending_pause c"
  "c_run_state_start_unix_timestamp (exit_unhealthy h c) = c_run_state_start_unix_timestamp c"
  "es_rounds (es (exit_unhealthy h c)) = es_rounds (es c)"
  "es_rounds_head (es (exit_unhealthy h c)) = es_rounds_head (es c)"
  "es_first_round (es (exit_unhealthy h c)) = es_first_round (es c)"
  "es_last_step (es (exit_unhealthy h c)) = es_last_step (es c)"
  "es_start_timestamp (es (exit_unhealthy h c)) = es_start_timestamp (es c)"
  "cur (exit_unhealthy h c) = cur c" "rounds_wf (es (exit_unhealthy h c)) = rounds_wf (es c)"
  "get_sequence_length (exit_unhealthy h c) = get_sequence_length c"
  "clients (exit_unhealthy h c) = filter (\<lambda>x. client_state x = Healthy) (clients c)"
  by (simp_all add: exit_unhealthy_def cur_def rounds_wf_def get_sequence_length_def)

lemma exit_unhealthy_length:
  "length (clients (exit_unhealthy h c)) + length (es_exited_clients (es (exit_unhealthy h c)))
   = length (clients c) + length (es_exited_clients (es c))"
  using sum_length_filter_compl [of "\<lambda>x. client_state x = Healthy" "clients c"]
  by (simp add: exit_unhealthy_def)

definition leave :: "Client \<Rightarrow> Client" where
  "leave x = (if client_state x = Healthy then x\<lparr>client_state := Withdrawn\<rparr> else x)"

lemma withdraw_step:
  "i < length (clients c) \<Longrightarrow>
   withdraw_ignoring i c = c\<lparr>c_epoch_state := (es c)\<lparr>es_clients := (clients c)[i := leave (clients c ! i)]\<rparr>\<rparr>"
  by (auto simp: withdraw_ignoring_def withdraw_def slice_get_def leave_def set_client_state_def
      set_epoch_state_def update_at_def)

lemma withdraw_fold:
  "n \<le> length (clients c) \<Longrightarrow> fold withdraw_ignoring [0..<n] c
     = c\<lparr>c_epoch_state := (es c)\<lparr>es_clients := map leave (take n (clients c)) @ drop n (clients c)\<rparr>\<rparr>"
proof (induction n)
  case (Suc n)
  have "drop n (clients c) = clients c ! n # drop (Suc n) (clients c)"
    using Suc.prems by (simp add: Cons_nth_drop_Suc)
  then show ?case
    using Suc by (simp add: withdraw_step nth_append list_update_append take_Suc_conv_app_nth)
qed simp

lemma withdraw_all_eq:
  "withdraw_all c = c\<lparr>c_epoch_state := (es c)\<lparr>es_clients := map leave (clients c)\<rparr>\<rparr>"
  by (simp add: withdraw_all_def withdraw_fold)

section \<open>Quorum and batch size\<close>

lemma config_wf_facts:
  assumes "config_wf cfg"
  shows "0 < cc_min_clients cfg" "cc_min_clients cfg \<le> cc_init_min_clients cfg" "cc_init_min_clients cfg \<le> 256"
    "cc_witness_nodes cfg \<le> cc_min_clients cfg" "cc_witness_nodes cfg \<le> 32" "cc_total_steps cfg + 2 < 2 ^ 32"
    "cc_global_batch_size_start cfg \<le> cc_global_batch_size_end cfg" "0 < cc_global_batch_size_start cfg"
    "cc_global_batch_size_end cfg < 2 ^ 16"
  using assms
  by (auto simp: config_wf_def config_check_def check_error_def guard_err_def SOLANA_MAX_NUM_CLIENTS_def
      SOLANA_MAX_NUM_WITNESSES_def split: if_splits)

lemma get_batch_size_u16: "cc_global_batch_size_end cfg < 2 ^ 16 \<Longrightarrow> get_batch_size cfg t < 2 ^ 16"
  by (auto simp: get_batch_size_def f64_as_u16_def Let_def min_def)

lemma witness_quorum_eq:
  assumes "0 < n \<or> 0 < cc_witness_nodes cfg" "n < 2 ^ 16" "cc_witness_nodes cfg < 2 ^ 16"
  defines "w \<equiv> if cc_witness_nodes cfg = 0 then n else cc_witness_nodes cfg"
  shows "witness_quorum cfg n = Ok (if w = 1 then 1 else if w = 2 then 2 else 2 * w div 3)"
proof -
  have "0 < w" "w < 65536"
    using assms by (auto simp: w_def)
  then have "f64_as_u16 (f64_mul (u_as_f64 w) WITNESS_QUORUM_RAIO) = 2 * w div 3"
    unfolding WITNESS_QUORUM_RAIO_def by (rule f64_two_thirds_floor)
  moreover have "w \<noteq> 0 \<Longrightarrow> w \<noteq> 1 \<Longrightarrow> 1 \<le> 2 * w div 3"
    by simp
  ultimately show ?thesis
    using \<open>0 < w\<close> unfolding witness_quorum_def Let_def w_def [symmetric] by (auto simp: max_def)
qed

text \<open>The interpolation of the batch size stays between its ends and grows with the tokens.\<close>

definition batch_ramp :: "CoordinatorConfig \<Rightarrow> nat \<Rightarrow> rat" where
  "batch_ramp cfg t = f64_add (of_nat (cc_global_batch_size_start cfg))
     (f64_mul (of_nat (cc_global_batch_size_end cfg - cc_global_batch_size_start cfg))
        (f64_div (u_as_f64 t) (u_as_f64 (cc_global_batch_size_warmup_tokens cfg))))"

lemma batch_ramp_progress:
  assumes "t \<le> t'" "t' \<le> w" "0 < w"
  shows "0 \<le> f64_div (u_as_f64 t) (u_as_f64 w)"
    "f64_div (u_as_f64 t) (u_as_f64 w) \<le> f64_div (u_as_f64 t') (u_as_f64 w)"
    "f64_div (u_as_f64 t') (u_as_f64 w) \<le> 1"
proof -
  have w: "0 < u_as_f64 w"
    using assms(3) by (rule u_as_f64_pos)
  show "0 \<le> f64_div (u_as_f64 t) (u_as_f64 w)"
    by (simp add: f64_div_def f64_round_nonneg u_as_f64_nonneg)
  show "f64_div (u_as_f64 t) (u_as_f64 w) \<le> f64_div (u_as_f64 t') (u_as_f64 w)"
    unfolding f64_div_def
    using w u_as_f64_mono [OF assms(1)] by (intro f64_round_mono) (auto simp: u_as_f64_nonneg divide_right_mono)
  have "f64_round (u_as_f64 t' / u_as_f64 w) \<le> f64_round (of_nat 1)"
    using w u_as_f64_mono [OF assms(2)] by (intro f64_round_mono) (auto simp: u_as_f64_nonneg)
  then show "f64_div (u_as_f64 t') (u_as_f64 w) \<le> 1"
    using f64_round_of_nat [of 1] by (simp add: f64_div_def)
qed

lemma batch_ramp_bounds:
  assumes "config_wf cfg" "t \<le> t'" "t' \<le> cc_global_batch_size_warmup_tokens cfg"
    "0 < cc_global_batch_size_warmup_tokens cfg"
  shows "of_nat (cc_global_batch_size_start cfg) \<le> batch_ramp cfg t"
    "batch_ramp cfg t \<le> batch_ramp cfg t'"
    "batch_ramp cfg t' \<le> of_nat (cc_global_batch_size_end cfg)"
proof -
  let ?s = "cc_global_batch_size_start cfg" and ?e = "cc_global_batch_size_end cfg"
  define p where "p u = f64_div (u_as_f64 u) (u_as_f64 (cc_global_batch_size_warmup_tokens cfg))" for u
  define m where "m u = f64_round (of_nat (?e - ?s) * p u)" for u
  have se: "?s \<le> ?e" "?e < 2 ^ 16"
    using config_wf_facts [OF assms(1)] by auto
  have p: "0 \<le> p t" "p t \<le> p t'" "p t' \<le> 1"
    using batch_ramp_progress [OF assms(2-4)] by (simp_all add: p_def)
  have m: "0 \<le> m t" "m t \<le> m t'"
    using p by (auto simp: m_def f64_round_nonneg intro!: f64_round_mono mult_left_mono)
  have "m t' \<le> f64_round (of_nat (?e - ?s))"
    unfolding m_def using p by (intro f64_round_mono) (auto intro: mult_left_le)
  then have "m t' \<le> of_nat (?e - ?s)"
    using se f64_round_of_nat [of "?e - ?s"] by simp
  then have up: "of_nat ?s + m t' \<le> of_nat ?e"
    using se by (simp add: of_nat_diff)
  have ramp: "batch_ramp cfg u = f64_round (of_nat ?s + m u)" for u
    by (simp add: batch_ramp_def f64_add_def f64_mul_def m_def p_def)
  have "f64_round (of_nat ?s) \<le> f64_round (of_nat ?s + m t)"
    using m by (intro f64_round_mono) auto
  then show "of_nat ?s \<le> batch_ramp cfg t"
    using se by (simp add: ramp f64_round_of_nat)
  show "batch_ramp cfg t \<le> batch_ramp cfg t'"
    unfolding ramp using m by (intro f64_round_mono) auto
  have "f64_round (of_nat ?s + m t') \<le> f64_round (of_nat ?e)"
    using m up by (intro f64_round_mono) auto
  then show "batch_ramp cfg t' \<le> of_nat ?e"
    using se by (simp add: ramp f64_round_of_nat)
qed

lemma get_batch_size_ramp:
  assumes "config_wf cfg"
  shows "get_batch_size cfg t = (if cc_global_batch_size_warmup_tokens cfg \<le> t then cc_global_batch_size_end cfg
     else f64_as_u16 (f64_half_away (batch_ramp cfg t)))"
proof -
  have se: "cc_global_batch_size_start cfg \<le> cc_global_batch_size_end cfg" "cc_global_batch_size_end cfg < 2 ^ 16"
    using config_wf_facts [OF assms] by auto
  then have "f64_sub (of_nat (cc_global_batch_size_end cfg)) (of_nat (cc_global_batch_size_start cfg))
      = of_nat (cc_global_batch_size_end cfg - cc_global_batch_size_start cfg)"
    using f64_round_of_nat [of "cc_global_batch_size_end cfg - cc_global_batch_size_start cfg"]
    by (simp add: f64_sub_def of_nat_diff)
  then show ?thesis
    using se by (simp add: get_batch_size_def batch_ramp_def Let_def)
qed

section \<open>Starting a round\<close>

definition next_head :: "Coordinator \<Rightarrow> nat" where
  "next_head c = (if sb_is_true (es_first_round (es c)) then 0 else (es_rounds_head (es c) + 1) mod 4)"

definition new_round :: "nat \<Rightarrow> Coordinator \<Rightarrow> Round" where
  "new_round seed c = \<lparr>rd_witnesses = [],
     rd_data_index = (if sb_is_true (es_first_round (es c)) then pr_epoch_start_data_index (c_progress c)
       else rd_data_index (cur c) + get_batch_size (c_config c) (rd_data_index (cur c) * get_sequence_length c)),
     rd_random_seed = seed,
     rd_height = (if sb_is_true (es_first_round (es c)) then 0 else rd_height (cur c) + 1),
     rd_clients_len = length (clients c), rd_tie_breaker_tasks = 0\<rparr>"

definition next_round :: "nat \<Rightarrow> nat \<Rightarrow> Coordinator \<Rightarrow> Coordinator" where
  "next_round now seed c = c\<lparr>c_epoch_state := (es c)\<lparr>es_rounds_head := next_head c,
       es_rounds := (es_rounds (es c))[next_head c := new_round seed c]\<rparr>,
     c_run_state_start_unix_timestamp := now, c_run_state := RoundTrain\<rparr>"

definition round_room :: "Coordinator \<Rightarrow> bool" where
  "round_room c = (rd_data_index (cur c) * get_sequence_length c < 2 ^ 64
     \<and> rd_data_index (cur c) + 2 ^ 16 < 2 ^ 64 \<and> rd_height (cur c) + 1 < 2 ^ 32)"

lemma start_round_train_eq:
  assumes "rounds_wf (es c)" "length (clients c) \<le> 256" "c_run_state c \<noteq> RoundTrain"
    "sb_is_true (es_first_round (es c)) \<or> round_room c" "cc_global_batch_size_end (c_config c) < 2 ^ 16"
  shows "start_round_train now seed 0 c = Ok (next_round now seed c)"
proof -
  have len: "u_cast 16 (length (clients c)) = length (clients c)"
    using assms(2) by (simp add: u_cast_def)
  have b: "rd_data_index (cur c) + get_batch_size (c_config c) t < 2 ^ 64" if "round_room c" for t
    using that get_batch_size_u16 [OF assms(5), of t] by (simp add: round_room_def)
  have "es_rounds_head (es c) + 1 < 2 ^ 32" "length (es_rounds (es c)) = 4" "es_rounds_head (es c) < 4"
    using assms(1) by (auto simp: rounds_wf_def)
  then have pos: "next_round_position c =
      Ok (next_head c, rd_height (new_round seed c), rd_data_index (new_round seed c))"
    using assms(4) b
    by (auto simp: next_round_position_def Let_def next_head_def new_round_def slice_index_def u_mul_def
        u_add_def u_rem_def round_room_def cur_def)
  have r: "r\<lparr>rd_clients_len := length (clients c), rd_height := rd_height (new_round seed c),
      rd_data_index := rd_data_index (new_round seed c), rd_tie_breaker_tasks := 0, rd_random_seed := seed,
      rd_witnesses := []\<rparr> = new_round seed c" for r :: Round
    by (cases r) (simp add: new_round_def)
  have "next_head c < length (es_rounds (es c))"
    using assms(1) by (simp add: next_head_def rounds_wf_def)
  then show ?thesis
    using assms(3)
    by (simp add: start_round_train_def pos slice_index_def change_state_def assert_ok_def set_epoch_state_def
        next_round_def len r Let_def)
qed

lemma next_round_simps [simp]:
  "c_run_state (next_round now seed c) = RoundTrain" "c_config (next_round now seed c) = c_config c"
  "c_progress (next_round now seed c) = c_progress c" "c_model (next_round now seed c) = c_model c"
  "clients (next_round now seed c) = clients c"
  "es_exited_clients (es (next_round now seed c)) = es_exited_clients (es c)"
  "es_first_round (es (next_round now seed c)) = es_first_round (es c)"
  "c_pending_pause (next_round now seed c) = c_pending_pause c"
  by (simp_all add: next_round_def)

lemma cur_next_round: "rounds_wf (es c) \<Longrightarrow> cur (next_round now seed c) = new_round seed c"
  by (simp add: cur_def next_round_def next_head_def rounds_wf_def)

lemma rounds_wf_update_witnesses:
  assumes "rounds_wf (es c)" "length ws \<le> 32"
  shows "rounds_wf ((es c)\<lparr>es_rounds := (es_rounds (es c))[es_rounds_head (es c) := (cur c)\<lparr>rd_witnesses := ws\<rparr>]\<rparr>)"
proof -
  have "prev_pos (es_rounds_head (es c)) \<noteq> es_rounds_head (es c)"
    by (cases "es_rounds_head (es c)") (simp_all add: prev_pos_def)
  moreover have "list_all (\<lambda>r. length (rd_witnesses r) \<le> 32 \<and> rd_clients_len r \<le> 256 \<and> rd_tie_breaker_tasks r = 0)
      ((es_rounds (es c))[es_rounds_head (es c) := (cur c)\<lparr>rd_witnesses := ws\<rparr>])"
    using assms cur_in_rounds [OF assms(1)]
    by (intro list_all_update) (auto simp: rounds_wf_def list_all_iff)
  ultimately show ?thesis
    using assms by (auto simp: rounds_wf_def cur_def)
qed

lemma rounds_wf_next_round:
  assumes "rounds_wf (es c)" "length (clients c) \<le> 256"
    "sb_is_true (es_first_round (es c)) \<or> rd_witnesses (cur c) \<noteq> []"
  shows "rounds_wf (es (next_round now seed c))"
proof -
  let ?h = "next_head c"
  have len: "length (es_rounds (es c)) = 4" "es_rounds_head (es c) < 4" "?h < 4"
    using assms(1) by (auto simp: rounds_wf_def next_head_def)
  have all: "list_all (\<lambda>r. length (rd_witnesses r) \<le> 32 \<and> rd_clients_len r \<le> 256 \<and> rd_tie_breaker_tasks r = 0)
      ((es_rounds (es c))[?h := new_round seed c])"
    using assms(1,2) by (intro list_all_update) (auto simp: rounds_wf_def new_round_def)
  have height: "rd_height (new_round seed c) mod 4 = ?h"
    using assms(1) by (auto simp: new_round_def next_head_def rounds_wf_def cur_def) (metis mod_Suc_eq)
  have "rd_witnesses ((es_rounds (es c))[?h := new_round seed c] ! prev_pos ?h) \<noteq> []"
    if "\<not> sb_is_true (es_first_round (es c))"
  proof -
    have "prev_pos ?h = es_rounds_head (es c)" "?h \<noteq> es_rounds_head (es c)"
      using that len(2) by (auto simp: next_head_def prev_pos_def mod_Suc)
    then show ?thesis
      using that assms(3) by (simp add: cur_def)
  qed
  then have "rd_height (new_round seed c) = 0 \<or>
      rd_witnesses ((es_rounds (es c))[?h := new_round seed c] ! prev_pos ?h) \<noteq> []"
    by (auto simp: new_round_def)
  then show ?thesis
    using len all height by (simp add: rounds_wf_def next_round_def)
qed

lemma coord_inv_next_round:
  assumes "config_wf (c_config c)" "rounds_wf (es c)" "length (clients c) + length (es_exited_clients (es c)) \<le> 256"
    "sb_is_true (es_first_round (es c)) \<or> rd_witnesses (cur c) \<noteq> []"
    "pr_step (c_progress c) < cc_total_steps (c_config c)" "cc_min_clients (c_config c) \<le> length (clients c)"
  shows "coord_inv (next_round now seed c)"
  using assms rounds_wf_next_round [OF assms(2), where now = now and seed = seed]
  by (simp add: coord_inv_def cur_next_round) (simp add: new_round_def)

section \<open>Preservation\<close>

lemma check_timeout_eq:
  "duration + c_run_state_start_unix_timestamp c < 2 ^ 64 \<Longrightarrow>
   check_timeout c now duration = Ok (c_run_state_start_unix_timestamp c \<noteq> now
     \<and> duration + c_run_state_start_unix_timestamp c \<le> now)"
  by (simp add: check_timeout_def u_add_def)

lemma coord_inv_set_client_state: "coord_inv c \<Longrightarrow> coord_inv (set_client_state i st c)"
  by (simp add: coord_inv_def set_client_state_def set_epoch_state_def rounds_wf_def cur_def)

lemma sat_withdraw: "coord_inv c \<Longrightarrow> sat (withdraw i c) coord_inv"
  by (simp add: withdraw_def coord_inv_set_client_state split: option.split)

lemma sat_eject: "coord_inv c \<Longrightarrow> sat (eject i c) coord_inv"
  by (simp add: eject_def coord_inv_set_client_state split: option.split)

lemma sat_record_checkpoint: "coord_inv c \<Longrightarrow> sat (record_checkpoint from i repo c) coord_inv"
  by (simp add: record_checkpoint_def set_checkpoint_def coord_inv_def cur_def split: option.split)

lemma sat_pause: "coord_inv c \<Longrightarrow> sat (pause now c) coord_inv"
  by (auto simp: pause_def halted_def active_def change_state_def assert_ok_def withdraw_all_eq
      set_epoch_state_def coord_inv_def rounds_wf_def cur_def)

lemma sat_resume: "coord_inv c \<Longrightarrow> sat (resume now c) coord_inv"
  by (auto simp: resume_def guard_err_def start_waiting_for_members_def change_state_def assert_ok_def
      coord_inv_def cur_def)

lemma begin_epoch_eq:
  assumes "coord_inv c" "c_run_state c = WaitingForMembers"
  shows "\<exists>c1. begin_epoch pending now c = Ok c1 \<and> c_run_state c1 = Warmup
      \<and> c_run_state_start_unix_timestamp c1 = now
      \<and> c_config c1 = c_config c \<and> c_progress c1 = c_progress c
      \<and> es c1 = EpochState_zeroed\<lparr>es_first_round := sb_new True, es_cold_start_epoch := es_cold_start_epoch (es c),
          es_start_step := pr_step (c_progress c), es_start_timestamp := now,
          es_clients := map client_new (take 256 pending)\<rparr>"
proof -
  have wf: "rounds_wf (es c)" "length (clients c) + length (es_exited_clients (es c)) \<le> 256"
    using assms(1) by (auto simp: coord_inv_def)
  have ext: "vec_extend (vec_push 256) [] (map client_new (take 256 pending)) = Ok (map client_new (take 256 pending))"
    using lv.extend_ok [of "[]" 256 "map client_new (take 256 pending)"] by auto
  let ?c1 = "exit_unhealthy (rd_height (cur c)) c"
  let ?E = "EpochState_zeroed\<lparr>es_first_round := sb_new True, es_cold_start_epoch := es_cold_start_epoch (es c),
          es_start_step := pr_step (c_progress c), es_start_timestamp := now\<rparr>"
  define c2 where "c2 = (if \<not> list_ex (\<lambda>client. list_ex (node_eq (client_id client)) pending) (clients ?c1)
      then set_checkpoint (downgrade_checkpoint (checkpoint (model_llm (c_model ?c1)))) ?c1 else ?c1)"
  have c2: "c_run_state c2 = WaitingForMembers" "c_config c2 = c_config c" "c_progress c2 = c_progress c"
      "es_cold_start_epoch (es c2) = es_cold_start_epoch (es c)"
    using assms(2) by (simp_all add: c2_def set_checkpoint_def exit_unhealthy_def)
  have z: "es_clients EpochState_zeroed = []"
    by (simp add: EpochState_zeroed_def EpochState_default_def)
  have "begin_epoch pending now c =
      rbind (expect_ok (vec_extend (vec_push 256) (es_clients ?E) (map client_new (take 256 pending)))) (\<lambda>cl.
        start_warmup now (set_epoch_state (\<lambda>es. es\<lparr>es_clients := cl\<rparr>) (c2\<lparr>c_epoch_state := ?E\<rparr>)))"
    by (simp add: begin_epoch_def current_round_cur wf move_clients_to_exited_eq Let_def c2(3,4)
        SOLANA_MAX_NUM_CLIENTS_def c2_def [symmetric] del: rbind_eq_Ok exit_unhealthy_simps)
  also have "\<dots> = start_warmup now (set_epoch_state (\<lambda>es. es\<lparr>es_clients := map client_new (take 256 pending)\<rparr>)
        (c2\<lparr>c_epoch_state := ?E\<rparr>))"
    by (simp add: ext z del: rbind_eq_Ok)
  finally show ?thesis
    by (simp add: start_warmup_def change_state_def assert_ok_def set_epoch_state_def c2)
qed

lemma sat_begin_epoch:
  assumes "coord_inv c" "c_run_state c = WaitingForMembers" "cc_init_min_clients (c_config c) \<le> length pending"
  shows "sat (begin_epoch pending now c) coord_inv"
proof -
  obtain c1 where c1: "begin_epoch pending now c = Ok c1" "c_run_state c1 = Warmup"
      "c_config c1 = c_config c" "c_progress c1 = c_progress c"
      "es c1 = EpochState_zeroed\<lparr>es_first_round := sb_new True, es_cold_start_epoch := es_cold_start_epoch (es c),
          es_start_step := pr_step (c_progress c), es_start_timestamp := now,
          es_clients := map client_new (take 256 pending)\<rparr>"
    using begin_epoch_eq [OF assms(1,2), of pending now] by blast
  have cfg: "config_wf (c_config c)" "pr_step (c_progress c) < cc_total_steps (c_config c)"
    using assms(1,2) by (auto simp: coord_inv_def)
  have "rounds_wf (es c1)"
    by (simp add: c1 rounds_wf_def EpochState_zeroed_def EpochState_default_def NUM_STORED_ROUNDS_def
        Round_default_def list_all_iff)
  moreover have "es_exited_clients (es c1) = []"
    by (simp add: c1 EpochState_zeroed_def EpochState_default_def)
  moreover have "cc_min_clients (c_config c) \<le> min (length pending) 256"
    using config_wf_facts [OF cfg(1)] assms(3) by simp
  ultimately have "coord_inv c1"
    using c1 cfg by (simp add: coord_inv_def)
  then show ?thesis
    by (simp add: c1(1))
qed

lemma sat_tick_waiting:
  assumes "coord_inv c" "c_run_state c = WaitingForMembers" "tick_room c"
  shows "sat (tick_waiting_for_members pending now c) (\<lambda>(c', _). coord_inv c')"
proof (cases pending)
  case (Some p)
  have cast: "u_cast 16 (length p) \<le> length p"
    by (simp add: u_cast_def)
  have to: "check_timeout c now (cc_waiting_for_members_extra_time (c_config c)) \<noteq> Panic"
    using assms(3) by (simp add: tick_room_def Let_def check_timeout_eq)
  show ?thesis
  proof (cases "cc_init_min_clients (c_config c) \<le> u_cast 16 (length p)")
    case True
    then have "sat (begin_epoch p now c) coord_inv"
      using sat_begin_epoch [OF assms(1,2)] cast by fastforce
    then show ?thesis
      using Some True assms to
      by (cases "check_timeout c now (cc_waiting_for_members_extra_time (c_config c)) :: (CoordinatorError, bool) res")
        (auto simp: tick_waiting_for_members_def)
  qed (use Some assms in \<open>simp add: tick_waiting_for_members_def\<close>)
qed (use assms in \<open>simp add: tick_waiting_for_members_def\<close>)

lemma coord_inv_exit_unhealthy:
  assumes "coord_inv c" "c_run_state c = Warmup"
    "cc_min_clients (c_config c) \<le> length (clients (exit_unhealthy h c))"
  shows "coord_inv (exit_unhealthy h c)"
  using assms exit_unhealthy_length [of h c] by (simp add: coord_inv_def)

lemma sat_start_waiting:
  assumes "config_wf (c_config c)" "rounds_wf (es c)" "length (clients c) + length (es_exited_clients (es c)) \<le> 256"
    "c_run_state c \<notin> {WaitingForMembers, Finished}"
  shows "sat (start_waiting_for_members now c) coord_inv"
  using assms by (auto simp: start_waiting_for_members_def change_state_def assert_ok_def coord_inv_def)

lemma length_u16: "n \<le> 256 \<Longrightarrow> u_cast 16 n = n"
  by (simp add: u_cast_def)

lemma sat_tick_warmup:
  assumes "coord_inv c" "c_run_state c = Warmup" "tick_room c"
  shows "sat (tick_warmup now seed c) (\<lambda>(c', _). coord_inv c')"
proof -
  note inv = assms(1) [unfolded coord_inv_def]
  have to: "check_timeout c now (cc_warmup_time (c_config c)) =
      (Ok (c_run_state_start_unix_timestamp c \<noteq> now \<and> cc_warmup_time (c_config c) + c_run_state_start_unix_timestamp c \<le> now)
       :: (CoordinatorError, bool) res)"
    using assms(3) by (simp add: tick_room_def Let_def check_timeout_eq)
  have start: "start_round_train now seed 0 c = (Ok (next_round now seed c) :: (CoordinatorError, Coordinator) res)"
    using inv assms(2) config_wf_facts(9) by (intro start_round_train_eq) auto
  have next_inv: "coord_inv (next_round now seed c)"
    using inv assms(2) by (intro coord_inv_next_round) auto
  have len: "length (clients c) \<le> 256" "length (clients (exit_unhealthy 0 c)) \<le> 256"
    using inv exit_unhealthy_length [of 0 c] by linarith+
  have wait: "sat (start_waiting_for_members now (exit_unhealthy 0 c)) coord_inv"
    using inv assms(2) exit_unhealthy_length [of 0 c] by (intro sat_start_waiting) auto
  show ?thesis
  proof (cases "c_run_state_start_unix_timestamp c \<noteq> now \<and> cc_warmup_time (c_config c) + c_run_state_start_unix_timestamp c \<le> now")
    case True
    then show ?thesis
      using inv assms(2) len next_inv by (simp add: tick_warmup_def to start length_u16)
  next
    case False
    have move: "move_clients_to_exited 0 c = (Ok (exit_unhealthy 0 c) :: (CoordinatorError, Coordinator) res)"
      using inv by (simp add: move_clients_to_exited_eq)
    show ?thesis
    proof (cases "length (clients (exit_unhealthy 0 c)) < cc_min_clients (c_config c)")
      case True
      then show ?thesis
        using False wait len by (auto simp: tick_warmup_def to move length_u16)
    next
      case enough: False
      then show ?thesis
        using False coord_inv_exit_unhealthy [OF assms(1,2)] len
        by (auto simp: tick_warmup_def to move length_u16)
    qed
  qed
qed

lemma sat_tick_round_train:
  assumes "coord_inv c" "c_run_state c = RoundTrain" "tick_room c"
  shows "sat (tick_round_train now c) (\<lambda>(c', _). coord_inv c')"
proof -
  have "check_timeout c now (cc_max_round_train_time (c_config c)) =
      (Ok (c_run_state_start_unix_timestamp c \<noteq> now \<and> cc_max_round_train_time (c_config c) + c_run_state_start_unix_timestamp c \<le> now)
       :: (CoordinatorError, bool) res)"
    using assms(3) by (simp add: tick_room_def Let_def check_timeout_eq)
  then show ?thesis
    using assms by (auto simp: tick_round_train_def change_state_def assert_ok_def coord_inv_def cur_def)
qed

lemma sat_start_cooldown:
  assumes "config_wf (c_config c)" "rounds_wf (es c)" "length (clients c) + length (es_exited_clients (es c)) \<le> 256"
    "c_run_state c \<noteq> Cooldown"
  shows "sat (start_cooldown now c) (\<lambda>c'. coord_inv c' \<and> c_run_state c' = Cooldown)"
  using assms rounds_wf_update_witnesses [OF assms(2), of "[]"]
  by (simp add: start_cooldown_def current_round_mut_cur change_state_def assert_ok_def coord_inv_def)

text \<open>The coordinator at the point where the round that just closed has been counted.\<close>

definition closed_round :: "Coordinator \<Rightarrow> Coordinator" where
  "closed_round c = exit_unhealthy (rd_height (cur c))
     ((set_epoch_state (\<lambda>es. es\<lparr>es_first_round := sb_new False\<rparr>) c)
        \<lparr>c_progress := (c_progress c)\<lparr>pr_step := pr_step (c_progress c) + 1\<rparr>\<rparr>)"

lemma closed_round_simps [simp]:
  "c_run_state (closed_round c) = c_run_state c" "c_config (closed_round c) = c_config c"
  "c_model (closed_round c) = c_model c" "c_pending_pause (closed_round c) = c_pending_pause c"
  "pr_step (c_progress (closed_round c)) = pr_step (c_progress c) + 1"
  "cur (closed_round c) = cur c" "rounds_wf (es (closed_round c)) = rounds_wf (es c)"
  "get_sequence_length (closed_round c) = get_sequence_length c"
  "es_first_round (es (closed_round c)) = sb_new False"
  "es_start_timestamp (es (closed_round c)) = es_start_timestamp (es c)"
  "es_last_step (es (closed_round c)) = es_last_step (es c)"
  by (simp_all add: closed_round_def set_epoch_state_def cur_def rounds_wf_def get_sequence_length_def)

lemma closed_round_length:
  "length (clients (closed_round c)) + length (es_exited_clients (es (closed_round c)))
   = length (clients c) + length (es_exited_clients (es c))"
  unfolding closed_round_def exit_unhealthy_length by (simp add: set_epoch_state_def)

lemma end_round_eq:
  assumes "coord_inv c" "c_run_state c = RoundWitness"
  shows "end_round now seed c =
     (if rd_witnesses (cur c) = [] then start_cooldown now (withdraw_all (closed_round c))
      else rbind (set_last_step now (closed_round c)) (\<lambda>c3.
        if last_step_set (es c3) \<and> pr_step (c_progress c3) = es_last_step (es c3) then start_cooldown now c3
        else rbind (must_cooldown (length (rd_witnesses (cur c))) c3) (\<lambda>stop.
          if stop then start_cooldown now c3 else start_round_train now seed 0 c3)))"
proof -
  have inv: "rounds_wf (es c)" "length (clients c) + length (es_exited_clients (es c)) \<le> 256"
      "pr_step (c_progress c) + 1 < 2 ^ 32"
    using assms config_wf_facts(6) [of "c_config c"] by (auto simp: coord_inv_def)
  let ?c1 = "(set_epoch_state (\<lambda>es. es\<lparr>es_first_round := sb_new False\<rparr>) c)
        \<lparr>c_progress := (c_progress c)\<lparr>pr_step := pr_step (c_progress c) + 1\<rparr>\<rparr>"
  have cur: "rounds_wf (es ?c1)" "cur ?c1 = cur c"
      "length (clients ?c1) + length (es_exited_clients (es ?c1)) \<le> 256"
    using inv by (simp_all add: set_epoch_state_def rounds_wf_def cur_def)
  have "length (rd_witnesses (cur c)) \<le> 32"
    using inv(1) cur_in_rounds [OF inv(1)] by (auto simp: rounds_wf_def list_all_iff)
  then have "u_cast 16 (length (rd_witnesses (cur c))) = length (rd_witnesses (cur c))"
    by (simp add: length_u16)
  moreover have "move_clients_to_exited (rd_height (cur c)) ?c1 = (Ok (closed_round c) :: (CoordinatorError, Coordinator) res)"
    using cur(3) by (simp only: move_clients_to_exited_eq closed_round_def)
  moreover have "u_add 32 (pr_step (c_progress c)) 1 = (Ok (pr_step (c_progress c) + 1) :: (CoordinatorError, nat) res)"
    using inv(3) by (simp add: u_add_def)
  moreover have "current_round_unchecked ?c1 = (Ok (cur c) :: (CoordinatorError, Round) res)"
    using current_round_cur(2) [OF cur(1)] cur(2) by metis
  ultimately show ?thesis
    by (simp add: end_round_def Let_def del: rbind_eq_Ok cong: if_cong)
qed

lemma set_last_step_eq:
  assumes "es_start_timestamp (es c) + cc_epoch_time (c_config c) < 2 ^ 64" "pr_step (c_progress c) + 2 < 2 ^ 32"
  shows "\<exists>l. set_last_step now c = Ok (set_epoch_state (\<lambda>e. e\<lparr>es_last_step := l\<rparr>) c)"
proof -
  define b where "b = (es_start_timestamp (es c) \<noteq> now
    \<and> es_start_timestamp (es c) + cc_epoch_time (c_config c) \<le> now)"
  have b: "check_epoch_timeout c now = (Ok b :: (CoordinatorError, bool) res)"
    using assms(1) by (simp add: check_epoch_timeout_def u_add_def b_def)
  have "set_last_step now c = Ok (set_epoch_state (\<lambda>e. e\<lparr>es_last_step :=
      (if b \<and> \<not> last_step_set (es c) \<and> 4 \<le> pr_step (c_progress c) + 2 then pr_step (c_progress c) + 2
       else es_last_step (es c))\<rparr>) c)"
    using assms(2) by (auto simp: set_last_step_def b u_add_def set_epoch_state_def)
  then show ?thesis by blast
qed

lemma sat_end_round:
  assumes "coord_inv c" "c_run_state c = RoundWitness" "tick_room c"
  shows "sat (end_round now seed c) (\<lambda>c'. coord_inv c' \<and> c_run_state c' \<in> {RoundTrain, Cooldown})"
proof -
  have inv: "rounds_wf (es c)" "length (clients c) + length (es_exited_clients (es c)) \<le> 256"
      "config_wf (c_config c)" "pr_step (c_progress c) < cc_total_steps (c_config c)"
    using assms(1,2) by (auto simp: coord_inv_def)
  note cfg = config_wf_facts [OF inv(3)]
  have len: "length (clients (closed_round c)) + length (es_exited_clients (es (closed_round c))) \<le> 256"
    using closed_round_length inv(2) by simp
  show ?thesis
  proof (cases "rd_witnesses (cur c) = []")
    case True
    have "sat (start_cooldown now (withdraw_all (closed_round c))) (\<lambda>c'. coord_inv c' \<and> c_run_state c' = Cooldown)"
      using inv len assms(2) by (intro sat_start_cooldown) (simp_all add: withdraw_all_eq)
    then show ?thesis
      unfolding end_round_eq [OF assms(1,2)] using True by (auto elim: sat_mono)
  next
    case False
    let ?n = "length (rd_witnesses (cur c))"
    have room: "es_start_timestamp (es (closed_round c)) + cc_epoch_time (c_config (closed_round c)) < 2 ^ 64"
        "pr_step (c_progress (closed_round c)) + 2 < 2 ^ 32" "round_room c"
      using assms(3) inv(4) cfg(6) by (auto simp: tick_room_def round_room_def Let_def)
    obtain l where l: "set_last_step now (closed_round c)
        = Ok (set_epoch_state (\<lambda>e. e\<lparr>es_last_step := l\<rparr>) (closed_round c))"
      using set_last_step_eq [OF room(1,2)] by blast
    define c3 where "c3 = set_epoch_state (\<lambda>e. e\<lparr>es_last_step := l\<rparr>) (closed_round c)"
    have c3: "c_run_state c3 = RoundWitness" "c_config c3 = c_config c" "rounds_wf (es c3)" "cur c3 = cur c"
        "length (clients c3) + length (es_exited_clients (es c3)) \<le> 256" "round_room c3"
        "\<not> sb_is_true (es_first_round (es c3))"
      using inv len assms(2) room(3)
      by (simp_all add: c3_def set_epoch_state_def round_room_def get_sequence_length_def)
    have cool: "sat (start_cooldown now c3) (\<lambda>c'. coord_inv c' \<and> c_run_state c' = Cooldown)"
      using inv c3 by (intro sat_start_cooldown) simp_all
    have n: "?n \<le> 32" "0 < ?n"
      using inv(1) cur_in_rounds [OF inv(1)] False by (auto simp: rounds_wf_def list_all_iff)
    then obtain q where q: "witness_quorum (c_config c) ?n = (Ok q :: (CoordinatorError, nat) res)"
      using witness_quorum_eq [of ?n "c_config c"] cfg(5) by simp
    have train: "start_round_train now seed 0 c3 = (Ok (next_round now seed c3) :: (CoordinatorError, Coordinator) res)"
      using c3 cfg by (intro start_round_train_eq) auto
    have "coord_inv (next_round now seed c3)"
      if "cc_min_clients (c_config c) \<le> length (clients c3)" "pr_step (c_progress c3) < cc_total_steps (c_config c)"
      using that inv c3 False by (intro coord_inv_next_round) auto
    then have "sat (rbind (must_cooldown ?n c3) (\<lambda>stop.
        if stop then start_cooldown now c3 else start_round_train now seed 0 c3))
        (\<lambda>c'. coord_inv c' \<and> c_run_state c' \<in> {RoundTrain, Cooldown})"
      using cool by (auto simp: must_cooldown_def c3 q train elim: sat_mono)
    then show ?thesis
      unfolding end_round_eq [OF assms(1,2)] l rbind.simps c3_def [symmetric] if_not_P [OF False]
      using cool by (auto elim: sat_mono)
  qed
qed

lemma sat_tick_round_witness:
  assumes "coord_inv c" "c_run_state c = RoundWitness" "tick_room c"
  shows "sat (tick_round_witness now seed c) (\<lambda>(c', _). coord_inv c')"
proof -
  have "check_timeout c now (cc_round_witness_time (c_config c)) =
      (Ok (c_run_state_start_unix_timestamp c \<noteq> now \<and> cc_round_witness_time (c_config c) + c_run_state_start_unix_timestamp c \<le> now)
       :: (CoordinatorError, bool) res)"
    using assms(3) by (simp add: tick_room_def Let_def check_timeout_eq)
  then show ?thesis
    using assms sat_end_round [OF assms, of now seed] by (auto simp: tick_round_witness_def elim: sat_mono)
qed

lemma end_epoch_eq:
  assumes "coord_inv c" "tick_room c"
  shows "end_epoch now c =
    (let r = cur c;
         c1 = c\<lparr>c_progress := (c_progress c)\<lparr>pr_epoch_start_data_index := rd_data_index r
                  + get_batch_size (c_config c) (rd_data_index r * get_sequence_length c),
                pr_epoch := pr_epoch (c_progress c) + 1\<rparr>\<rparr>;
         c2 = exit_unhealthy (rd_height r) c1;
         c3 = set_checkpoint (upgrade_checkpoint (checkpoint (model_llm (c_model c2)))) c2 in
     if sb_is_true (c_pending_pause c3) then
       rbind (change_state now Paused (withdraw_all c3)) (\<lambda>c4.
         Ok (set_epoch_state (\<lambda>es. es\<lparr>es_cold_start_epoch := sb_new True\<rparr>) (c4\<lparr>c_pending_pause := sb_new False\<rparr>)))
     else rbind (start_waiting_for_members now c3) (\<lambda>c4.
         Ok (set_epoch_state (\<lambda>es. es\<lparr>es_cold_start_epoch := sb_new False\<rparr>) c4)))"
proof -
  have inv: "rounds_wf (es c)" "length (clients c) + length (es_exited_clients (es c)) \<le> 256"
      "cc_global_batch_size_end (c_config c) < 2 ^ 16"
    using assms(1) config_wf_facts(9) by (auto simp: coord_inv_def)
  define b where "b = get_batch_size (c_config c) (rd_data_index (cur c) * get_sequence_length c)"
  have "b < 2 ^ 16"
    using get_batch_size_u16 [OF inv(3)] by (simp add: b_def)
  then have room: "rd_data_index (cur c) * get_sequence_length c < 2 ^ 64" "rd_data_index (cur c) + b < 2 ^ 64"
      "pr_epoch (c_progress c) + 1 < 2 ^ 16"
    using assms(2) by (auto simp: tick_room_def Let_def)
  have batch: "get_target_global_batch_size c (current_round c) = (Ok b :: (CoordinatorError, nat) res)"
    using inv(1) room(1)
    by (simp add: get_target_global_batch_size_def total_tokens_processed_def current_round_cur u_mul_def b_def)
  have move: "move_clients_to_exited h (c\<lparr>c_progress := p\<rparr>) = (Ok (exit_unhealthy h (c\<lparr>c_progress := p\<rparr>))
      :: (CoordinatorError, Coordinator) res)" for h p
    using inv(2) by (simp add: move_clients_to_exited_eq)
  have add: "u_add 64 (rd_data_index (cur c)) b = (Ok (rd_data_index (cur c) + b) :: (CoordinatorError, nat) res)"
      "u_add 16 (pr_epoch (c_progress c)) 1 = (Ok (pr_epoch (c_progress c) + 1) :: (CoordinatorError, nat) res)"
    using room by (simp_all add: u_add_def)
  show ?thesis
    unfolding end_epoch_def batch current_round_cur(2) [OF inv(1)] add rbind.simps Let_def move
    by (simp only: b_def)
qed

lemma sat_end_epoch:
  assumes "coord_inv c" "c_run_state c = Cooldown" "tick_room c"
  shows "sat (end_epoch now c) (\<lambda>c'. coord_inv c' \<and> c_run_state c' \<in> {WaitingForMembers, Finished, Paused})"
proof -
  have inv: "rounds_wf (es c)" "length (clients c) + length (es_exited_clients (es c)) \<le> 256" "config_wf (c_config c)"
    using assms(1) by (auto simp: coord_inv_def)
  define c1 where "c1 = c\<lparr>c_progress := (c_progress c)\<lparr>pr_epoch_start_data_index := rd_data_index (cur c)
      + get_batch_size (c_config c) (rd_data_index (cur c) * get_sequence_length c), pr_epoch := pr_epoch (c_progress c) + 1\<rparr>\<rparr>"
  define c3 where "c3 = set_checkpoint (upgrade_checkpoint (checkpoint (model_llm
      (c_model (exit_unhealthy (rd_height (cur c)) c1))))) (exit_unhealthy (rd_height (cur c)) c1)"
  have c3: "c_config c3 = c_config c" "c_run_state c3 = Cooldown" "rounds_wf (es c3)"
      "length (clients c3) + length (es_exited_clients (es c3)) \<le> 256"
    using inv assms(2) exit_unhealthy_length [of "rd_height (cur c)" c1]
    by (simp_all add: c3_def c1_def set_checkpoint_def)
  show ?thesis
    unfolding end_epoch_eq [OF assms(1,3)] Let_def c1_def [symmetric] c3_def [symmetric]
    using c3 inv
    by (auto simp: start_waiting_for_members_def change_state_def assert_ok_def withdraw_all_eq
        set_epoch_state_def coord_inv_def)
qed

lemma sat_tick_cooldown:
  assumes "coord_inv c" "c_run_state c = Cooldown" "tick_room c"
  shows "sat (tick_cooldown now c) (\<lambda>(c', _). coord_inv c')"
proof -
  have "check_timeout c now (cc_cooldown_time (c_config c)) =
      (Ok (c_run_state_start_unix_timestamp c \<noteq> now \<and> cc_cooldown_time (c_config c) + c_run_state_start_unix_timestamp c \<le> now)
       :: (CoordinatorError, bool) res)"
    using assms(3) by (simp add: tick_room_def Let_def check_timeout_eq)
  then show ?thesis
    using assms sat_end_epoch [OF assms, of now] by (auto simp: tick_cooldown_def elim: sat_mono)
qed

lemma sat_tick:
  assumes "coord_inv c" "tick_room c"
  shows "sat (tick pending now seed c) (\<lambda>(c', _). coord_inv c')"
  using assms sat_tick_waiting sat_tick_warmup sat_tick_round_train sat_tick_round_witness sat_tick_cooldown
  by (cases "c_run_state c") (simp_all add: tick_def)

section \<open>Witnesses\<close>

definition sent_by :: "Client list \<Rightarrow> NodeIdentity \<Rightarrow> Witness \<Rightarrow> bool" where
  "sent_by cl from w = node_eq (client_id (cl ! wp_index (wt_proof w))) from"

lemma check_duplicate_witness_eq:
  "list_all (\<lambda>w. wp_index (wt_proof w) < length cl) ws \<Longrightarrow>
   check_duplicate_witness cl from ws = (if list_ex (sent_by cl from) ws then Err DuplicateWitness else Ok ())"
  by (induction ws) (simp_all add: slice_index_def guard_err_def sent_by_def)

lemma check_duplicate_witness_Ok:
  "check_duplicate_witness cl from ws = Ok () \<longleftrightarrow>
   list_all (\<lambda>w. wp_index (wt_proof w) < length cl \<and> \<not> sent_by cl from w) ws"
  by (induction ws) (auto simp: slice_index_def guard_err_def sent_by_def split: if_splits)

definition add_witness :: "Witness \<Rightarrow> Coordinator \<Rightarrow> Coordinator" where
  "add_witness w c = c\<lparr>c_epoch_state := (es c)\<lparr>es_rounds := (es_rounds (es c))[es_rounds_head (es c) :=
     (cur c)\<lparr>rd_witnesses := rd_witnesses (cur c) @ [w]\<rparr>]\<rparr>\<rparr>"

lemma store_witness_eq:
  assumes "rounds_wf (es c)"
  shows "store_witness from w c =
     rbind (check_duplicate_witness (clients c) from (rd_witnesses (cur c))) (\<lambda>_.
       if length (rd_witnesses (cur c)) < 32 then Ok (add_witness w c, length (rd_witnesses (cur c)) + 1)
       else Err WitnessesFull)"
  using assms
  by (simp add: store_witness_def current_round_cur current_round_mut_cur vec_push_def add_witness_def
      SOLANA_MAX_NUM_WITNESSES_def del: rbind_eq_Ok cong: if_cong)

lemma add_witness_simps [simp]:
  "c_run_state (add_witness w c) = c_run_state c" "c_config (add_witness w c) = c_config c"
  "c_progress (add_witness w c) = c_progress c" "clients (add_witness w c) = clients c"
  "es_exited_clients (es (add_witness w c)) = es_exited_clients (es c)"
  "es_first_round (es (add_witness w c)) = es_first_round (es c)"
  by (simp_all add: add_witness_def)

lemma cur_add_witness:
  "rounds_wf (es c) \<Longrightarrow> cur (add_witness w c) = (cur c)\<lparr>rd_witnesses := rd_witnesses (cur c) @ [w]\<rparr>"
  by (simp add: cur_def add_witness_def rounds_wf_def)

lemma rounds_wf_add_witness:
  assumes "rounds_wf (es c)" "length (rd_witnesses (cur c)) < 32"
  shows "rounds_wf (es (add_witness w c))"
  unfolding add_witness_def
  using rounds_wf_update_witnesses [OF assms(1), of "rd_witnesses (cur c) @ [w]"] assms(2) by simp

lemma coord_inv_add_witness:
  assumes "coord_inv c" "length (rd_witnesses (cur c)) < 32" "wp_index (wt_proof w) < length (clients c)"
  shows "coord_inv (add_witness w c)"
  using assms rounds_wf_add_witness [of c w] cur_add_witness [of c w] by (auto simp: coord_inv_def)

lemma verify_client_index: "verify_client i k cl \<Longrightarrow> k < length cl"
  by (auto simp: verify_client_def slice_get_def split: if_splits)

lemma warmup_witness_inv:
  assumes "coord_inv c" "warmup_witness from w now seed c = Ok c'"
  shows "coord_inv c'"
proof -
  have inv: "rounds_wf (es c)" "config_wf (c_config c)" "length (clients c) + length (es_exited_clients (es c)) \<le> 256"
    using assms(1) by (auto simp: coord_inv_def)
  show ?thesis
  proof (cases "c_run_state c = Warmup")
    case False
    then show ?thesis
      using assms by (auto simp: warmup_witness_def split: if_splits)
  next
    case True
    then have idx: "wp_index (wt_proof w) < length (clients c)"
        and res: "rbind (store_witness from w c) (\<lambda>(c', n). if n = expected_witnesses c
          then start_round_train now seed 0 c' else Ok c') = Ok c'"
      using assms(2) by (auto simp: warmup_witness_def halted_def verify_client_index simp del: rbind_eq_Ok split: if_splits)
    then have full: "length (rd_witnesses (cur c)) < 32"
        and c': "(if length (rd_witnesses (cur c)) + 1 = expected_witnesses c
          then start_round_train now seed 0 (add_witness w c) else Ok (add_witness w c))
            = (Ok c' :: (CoordinatorError, Coordinator) res)"
      by (auto simp: store_witness_eq [OF inv(1)] split: if_splits)
    have wf: "rounds_wf (es (add_witness w c))" "sb_is_true (es_first_round (es (add_witness w c)))"
      using rounds_wf_add_witness [OF inv(1) full] assms(1) True by (auto simp: coord_inv_def)
    have "start_round_train now seed 0 (add_witness w c)
        = (Ok (next_round now seed (add_witness w c)) :: (CoordinatorError, Coordinator) res)"
      using wf True inv config_wf_facts(9) [OF inv(2)] by (intro start_round_train_eq) auto
    moreover have "coord_inv (next_round now seed (add_witness w c))"
      using wf True inv assms(1) by (intro coord_inv_next_round) (auto simp: coord_inv_def)
    ultimately show ?thesis
      using c' coord_inv_add_witness [OF assms(1) full idx] by (auto split: if_splits)
  qed
qed

lemma cs_from_coordinator_current:
  assumes "coord_inv c" "c_run_state c \<in> {RoundTrain, RoundWitness}"
  shows "cs_from_coordinator X c 0 = cs_new X 0 (cc_witness_nodes (c_config c)) (cc_verification_percent (c_config c))
     (length (clients c)) (rd_random_seed (cur c))"
proof -
  have "rounds_wf (es c)" "rd_clients_len (cur c) = length (clients c)"
    using assms by (auto simp: coord_inv_def)
  moreover have "rd_tie_breaker_tasks (cur c) = 0"
    using calculation(1) cur_in_rounds [OF calculation(1)] by (auto simp: rounds_wf_def list_all_iff)
  ultimately show ?thesis
    by (simp add: cs_from_coordinator_def round_at_offset_def current_round_cur)
qed

lemma submit_witness_cases:
  assumes "coord_inv c"
  shows "(\<exists>e. submit_witness X from w now c = Err e)
     \<or> (\<exists>sel. c_run_state c \<in> {RoundTrain, RoundWitness}
          \<and> cs_from_coordinator X c 0 = Ok sel \<and> cs_total_nodes sel = length (clients c)
          \<and> wp_index (wt_proof w) < length (clients c)
          \<and> signer (client_id (clients c ! wp_index (wt_proof w))) = signer from
          \<and> get_witness X sel (wp_index (wt_proof w)) = (Ok (wt_proof w) :: (unit, WitnessProof) res)
          \<and> sb_is_true (wp_witness (wt_proof w))
          \<and> \<not> list_ex (sent_by (clients c) from) (rd_witnesses (cur c))
          \<and> length (rd_witnesses (cur c)) < 32
          \<and> submit_witness X from w now c = Ok (if length (rd_witnesses (cur c)) + 1 = expected_witnesses c
                \<and> c_run_state c \<noteq> RoundWitness
              then (add_witness w c)\<lparr>c_run_state_start_unix_timestamp := now, c_run_state := RoundWitness\<rparr>
              else add_witness w c))"
proof (cases "c_run_state c \<in> {RoundTrain, RoundWitness}")
  case True
  have inv: "rounds_wf (es c)" "length (clients c) \<le> 256"
      "list_all (\<lambda>w. wp_index (wt_proof w) < length (clients c)) (rd_witnesses (cur c))"
    using assms True by (auto simp: coord_inv_def)
  note sel_eq = cs_from_coordinator_current [OF assms True]
  have lt: "length (clients c) < 2 ^ 57"
    using inv(2) by simp
  show ?thesis
  proof (cases "cs_from_coordinator X c 0")
    case Panic
    then show ?thesis using cs_new_ok(2) [OF lt] by (simp add: sel_eq)
  next
    case (Err e)
    then show ?thesis using True by (auto simp: submit_witness_def halted_def)
  next
    case (Ok sel)
    have wf: "cs_wf sel" "cs_total_nodes sel = length (clients c)"
      using cs_new_wf [OF Ok [unfolded sel_eq] lt] by auto
    define valid where "valid = (wp_index (wt_proof w) < length (clients c)
        \<and> signer (client_id (clients c ! wp_index (wt_proof w))) = signer from
        \<and> get_witness X sel (wp_index (wt_proof w)) = (Ok (wt_proof w) :: (unit, WitnessProof) res))"
    have v: "verify_witness_for_client X sel from (wt_proof w) (clients c) = (Ok valid :: (CoordinatorError, bool) res)"
      by (cases "wp_index (wt_proof w) < length (clients c)")
        (simp_all add: verify_witness_for_client_def verify_client_def slice_get_def valid_def wf
          verify_witness_iff [where 'e = unit] node_eq_def)
    have "submit_witness X from w now c =
        rbind (guard_err (\<not> valid \<or> sb_is_false (wp_witness (wt_proof w))) InvalidWitness) (\<lambda>_.
        rbind (store_witness from w c) (\<lambda>(c', n). if n = expected_witnesses c \<and> c_run_state c \<noteq> RoundWitness
          then change_state now RoundWitness c' else Ok c'))"
      using True by (auto simp: submit_witness_def halted_def Ok v simp del: rbind_eq_Ok)
    then show ?thesis
      using True Ok wf inv(3)
      by (auto simp: guard_err_def store_witness_eq [OF inv(1)] check_duplicate_witness_eq valid_def
          change_state_def assert_ok_def)
  qed
qed (auto simp: submit_witness_def)

lemma submit_witness_complete:
  assumes "coord_inv c" "c_run_state c \<in> {RoundTrain, RoundWitness}" "cs_from_coordinator X c 0 = Ok sel"
    "wp_index (wt_proof w) < length (clients c)" "signer (client_id (clients c ! wp_index (wt_proof w))) = signer from"
    "get_witness X sel (wp_index (wt_proof w)) = (Ok (wt_proof w) :: (unit, WitnessProof) res)"
    "sb_is_true (wp_witness (wt_proof w))" "\<not> list_ex (sent_by (clients c) from) (rd_witnesses (cur c))"
    "length (rd_witnesses (cur c)) < 32"
  shows "\<exists>c'. submit_witness X from w now c = Ok c'"
proof -
  have inv: "rounds_wf (es c)" "length (clients c) \<le> 256"
      "list_all (\<lambda>w. wp_index (wt_proof w) < length (clients c)) (rd_witnesses (cur c))"
    using assms(1,2) by (auto simp: coord_inv_def)
  then have "cs_wf sel" "cs_total_nodes sel = length (clients c)"
    using cs_new_wf [OF assms(3) [unfolded cs_from_coordinator_current [OF assms(1,2)]]] by auto
  then have "verify_witness_for_client X sel from (wt_proof w) (clients c) = (Ok True :: (CoordinatorError, bool) res)"
    using assms by (simp add: verify_witness_for_client_def verify_client_def slice_get_def
        verify_witness_iff [where 'e = unit] node_eq_def)
  then show ?thesis
    using assms inv(3)
    by (auto simp: submit_witness_def halted_def guard_err_def store_witness_eq [OF inv(1)] check_duplicate_witness_eq
        change_state_def assert_ok_def)
qed

section \<open>Health checks\<close>

definition vouchers :: "externs \<Rightarrow> NodeIdentity \<Rightarrow> Witness list \<Rightarrow> nat" where
  "vouchers X i ws = length (filter (\<lambda>w. bloom_contains X (wt_participant_bloom w) (sha256 X (signer i))) ws)"

lemma score_by_witnesses_eq:
  "score + length ws < 2 ^ 16 \<Longrightarrow> score_by_witnesses X hash ws score =
     Ok (score + length (filter (\<lambda>w. bloom_contains X (wt_participant_bloom w) hash) ws))"
  by (induction ws arbitrary: score) (simp_all add: u_add_def)

lemma trainer_healthy_score_eq:
  "length ws < 2 ^ 16 \<Longrightarrow> trainer_healthy_score_by_witnesses X i ws = Ok (vouchers X i ws)"
  by (simp add: trainer_healthy_score_by_witnesses_def score_by_witnesses_eq vouchers_def)

lemma prev_round_facts:
  assumes "coord_inv c" "previous_round c = Some r"
  shows "length (rd_witnesses r) \<le> 32" "rd_witnesses r \<noteq> []" "rd_clients_len r \<le> 256" "rd_tie_breaker_tasks r = 0"
proof -
  have wf: "rounds_wf (es c)"
    using assms(1) by (simp add: coord_inv_def)
  then have r: "rd_height (cur c) \<noteq> 0" "r = es_rounds (es c) ! prev_pos (es_rounds_head (es c))"
    using assms(2) by (auto simp: previous_round_cur split: if_splits)
  have "r \<in> set (es_rounds (es c))"
    unfolding r(2) using wf by (intro nth_mem) (auto simp: rounds_wf_def prev_pos_def)
  then show "length (rd_witnesses r) \<le> 32" "rd_clients_len r \<le> 256" "rd_tie_breaker_tasks r = 0"
    using wf by (auto simp: rounds_wf_def list_all_iff)
  show "rd_witnesses r \<noteq> []"
    using wf r by (auto simp: rounds_wf_def cur_def)
qed

definition quorum_of :: "CoordinatorConfig \<Rightarrow> nat \<Rightarrow> nat" where
  "quorum_of cfg n = (let w = (if cc_witness_nodes cfg = 0 then n else cc_witness_nodes cfg)
     in if w = 1 then 1 else if w = 2 then 2 else 2 * w div 3)"

lemma trainer_healthy_eq:
  assumes "coord_inv c" "previous_round c = Some r"
  shows "trainer_healthy X i c = Ok (quorum_of (c_config c) (length (rd_witnesses r)) \<le> vouchers X i (rd_witnesses r))"
proof -
  note f = prev_round_facts [OF assms]
  have "cc_witness_nodes (c_config c) < 2 ^ 16"
    using assms(1) config_wf_facts(5) [of "c_config c"] by (simp add: coord_inv_def)
  then have "witness_quorum (c_config c) (length (rd_witnesses r))
      = (Ok (quorum_of (c_config c) (length (rd_witnesses r))) :: (CoordinatorError, nat) res)"
    using f by (subst witness_quorum_eq) (auto simp: quorum_of_def Let_def)
  then show ?thesis
    using f assms(2) by (simp add: trainer_healthy_def trainer_healthy_score_eq length_u16)
qed

text \<open>What it takes for a health check to convict: the genuine role of the index is trainer, and too few witnesses vouch.\<close>

definition convicted :: "externs \<Rightarrow> NodeIdentity \<Rightarrow> CommitteeProof \<Rightarrow> Coordinator \<Rightarrow> bool" where
  "convicted X i pf c = (\<exists>r sel. previous_round c = Some r \<and> cs_from_coordinator X c (-1) = Ok sel
     \<and> cp_index pf < rd_clients_len r \<and> cp_index pf < length (clients c)
     \<and> signer (client_id (clients c ! cp_index pf)) = signer i
     \<and> get_committee X sel (cp_index pf) = (Ok pf :: (unit, CommitteeProof) res) \<and> cp_committee pf = Trainer
     \<and> vouchers X (client_id (clients c ! cp_index pf)) (rd_witnesses r)
         < quorum_of (c_config c) (length (rd_witnesses r)))"

lemma healthy_sat:
  assumes "coord_inv c"
  shows "sat (healthy X i pf c) (\<lambda>h. \<not> h \<longrightarrow> convicted X i pf c)"
proof (cases "previous_round c")
  case None
  then show ?thesis by (simp add: healthy_def)
next
  case (Some r)
  note f = prev_round_facts [OF assms Some]
  have sel: "cs_from_coordinator X c (-1) = cs_new X 0 (cc_witness_nodes (c_config c))
      (cc_verification_percent (c_config c)) (rd_clients_len r) (rd_random_seed r)"
    using Some f by (simp add: cs_from_coordinator_def round_at_offset_def)
  have lt: "rd_clients_len r < 2 ^ 57"
    using f by simp
  show ?thesis
  proof (cases "cp_index pf < rd_clients_len r")
    case True
    show ?thesis
    proof (cases "get_client_at_historical_index c (cp_index pf) (rd_clients_len r)")
      case None
      then show ?thesis using Some True by (simp add: healthy_def)
    next
      case client: (Some client)
      show ?thesis
      proof (cases "cs_from_coordinator X c (-1)")
        case Panic
        then show ?thesis using cs_new_ok(2) [OF lt] by (simp add: sel)
      next
        case (Err e)
        then show ?thesis using Some True client by (simp add: healthy_def)
      next
        case (Ok sel')
        have wf: "cs_wf sel'" "cs_total_nodes sel' = rd_clients_len r"
          using cs_new_wf [OF Ok [unfolded sel] lt] by auto
        show ?thesis
        proof (cases "cp_index pf < length (clients c)")
          case False
          then show ?thesis
            using Some True client Ok
            by (simp add: healthy_def verify_committee_for_client_def verify_client_def slice_get_def guard_err_def)
        next
          case idx: True
          then have cl: "client = clients c ! cp_index pf"
            using client by (simp add: get_client_at_historical_index_def)
          show ?thesis
            using Some True client Ok idx wf
            by (auto simp: healthy_def verify_committee_for_client_def verify_client_def slice_get_def guard_err_def
                cl verify_committee_iff [where 'e = unit] node_eq_def trainer_healthy_eq [OF assms Some]
                convicted_def not_le split: Committee.splits)
        qed
      qed
    qed
  qed (use Some in \<open>simp add: healthy_def\<close>)
qed

lemma all_unhealthy_sat:
  "coord_inv c \<Longrightarrow> sat (all_unhealthy X checks c) (\<lambda>_. \<forall>ch\<in>set checks. convicted X (fst ch) (snd ch) c)"
proof (induction checks)
  case (Cons ch checks)
  have "sat (healthy X (fst ch) (snd ch) c) (\<lambda>h. sat (guard_err h InvalidHealthCheck)
      (\<lambda>_. sat (all_unhealthy X checks c) (\<lambda>_. \<forall>ch\<in>set (ch # checks). convicted X (fst ch) (snd ch) c)))"
    using healthy_sat [OF Cons.prems, of X "fst ch" "snd ch"]
    by (rule sat_mono) (use Cons in \<open>auto simp: guard_err_def elim: sat_mono\<close>)
  then show ?case by simp
qed simp

definition mark_dropped :: "nat set \<Rightarrow> Client list \<Rightarrow> Client list" where
  "mark_dropped S cl = map (\<lambda>k. if k \<in> S \<and> client_state (cl ! k) = Healthy
     then (cl ! k)\<lparr>client_state := Dropped\<rparr> else cl ! k) [0..<length cl]"

definition healthy_at :: "Client list \<Rightarrow> nat set" where
  "healthy_at cl = {k. k < length cl \<and> client_state (cl ! k) = Healthy}"

lemma mark_dropped_nth:
  "k < length cl \<Longrightarrow> mark_dropped S cl ! k = (if k \<in> S \<and> client_state (cl ! k) = Healthy
     then (cl ! k)\<lparr>client_state := Dropped\<rparr> else cl ! k)"
  by (simp add: mark_dropped_def)

lemma length_mark_dropped [simp]: "length (mark_dropped S cl) = length cl"
  by (simp add: mark_dropped_def)

lemma mark_dropped_empty: "mark_dropped {} cl = cl"
  by (simp add: mark_dropped_def map_nth)

lemma mark_dropped_insert:
  "k < length cl \<Longrightarrow> client_state (cl ! k) = Healthy \<Longrightarrow>
   mark_dropped S (cl[k := (cl ! k)\<lparr>client_state := Dropped\<rparr>]) = mark_dropped (insert k S) cl"
  by (rule nth_equalityI) (auto simp: mark_dropped_nth nth_list_update)

lemma mark_dropped_skip:
  "client_state (cl ! k) \<noteq> Healthy \<Longrightarrow> mark_dropped (insert k S) cl = mark_dropped S cl"
  by (rule nth_equalityI) (auto simp: mark_dropped_nth)

lemma finite_healthy_at [simp]: "finite (healthy_at cl)"
  by (simp add: healthy_at_def)

lemma healthy_at_update:
  "k < length cl \<Longrightarrow> healthy_at (cl[k := (cl ! k)\<lparr>client_state := Dropped\<rparr>]) = healthy_at cl - {k}"
  by (auto simp: healthy_at_def nth_list_update)

lemma drop_clients_eq:
  assumes "\<forall>ch\<in>set checks. cp_index (snd ch) < length (clients c)" "dropped + card (healthy_at (clients c)) < 2 ^ 32"
  shows "(drop_clients checks c dropped :: ('e, Coordinator \<times> nat) res) = Ok
     (c\<lparr>c_epoch_state := (es c)\<lparr>es_clients := mark_dropped ((\<lambda>ch. cp_index (snd ch)) ` set checks) (clients c)\<rparr>\<rparr>,
      dropped + card ((\<lambda>ch. cp_index (snd ch)) ` set checks \<inter> healthy_at (clients c)))"
  using assms
proof (induction checks arbitrary: c dropped)
  case Nil
  then show ?case by (simp add: mark_dropped_empty)
next
  case (Cons ch checks)
  let ?k = "cp_index (snd ch)" and ?I = "(\<lambda>ch. cp_index (snd ch)) ` set checks"
  have k: "?k < length (clients c)"
    using Cons.prems by simp
  show ?case
  proof (cases "client_state (clients c ! ?k) = Healthy")
    case False
    then have "insert ?k ?I \<inter> healthy_at (clients c) = ?I \<inter> healthy_at (clients c)"
      by (auto simp: healthy_at_def)
    then show ?thesis
      using False k Cons by (simp add: slice_index_def mark_dropped_skip Let_def)
  next
    case True
    let ?c = "c\<lparr>c_epoch_state := (es c)\<lparr>es_clients := (clients c)[?k := (clients c ! ?k)\<lparr>client_state := Dropped\<rparr>]\<rparr>\<rparr>"
    have set: "set_client_state ?k Dropped c = ?c"
      using k by (simp add: set_client_state_def set_epoch_state_def update_at_def)
    have kH: "?k \<in> healthy_at (clients c)"
      using True k by (simp add: healthy_at_def)
    then have card1: "card (healthy_at (clients c) - {?k}) + 1 = card (healthy_at (clients c))"
      by (simp add: card_Diff_singleton_if card_gt_0_iff Suc_leI)
        (metis Suc_pred card_gt_0_iff empty_iff finite_healthy_at)
    have "insert ?k ?I \<inter> healthy_at (clients c) = insert ?k (?I \<inter> (healthy_at (clients c) - {?k}))"
      using kH by auto
    then have card2: "card (insert ?k ?I \<inter> healthy_at (clients c)) = Suc (card (?I \<inter> (healthy_at (clients c) - {?k})))"
      by (simp add: card_insert_disjoint)
    have "(drop_clients checks ?c (dropped + 1) :: ('e, Coordinator \<times> nat) res) = Ok
       (?c\<lparr>c_epoch_state := (es ?c)\<lparr>es_clients := mark_dropped ?I (clients ?c)\<rparr>\<rparr>,
        dropped + 1 + card (?I \<inter> healthy_at (clients ?c)))"
      using Cons.prems k card1 by (intro Cons.IH) (simp_all add: healthy_at_update)
    then show ?thesis
      using True k Cons.prems(2) card1 card2
      by (simp add: slice_index_def u_add_def set mark_dropped_insert healthy_at_update Let_def)
  qed
qed

lemma card_healthy_at: "card (healthy_at cl) \<le> length cl"
  using card_mono [of "{..<length cl}" "healthy_at cl"] by (auto simp: healthy_at_def)

lemma health_check_sat:
  assumes "coord_inv c"
  shows "sat (health_check X checks c) (\<lambda>(c', n). (\<forall>ch\<in>set checks. convicted X (fst ch) (snd ch) c)
     \<and> c' = c\<lparr>c_epoch_state := (es c)\<lparr>es_clients := mark_dropped ((\<lambda>ch. cp_index (snd ch)) ` set checks) (clients c)\<rparr>\<rparr>
     \<and> n = card ((\<lambda>ch. cp_index (snd ch)) ` set checks \<inter> healthy_at (clients c)))"
proof -
  have wf: "rounds_wf (es c)" "length (clients c) \<le> 256"
    using assms by (auto simp: coord_inv_def)
  have "card (healthy_at (clients c)) < 2 ^ 32"
    using card_healthy_at [of "clients c"] wf(2) by simp
  then have "drop_clients checks c 0 = (Ok
     (c\<lparr>c_epoch_state := (es c)\<lparr>es_clients := mark_dropped ((\<lambda>ch. cp_index (snd ch)) ` set checks) (clients c)\<rparr>\<rparr>,
      card ((\<lambda>ch. cp_index (snd ch)) ` set checks \<inter> healthy_at (clients c))) :: (CoordinatorError, Coordinator \<times> nat) res)"
    if "\<forall>ch\<in>set checks. convicted X (fst ch) (snd ch) c"
    using that by (subst drop_clients_eq) (auto simp: convicted_def)
  then show ?thesis
    using all_unhealthy_sat [OF assms, of X checks]
    by (auto simp: health_check_def current_round_cur wf guard_err_def elim!: sat_mono)
qed

lemma coord_inv_mark_dropped:
  "coord_inv c \<Longrightarrow> coord_inv (c\<lparr>c_epoch_state := (es c)\<lparr>es_clients := mark_dropped S (clients c)\<rparr>\<rparr>)"
  by (simp add: coord_inv_def)

lemma sat_health_check: "coord_inv c \<Longrightarrow> sat (health_check X checks c) (\<lambda>(c', _). coord_inv c')"
  using health_check_sat [of c X checks] by (auto elim!: sat_mono simp: coord_inv_mark_dropped)

end
