(* ===== verification/Coordinator_Props.thy ===== *)
theory Coordinator_Props
  imports Coordinator_Inv
begin

text \<open>
  The coordinator as a transition system and its properties. \<open>coord_step\<close> has one rule per operation
  of the API; \<open>coord_inv\<close> holds along every sequence of steps by rule induction, and with it no
  operation that is applied to a reached state panics.
\<close>

section \<open>The transition system\<close>

inductive coord_step :: "externs \<Rightarrow> Coordinator \<Rightarrow> Coordinator \<Rightarrow> bool" for X where
  step_tick: "tick_room c \<Longrightarrow> tick pending now seed c = Ok (c', r) \<Longrightarrow> coord_step X c c'"
| step_warmup_witness: "warmup_witness from w now seed c = Ok c' \<Longrightarrow> coord_step X c c'"
| step_witness: "submit_witness X from w now c = Ok c' \<Longrightarrow> coord_step X c c'"
| step_health_check: "health_check X checks c = Ok (c', n) \<Longrightarrow> coord_step X c c'"
| step_withdraw: "withdraw i c = Ok c' \<Longrightarrow> coord_step X c c'"
| step_eject: "eject i c = Ok c' \<Longrightarrow> coord_step X c c'"
| step_pause: "pause now c = Ok c' \<Longrightarrow> coord_step X c c'"
| step_resume: "resume now c = Ok c' \<Longrightarrow> coord_step X c c'"
| step_checkpoint: "record_checkpoint from i repo c = Ok c' \<Longrightarrow> coord_step X c c'"

text \<open>A small run used in the concrete instances below.\<close>

definition demo_config :: CoordinatorConfig where
  "demo_config = \<lparr>cc_warmup_time = 10, cc_cooldown_time = 10, cc_max_round_train_time = 20,
     cc_round_witness_time = 10, cc_global_batch_size_warmup_tokens = 0, cc_epoch_time = 100,
     cc_total_steps = 50, cc_init_min_clients = 2, cc_min_clients = 1, cc_witness_nodes = 0,
     cc_global_batch_size_start = 4, cc_global_batch_size_end = 8, cc_verification_percent = 0,
     cc_waiting_for_members_extra_time = 3\<rparr>"

definition demo_node :: "8 word \<Rightarrow> NodeIdentity" where
  "demo_node b = \<lparr>signer = [b], p2p_identity = [b]\<rparr>"

definition demo_coordinator :: Coordinator where
  "demo_coordinator = \<lparr>c_run_id = [], c_run_state = WaitingForMembers, c_model = Model_LLM LLM_dummy,
     c_config = demo_config, c_progress = Progress_default, c_epoch_state = EpochState_default,
     c_run_state_start_unix_timestamp = 0, c_pending_pause = 0\<rparr>"

section \<open>Reachable states\<close>

lemma submit_witness_inv:
  assumes "coord_inv c"
  shows "sat (submit_witness X from w now c) coord_inv"
  using submit_witness_cases [OF assms, of X "from" w now]
proof (elim disjE exE conjE)
  fix sel
  assume st: "c_run_state c \<in> {RoundTrain, RoundWitness}"
    and h: "wp_index (wt_proof w) < length (clients c)" "length (rd_witnesses (cur c)) < 32"
    and eq: "submit_witness X from w now c = Ok (if length (rd_witnesses (cur c)) + 1 = expected_witnesses c
                \<and> c_run_state c \<noteq> RoundWitness
              then (add_witness w c)\<lparr>c_run_state_start_unix_timestamp := now, c_run_state := RoundWitness\<rparr>
              else add_witness w c)"
  have "coord_inv (add_witness w c)"
    using coord_inv_add_witness [OF assms h(2,1)] .
  then have "coord_inv ((add_witness w c)\<lparr>c_run_state_start_unix_timestamp := now, c_run_state := RoundWitness\<rparr>)"
    using st by (auto simp: coord_inv_def)
  with \<open>coord_inv (add_witness w c)\<close> show ?thesis
    unfolding eq by simp
qed simp

lemma coord_step_inv: "coord_step X c c' \<Longrightarrow> coord_inv c \<Longrightarrow> coord_inv c'"
proof (induction rule: coord_step.induct)
  case (step_tick c pending now seed c' r)
  then show ?case using sat_tick [of c pending now seed] by simp
next
  case (step_warmup_witness "from" w now seed c c')
  then show ?case by (rule warmup_witness_inv [rotated])
next
  case (step_witness "from" w now c c')
  then show ?case using submit_witness_inv [of c X "from" w now] by simp
next
  case (step_health_check checks c c' n)
  then show ?case using sat_health_check [of c X checks] by simp
next
  case (step_withdraw i c c')
  then show ?case using sat_withdraw [of c i] by simp
next
  case (step_eject i c c')
  then show ?case using sat_eject [of c i] by simp
next
  case (step_pause now c c')
  then show ?case using sat_pause [of c now] by simp
next
  case (step_resume now c c')
  then show ?case using sat_resume [of c now] by simp
next
  case (step_checkpoint "from" i repo c c')
  then show ?case using sat_record_checkpoint [of c "from" i repo] by simp
qed

lemma coord_steps_inv: "(coord_step X)\<^sup>*\<^sup>* c c' \<Longrightarrow> coord_inv c \<Longrightarrow> coord_inv c'"
  by (induction rule: rtranclp_induct) (auto intro: coord_step_inv)

lemma demo_inv: "coord_inv demo_coordinator" "tick_room demo_coordinator"
  by (simp_all add: coord_inv_def tick_room_def demo_coordinator_def demo_config_def config_wf_def config_check_def
      check_error_def guard_err_def SOLANA_MAX_NUM_CLIENTS_def SOLANA_MAX_NUM_WITNESSES_def rounds_wf_def
      EpochState_default_def NUM_STORED_ROUNDS_def Round_default_def Progress_default_def list_all_iff
      cur_def get_sequence_length_def LLM_dummy_def)

text \<open>
  (C1) No operation brings the coordinator down. Along every sequence of operations from a state
  that satisfies the invariant, the invariant holds, and on the state reached no tick (with room in
  the time, data and epoch counters), witness, health check, withdrawal, ejection, pause, resume or
  checkpoint can panic: no index is out of range, no \<open>FixedVec\<close> overflows, no integer wraps, and
  \<open>change_state\<close> never re-enters the state it is in.
\<close>

theorem coordinator_never_panics:
  assumes "(coord_step X)\<^sup>*\<^sup>* c0 c" "coord_inv c0"
  shows "coord_inv c
     \<and> (tick_room c \<longrightarrow> tick pending now seed c \<noteq> Panic)
     \<and> submit_witness X from w now c \<noteq> Panic \<and> health_check X checks c \<noteq> Panic
     \<and> withdraw i c \<noteq> Panic \<and> eject i c \<noteq> Panic \<and> pause now c \<noteq> Panic \<and> resume now c \<noteq> Panic
     \<and> record_checkpoint from i repo c \<noteq> Panic"
proof -
  have inv: "coord_inv c"
    using coord_steps_inv assms by blast
  then show ?thesis
    using sat_tick [of c pending now seed] submit_witness_inv [of c X "from" w now] sat_health_check [of c X checks]
      sat_withdraw [of c i] sat_eject [of c i] sat_pause [of c now] sat_resume [of c now]
      sat_record_checkpoint [of c "from" i repo]
    by (auto dest!: sat_no_panic)
qed

lemma demo_epoch:
  "\<exists>c. tick (Some [demo_node 1, demo_node 2]) 5 9 demo_coordinator = Ok (c, Ticked) \<and> c_run_state c = Warmup
     \<and> c_run_state_start_unix_timestamp c = 5 \<and> c_config c = demo_config \<and> c_progress c = Progress_default
     \<and> clients c = [client_new (demo_node 1), client_new (demo_node 2)] \<and> tick_room c"
proof -
  have st: "c_run_state demo_coordinator = WaitingForMembers"
    by (simp add: demo_coordinator_def)
  obtain c where b: "begin_epoch [demo_node 1, demo_node 2] 5 demo_coordinator = Ok c" and c: "c_run_state c = Warmup"
      "c_run_state_start_unix_timestamp c = 5" "c_config c = demo_config" "c_progress c = Progress_default"
      "es c = EpochState_zeroed\<lparr>es_first_round := sb_new True,
          es_cold_start_epoch := es_cold_start_epoch (es demo_coordinator), es_start_step := 1, es_start_timestamp := 5,
          es_clients := map client_new (take 256 [demo_node 1, demo_node 2])\<rparr>"
    using begin_epoch_eq [OF demo_inv(1) st, of "[demo_node 1, demo_node 2]" 5]
    by (auto simp: demo_coordinator_def Progress_default_def)
  have "check_timeout demo_coordinator 5 3 = (Ok True :: (CoordinatorError, bool) res)"
    by (simp add: check_timeout_def demo_coordinator_def u_add_def)
  moreover have "cc_init_min_clients (c_config demo_coordinator) = 2"
      "cc_waiting_for_members_extra_time (c_config demo_coordinator) = 3"
    by (simp_all add: demo_coordinator_def demo_config_def)
  ultimately have "tick (Some [demo_node 1, demo_node 2]) 5 9 demo_coordinator = Ok (c, Ticked)"
    using b by (auto simp: tick_def st tick_waiting_for_members_def u_cast_def)
  moreover have "cur c = Round_default"
    by (simp add: cur_def c EpochState_zeroed_def EpochState_default_def NUM_STORED_ROUNDS_def)
  then have "tick_room c"
    by (simp add: tick_room_def Let_def c demo_config_def Round_default_def Progress_default_def)
  ultimately show ?thesis
    using c by (intro exI [of _ c]) simp
qed

theorem coordinator_never_panics_witness:
  "\<exists>X c. (coord_step X)\<^sup>*\<^sup>* demo_coordinator c \<and> c_run_state c = Warmup \<and> length (clients c) = 2 \<and> coord_inv c
     \<and> tick None 20 7 c \<noteq> Panic"
proof -
  obtain X :: externs where "True" by simp
  obtain c where c: "tick (Some [demo_node 1, demo_node 2]) 5 9 demo_coordinator = Ok (c, Ticked)"
      "c_run_state c = Warmup" "length (clients c) = 2" "tick_room c"
    using demo_epoch by auto
  then have steps: "(coord_step X)\<^sup>*\<^sup>* demo_coordinator c"
    using step_tick [OF demo_inv(2) c(1), of X] by blast
  show ?thesis
    using coordinator_never_panics [OF steps demo_inv(1), of None 20 7] steps c by blast
qed

section \<open>The phases of a run\<close>

lemma start_round_train_state:
  "start_round_train now seed t c = Ok c' \<Longrightarrow> c_run_state c' = RoundTrain"
  by (auto simp: start_round_train_def Let_def change_state_def assert_ok_def split: if_splits)

lemma move_clients_state:
  "move_clients_to_exited h c = Ok c' \<Longrightarrow> c_run_state c' = c_run_state c"
  by (auto simp: move_clients_to_exited_def set_epoch_state_def)

lemma start_cooldown_state: "start_cooldown now c = Ok c' \<Longrightarrow> c_run_state c' = Cooldown"
  by (auto simp: start_cooldown_def change_state_def assert_ok_def split: if_splits)

lemma start_waiting_state:
  "start_waiting_for_members now c = Ok c' \<Longrightarrow> c_run_state c' \<in> {WaitingForMembers, Finished}"
  by (auto simp: start_waiting_for_members_def change_state_def assert_ok_def split: if_splits)

lemma end_round_state: "end_round now seed c = Ok c' \<Longrightarrow> c_run_state c' \<in> {RoundTrain, Cooldown}"
  by (auto simp: end_round_def Let_def dest!: start_round_train_state start_cooldown_state split: if_splits)

lemma begin_epoch_state: "begin_epoch p now c = Ok c' \<Longrightarrow> c_run_state c' = Warmup"
  by (auto simp: begin_epoch_def Let_def start_warmup_def change_state_def assert_ok_def split: if_splits)

lemma end_epoch_state: "end_epoch now c = Ok c' \<Longrightarrow> c_run_state c' \<in> {WaitingForMembers, Finished, Paused}"
  by (auto simp: end_epoch_def Let_def change_state_def assert_ok_def set_epoch_state_def
      dest!: start_waiting_state split: if_splits)

lemma check_timeout_True:
  "check_timeout c now d = Ok True \<Longrightarrow> c_run_state_start_unix_timestamp c < now
     \<and> d + c_run_state_start_unix_timestamp c \<le> now"
  by (auto simp: check_timeout_def u_add_def split: if_splits)

text \<open>The phases a tick may connect, with the result it reports and the wait it must respect.\<close>

definition phase_time :: "CoordinatorConfig \<Rightarrow> RunState \<Rightarrow> nat" where
  "phase_time cfg st = (case st of
       WaitingForMembers \<Rightarrow> cc_waiting_for_members_extra_time cfg
     | Warmup \<Rightarrow> cc_warmup_time cfg
     | RoundTrain \<Rightarrow> cc_max_round_train_time cfg
     | RoundWitness \<Rightarrow> cc_round_witness_time cfg
     | Cooldown \<Rightarrow> cc_cooldown_time cfg
     | _ \<Rightarrow> 0)"

definition tick_edge :: "RunState \<Rightarrow> RunState \<Rightarrow> TickResult \<Rightarrow> bool" where
  "tick_edge a b r = (case a of
       WaitingForMembers \<Rightarrow> b = Warmup \<and> r = Ticked
     | Warmup \<Rightarrow> b = RoundTrain \<and> r = Ticked \<or> b \<in> {WaitingForMembers, Finished} \<and> r = EpochEnd False
     | RoundTrain \<Rightarrow> b = RoundWitness \<and> r = Ticked
     | RoundWitness \<Rightarrow> b \<in> {RoundTrain, Cooldown} \<and> r = Ticked
     | Cooldown \<Rightarrow> b \<in> {WaitingForMembers, Finished, Paused} \<and> r = EpochEnd True
     | _ \<Rightarrow> False)"

lemma tick_waiting_edge:
  "tick_waiting_for_members p now c = Ok (c', r) \<Longrightarrow> c_run_state c = WaitingForMembers \<Longrightarrow>
   c' = c \<and> r = Ticked \<or> tick_edge WaitingForMembers (c_run_state c') r
     \<and> phase_time (c_config c) WaitingForMembers + c_run_state_start_unix_timestamp c \<le> now"
  by (auto simp: tick_waiting_for_members_def tick_edge_def phase_time_def
      dest: begin_epoch_state check_timeout_True split: option.splits if_splits)

lemma tick_warmup_edge:
  "tick_warmup now seed c = Ok (c', r) \<Longrightarrow> c_run_state c = Warmup \<Longrightarrow>
   c_run_state c' = Warmup \<and> r = Ticked \<or> tick_edge Warmup (c_run_state c') r
     \<and> (c_run_state c' = RoundTrain \<longrightarrow> phase_time (c_config c) Warmup + c_run_state_start_unix_timestamp c \<le> now)"
  by (auto simp: tick_warmup_def tick_edge_def phase_time_def
      dest!: check_timeout_True start_round_train_state move_clients_state start_waiting_state split: if_splits)

lemma tick_edges:
  assumes "tick pending now seed c = Ok (c', r)"
  shows "c_run_state c' = c_run_state c \<and> r = Ticked
     \<or> tick_edge (c_run_state c) (c_run_state c') r
       \<and> (r = EpochEnd False \<or> phase_time (c_config c) (c_run_state c) + c_run_state_start_unix_timestamp c \<le> now)"
proof (cases "c_run_state c")
  case WaitingForMembers
  then show ?thesis
    using assms tick_waiting_edge [of pending now c c' r] by (auto simp: tick_def)
next
  case Warmup
  then show ?thesis
    using assms tick_warmup_edge [of now seed c c' r] by (auto simp: tick_def tick_edge_def)
next
  case RoundTrain
  then show ?thesis
    using assms
    by (auto simp: tick_def tick_round_train_def tick_edge_def phase_time_def change_state_def assert_ok_def
        dest!: check_timeout_True split: if_splits)
next
  case RoundWitness
  then show ?thesis
    using assms
    by (auto simp: tick_def tick_round_witness_def tick_edge_def phase_time_def
        dest!: check_timeout_True end_round_state split: if_splits)
next
  case Cooldown
  then show ?thesis
    using assms
    by (auto simp: tick_def tick_cooldown_def tick_edge_def phase_time_def
        dest!: check_timeout_True end_epoch_state split: if_splits)
qed (use assms in \<open>simp_all add: tick_def\<close>)



text \<open>Operations without an error return.\<close>

lemma no_err [simp]:
  "u_add w a b \<noteq> Err e" "u_mul w a b \<noteq> Err e" "u_rem a b \<noteq> Err e" "slice_index xs i \<noteq> Err e" "assert_ok t \<noteq> Err e"
  "expect_ok m \<noteq> Err e"
  by (simp_all add: u_add_def u_mul_def u_rem_def slice_index_def assert_ok_def expect_ok_def split: res.split)

lemma change_state_no_err [simp]: "change_state now st c \<noteq> Err e"
  by (simp add: change_state_def rbind_eq_Err)

lemma move_clients_no_err [simp]: "move_clients_to_exited h c \<noteq> Err e"
proof -
  have "retain_list (exit_client h) ex cl \<noteq> Err e" for ex cl
    by (induction cl arbitrary: ex) (auto simp: rbind_eq_Err exit_client_def split: if_splits)
  then show ?thesis
    by (auto simp: move_clients_to_exited_def rbind_eq_Err)
qed

lemma start_round_train_no_err [simp]: "start_round_train now seed t c \<noteq> Err e"
  by (auto simp: start_round_train_def next_round_position_def rbind_eq_Err Let_def split: if_splits)

lemma start_cooldown_no_err [simp]: "start_cooldown now c \<noteq> Err e"
  by (auto simp: start_cooldown_def current_round_mut_unchecked_def rbind_eq_Err Let_def)

lemma round_end_no_err [simp]:
  "current_round_unchecked c \<noteq> Err e" "witness_quorum cfg n \<noteq> Err e" "set_last_step now c \<noteq> Err e"
  "must_cooldown n c \<noteq> Err e" "get_target_global_batch_size c r \<noteq> Err e" "start_waiting_for_members now c \<noteq> Err e"
proof -
  show q: "witness_quorum cfg n \<noteq> Err e" for cfg n and e :: 'b
    by (simp add: witness_quorum_def Let_def)
  show "must_cooldown n c \<noteq> Err e" for e
    by (simp add: must_cooldown_def rbind_eq_Err q)
qed (simp_all add: current_round_unchecked_def set_last_step_def check_epoch_timeout_def
      get_target_global_batch_size_def total_tokens_processed_def start_waiting_for_members_def rbind_eq_Err Let_def)

lemma end_round_no_err [simp]: "end_round now seed c \<noteq> Err e"
  by (simp add: end_round_def rbind_eq_Err Let_def)

lemma end_epoch_no_err [simp]: "end_epoch now c \<noteq> Err e"
  by (simp add: end_epoch_def rbind_eq_Err Let_def)

lemma sat_returns: "sat m Q \<Longrightarrow> (\<And>e. m \<noteq> Err e) \<Longrightarrow> \<exists>a. m = Ok a \<and> Q a"
  by (cases m) auto

text \<open>
  (C5) Ticks make progress. On a state that satisfies the invariant, once the time of the phase has
  passed a tick returns and leaves the phase: warmup, training, witnessing and cooldown all end, so an
  epoch cannot hang in a phase as long as ticks keep arriving.
\<close>

theorem tick_makes_progress:
  assumes "coord_inv c" "tick_room c" "c_run_state c \<in> {Warmup, RoundTrain, RoundWitness, Cooldown}"
    "c_run_state_start_unix_timestamp c < now"
    "phase_time (c_config c) (c_run_state c) + c_run_state_start_unix_timestamp c \<le> now"
  shows "\<exists>c' r. tick pending now seed c = Ok (c', r) \<and> coord_inv c'
     \<and> c_run_state c' \<noteq> c_run_state c \<and> tick_edge (c_run_state c) (c_run_state c') r"
proof -
  have to: "check_timeout c now (phase_time (c_config c) (c_run_state c)) = (Ok True :: (CoordinatorError, bool) res)"
    using assms by (auto simp: check_timeout_eq tick_room_def phase_time_def Let_def)
  have "\<exists>c' r. tick pending now seed c = Ok (c', r) \<and> c_run_state c' \<noteq> c_run_state c"
  proof -
    consider "c_run_state c = Warmup" | "c_run_state c = RoundTrain" | "c_run_state c = RoundWitness"
      | "c_run_state c = Cooldown"
      using assms(3) by auto
    then show ?thesis
    proof cases
      case 1
      have "start_round_train now seed 0 c = (Ok (next_round now seed c) :: (CoordinatorError, Coordinator) res)"
        using assms(1) 1 config_wf_facts(9) by (intro start_round_train_eq) (auto simp: coord_inv_def)
      moreover have "length (clients c) \<le> 256" "cc_min_clients (c_config c) \<le> length (clients c)"
        using assms(1) 1 by (auto simp: coord_inv_def)
      ultimately show ?thesis
        using 1 to by (simp add: tick_def tick_warmup_def phase_time_def length_u16)
    next
      case 2
      then show ?thesis
        using to by (simp add: tick_def tick_round_train_def phase_time_def change_state_def assert_ok_def)
    next
      case 3
      then show ?thesis
        using to sat_returns [OF sat_end_round [OF assms(1) 3 assms(2), of now seed] end_round_no_err]
        by (auto simp: tick_def tick_round_witness_def phase_time_def)
    next
      case 4
      then show ?thesis
        using to sat_returns [OF sat_end_epoch [OF assms(1) 4 assms(2), of now] end_epoch_no_err]
        by (auto simp: tick_def tick_cooldown_def phase_time_def)
    qed
  qed
  then obtain c' r where "tick pending now seed c = Ok (c', r)" "c_run_state c' \<noteq> c_run_state c"
    by blast
  then show ?thesis
    using sat_tick [OF assms(1,2), of pending now seed] tick_edges [of pending now seed c c' r] by auto
qed

theorem tick_makes_progress_witness:
  "\<exists>c c' r. tick (Some [demo_node 1, demo_node 2]) 5 9 demo_coordinator = Ok (c, Ticked)
     \<and> tick None 20 7 c = Ok (c', r) \<and> c_run_state c = Warmup \<and> c_run_state c' \<noteq> Warmup"
proof -
  obtain c where c: "tick (Some [demo_node 1, demo_node 2]) 5 9 demo_coordinator = Ok (c, Ticked)" "c_run_state c = Warmup"
      "c_run_state_start_unix_timestamp c = 5" "c_config c = demo_config" "tick_room c"
    using demo_epoch by auto
  have "coord_inv c"
    using sat_tick [OF demo_inv, of "Some [demo_node 1, demo_node 2]" 5 9] c(1) by simp
  moreover have "phase_time (c_config c) (c_run_state c) + c_run_state_start_unix_timestamp c \<le> 20"
    by (simp add: c phase_time_def demo_config_def)
  ultimately show ?thesis
    using tick_makes_progress [of c 20 None 7] c by auto
qed

section \<open>Quorum and batch size\<close>

text \<open>
  (C11) The witness quorum computed in \<open>f64\<close> is exact. For every number of witnesses that fits the
  \<open>u16\<close> it is 1, 2 and 2 for one, two and three witnesses and \<open>2 * n / 3\<close> rounded down from four on:
  the rounding of the constant 2/3 and of the product never changes the floor, also at the multiples
  of three where the product lands just below an integer. It panics exactly on zero witnesses.
\<close>

theorem witness_quorum_exact:
  assumes "n < 2 ^ 16" "cc_witness_nodes cfg < 2 ^ 16"
  shows "witness_quorum cfg n =
     (let w = (if cc_witness_nodes cfg = 0 then n else cc_witness_nodes cfg) in
      if w = 0 then Panic else if w = 1 then Ok 1 else if w = 2 then Ok 2 else Ok (2 * w div 3))"
proof (cases "cc_witness_nodes cfg = 0 \<and> n = 0")
  case True
  then show ?thesis by (simp add: witness_quorum_def)
next
  case False
  then show ?thesis
    using assms by (subst witness_quorum_eq) (auto simp: Let_def)
qed

theorem witness_quorum_exact_witness:
  "witness_quorum demo_config 9 = (Ok 6 :: (unit, nat) res)
   \<and> witness_quorum demo_config 30000 = (Ok 20000 :: (unit, nat) res)"
  using witness_quorum_exact [of 9 demo_config] witness_quorum_exact [of 30000 demo_config]
  by (simp add: demo_config_def)

text \<open>
  The batch size ramp is sound. Under a checked configuration the batch size stays between its
  start and end values whatever the number of tokens, starts at the start value when there is a warmup,
  never decreases as tokens are processed, and is the end value once the warmup tokens are reached,
  although the interpolation is computed in \<open>f64\<close> from \<open>u64\<close> counts that may themselves be rounded.
\<close>

theorem batch_size_ramp:
  assumes "config_wf cfg" "t \<le> t'"
  shows "cc_global_batch_size_start cfg \<le> get_batch_size cfg t
     \<and> get_batch_size cfg t \<le> get_batch_size cfg t' \<and> get_batch_size cfg t' \<le> cc_global_batch_size_end cfg
     \<and> (cc_global_batch_size_warmup_tokens cfg \<le> t \<longrightarrow> get_batch_size cfg t = cc_global_batch_size_end cfg)
     \<and> (0 < cc_global_batch_size_warmup_tokens cfg \<longrightarrow> get_batch_size cfg 0 = cc_global_batch_size_start cfg)"
proof -
  let ?s = "cc_global_batch_size_start cfg" and ?e = "cc_global_batch_size_end cfg"
  let ?w = "cc_global_batch_size_warmup_tokens cfg"
  have se: "?s \<le> ?e" "?e < 2 ^ 16"
    using config_wf_facts [OF assms(1)] by auto
  define g where "g x = f64_as_u16 (f64_half_away x)" for x
  have g_nat: "g (of_nat n) = n" if "n \<le> ?e" for n
    using that se by (simp add: g_def)
  have g_mono: "g x \<le> g y" if "0 \<le> x" "x \<le> y" for x y
    using that by (simp add: g_def f64_as_u16_mono f64_half_away_mono)
  have ramp: "?s \<le> g (batch_ramp cfg u) \<and> g (batch_ramp cfg u) \<le> g (batch_ramp cfg u') \<and> g (batch_ramp cfg u') \<le> ?e"
    if "u \<le> u'" "u' < ?w" for u u'
  proof -
    have b: "of_nat ?s \<le> batch_ramp cfg u" "batch_ramp cfg u \<le> batch_ramp cfg u'" "batch_ramp cfg u' \<le> of_nat ?e"
      using batch_ramp_bounds [OF assms(1) that(1)] that(2) by auto
    have nn: "(0::rat) \<le> of_nat ?s" by simp
    show ?thesis
      using g_mono [OF nn b(1)] g_mono [OF order_trans [OF nn b(1)] b(2)]
        g_mono [OF order_trans [OF order_trans [OF nn b(1)] b(2)] b(3)] g_nat [of ?s] g_nat [of ?e] se
      by simp
  qed
  have zero: "get_batch_size cfg 0 = ?s" if "0 < ?w"
  proof -
    have "batch_ramp cfg 0 = f64_round (of_nat ?s)"
      by (simp add: batch_ramp_def f64_div_def f64_mul_def f64_add_def u_as_f64_def)
    then show ?thesis
      using that se g_nat [of ?s] by (simp add: get_batch_size_ramp [OF assms(1)] g_def f64_round_of_nat)
  qed
  have "?s \<le> get_batch_size cfg t \<and> get_batch_size cfg t \<le> get_batch_size cfg t' \<and> get_batch_size cfg t' \<le> ?e"
    using ramp [of t t'] ramp [of t t] assms(2) se
    by (cases "?w \<le> t"; cases "?w \<le> t'") (auto simp: get_batch_size_ramp [OF assms(1)] g_def not_le)
  then show ?thesis
    using zero by (auto simp: get_batch_size_ramp [OF assms(1)])
qed

lemma demo_config_wf: "config_wf (demo_config\<lparr>cc_global_batch_size_warmup_tokens := n\<rparr>)"
  by (simp add: config_wf_def config_check_def check_error_def guard_err_def demo_config_def
      SOLANA_MAX_NUM_CLIENTS_def SOLANA_MAX_NUM_WITNESSES_def)

theorem batch_size_ramp_witness:
  "get_batch_size (demo_config\<lparr>cc_global_batch_size_warmup_tokens := 1000\<rparr>) 0 = 4
   \<and> get_batch_size (demo_config\<lparr>cc_global_batch_size_warmup_tokens := 1000\<rparr>) 700 \<in> {4..8}
   \<and> get_batch_size (demo_config\<lparr>cc_global_batch_size_warmup_tokens := 1000\<rparr>) 1000 = 8"
  using batch_size_ramp [OF demo_config_wf, of 0 700 1000] batch_size_ramp [OF demo_config_wf, of 1000 1000 1000]
  by (simp add: demo_config_def)

section \<open>Witnesses and health checks\<close>

text \<open>
  (C2) What it takes to witness. On a state of the invariant \<open>witness\<close> succeeds exactly when the run is
  training or witnessing, the sender is the client at the index of the proof, the proof is the one the
  round's committee selection computes for that index and it asserts membership, no witness of the same
  sender is stored and there is room for one more. It then appends exactly this witness to the round,
  leaves the clients alone, and the training phase is cut short exactly when the expected number of
  witnesses is complete.
\<close>

theorem accepted_witness_genuine:
  assumes "coord_inv c"
  shows "((\<exists>c'. submit_witness X from w now c = Ok c') \<longleftrightarrow>
       c_run_state c \<in> {RoundTrain, RoundWitness}
       \<and> wp_index (wt_proof w) < length (clients c)
       \<and> signer (client_id (clients c ! wp_index (wt_proof w))) = signer from
       \<and> (\<exists>sel. cs_from_coordinator X c 0 = Ok sel
            \<and> get_witness X sel (wp_index (wt_proof w)) = (Ok (wt_proof w) :: (unit, WitnessProof) res))
       \<and> sb_is_true (wp_witness (wt_proof w))
       \<and> \<not> list_ex (\<lambda>v. signer (client_id (clients c ! wp_index (wt_proof v))) = signer from) (rd_witnesses (cur c))
       \<and> length (rd_witnesses (cur c)) < 32)
     \<and> (\<forall>c'. submit_witness X from w now c = Ok c' \<longrightarrow>
          rd_witnesses (cur c') = rd_witnesses (cur c) @ [w] \<and> clients c' = clients c
          \<and> (c_run_state c' = RoundWitness \<longleftrightarrow>
               c_run_state c = RoundWitness \<or> length (rd_witnesses (cur c')) = expected_witnesses c))"
    (is "(?A \<longleftrightarrow> ?B) \<and> ?C")
proof -
  have wf: "rounds_wf (es c)"
    using assms(1) by (simp add: coord_inv_def)
  have sb: "sent_by (clients c) from = (\<lambda>v. signer (client_id (clients c ! wp_index (wt_proof v))) = signer from)"
    by (simp add: sent_by_def node_eq_def fun_eq_iff)
  have cur: "rd_witnesses (cur ((add_witness w c)\<lparr>c_run_state_start_unix_timestamp := t, c_run_state := st\<rparr>))
      = rd_witnesses (cur c) @ [w]" "rd_witnesses (cur (add_witness w c)) = rd_witnesses (cur c) @ [w]" for t st
    using cur_add_witness [OF wf, of w] by simp_all
  note cases = submit_witness_cases [OF assms(1), of X "from" w now, unfolded sb]
  have "?A \<Longrightarrow> ?B"
    using cases by auto
  moreover have "?B \<Longrightarrow> ?A"
    using submit_witness_complete [OF assms, of X _ w "from" now, unfolded sb] by blast
  moreover have ?C
    using cases by (auto simp: cur split: if_splits)
  ultimately show ?thesis by blast
qed

text \<open>A round in training with two clients, and the honest witness of the first one.\<close>

definition demo_X :: externs where
  "demo_X = \<lparr>sha256 = (\<lambda>bs. replicate 32 (last bs)), fnv_hash = (\<lambda>k bs. k)\<rparr>"

definition demo_bloom :: WitnessBloom where
  "demo_bloom = \<lparr>bloom_keys = [7], bloom_bits = 0\<rparr>"

definition demo_round :: "nat \<Rightarrow> Witness list \<Rightarrow> Round" where
  "demo_round h ws = \<lparr>rd_witnesses = ws, rd_data_index = 8 * h, rd_random_seed = 3, rd_height = h, rd_clients_len = 2,
     rd_tie_breaker_tasks = 0\<rparr>"

definition demo_witness :: "WitnessProof \<Rightarrow> Witness" where
  "demo_witness p = \<lparr>wt_proof = p, wt_participant_bloom = demo_bloom, wt_broadcast_bloom = demo_bloom,
     wt_broadcast_merkle = []\<rparr>"

definition demo_training :: "Witness list \<Rightarrow> Coordinator" where
  "demo_training ws = demo_coordinator\<lparr>c_run_state := RoundTrain,
     c_epoch_state := EpochState_default\<lparr>es_rounds_head := 2, es_first_round := 0,
       es_rounds := [demo_round 0 ws, demo_round 1 ws, demo_round 2 [], Round_default],
       es_clients := [client_new (demo_node 1), client_new (demo_node 2)]\<rparr>\<rparr>"

lemma demo_training_inv:
  assumes "length ws \<le> 32" "ws \<noteq> []"
  shows "coord_inv (demo_training ws)"
proof -
  have "config_wf demo_config"
    using demo_inv(1) by (simp add: coord_inv_def demo_coordinator_def)
  moreover have "rounds_wf (es (demo_training ws))"
    using assms by (simp add: demo_training_def rounds_wf_def demo_round_def Round_default_def prev_pos_def)
  moreover have "es_exited_clients (es (demo_training ws)) = []" "length (clients (demo_training ws)) = 2"
      "c_config (demo_training ws) = demo_config" "pr_step (c_progress (demo_training ws)) = 1"
      "c_run_state (demo_training ws) = RoundTrain" "cur (demo_training ws) = demo_round 2 []"
    by (simp_all add: demo_training_def EpochState_default_def demo_coordinator_def Progress_default_def cur_def)
  ultimately show ?thesis
    by (simp add: coord_inv_def demo_round_def) (simp add: demo_config_def)
qed

lemma demo_training_sel:
  "\<exists>sel. cs_from_coordinator demo_X (demo_training ws) 0 = Ok sel \<and> cs_from_coordinator demo_X (demo_training ws) (-1) = Ok sel
     \<and> cs_wf sel \<and> cs_total_nodes sel = 2 \<and> cs_witness_nodes sel = 0 \<and> cs_tie_breaker_nodes sel = 0 \<and> cs_verifier_nodes sel = 0"
proof -
  obtain sel where sel: "cs_new demo_X 0 0 0 2 3 = Ok sel"
    using cs_new_ok(1) [of 2 demo_X 0 0 0 3] by auto
  have "cs_from_coordinator demo_X (demo_training ws) 0 = Ok sel" "cs_from_coordinator demo_X (demo_training ws) (-1) = Ok sel"
    using sel by (simp_all add: cs_from_coordinator_def round_at_offset_def previous_round_def current_round_def slice_get_def
        demo_training_def demo_round_def demo_coordinator_def demo_config_def)
  then show ?thesis
    using cs_new_wf [OF sel] by auto
qed

lemma demo_witness_proof:
  "\<exists>sel p. cs_from_coordinator demo_X (demo_training ws) 0 = Ok sel
     \<and> get_witness demo_X sel 0 = (Ok p :: (unit, WitnessProof) res) \<and> wp_index p = 0 \<and> sb_is_true (wp_witness p)"
proof -
  obtain sel where sel: "cs_from_coordinator demo_X (demo_training ws) 0 = Ok sel" "cs_wf sel" "cs_total_nodes sel = 2"
      "cs_witness_nodes sel = 0"
    using demo_training_sel by blast
  then have "cs_place demo_X sel WITNESS_SALT 0 < 2"
    using son.place_less [of 0 2] by simp
  then show ?thesis
    using sel by (simp add: get_witness_eq get_witness_from_position_def SOLANA_MAX_NUM_WITNESSES_def)
qed

theorem accepted_witness_genuine_witness:
  "\<exists>w c'. submit_witness demo_X (demo_node 1) w 30 (demo_training [demo_witness undefined]) = Ok c'
     \<and> rd_witnesses (cur c') = [w]"
proof -
  let ?c = "demo_training [demo_witness undefined]"
  obtain sel p where p: "cs_from_coordinator demo_X ?c 0 = Ok sel"
      "get_witness demo_X sel 0 = (Ok p :: (unit, WitnessProof) res)" "wp_index p = 0" "sb_is_true (wp_witness p)"
    using demo_witness_proof by blast
  have c: "c_run_state ?c = RoundTrain" "clients ?c = [client_new (demo_node 1), client_new (demo_node 2)]"
      "rd_witnesses (cur ?c) = []"
    by (simp_all add: demo_training_def cur_def demo_round_def)
  have inv: "coord_inv ?c"
    by (rule demo_training_inv) simp_all
  show ?thesis
    using accepted_witness_genuine [OF inv, of demo_X "demo_node 1" "demo_witness p" 30] p c
    by (auto simp: demo_witness_def client_new_def)
qed

text \<open>
  (C3) What a successful health check means. On a state of the invariant a health check succeeds only
  if every client it names was a trainer of the previous round according to the committee selection of
  that round and fewer witnesses than the quorum vouch for it; it then turns exactly the named healthy
  clients into dropped ones, reports how many there were, and changes nothing else.
\<close>

theorem health_check_sound:
  assumes "coord_inv c" "health_check X checks c = Ok (c', n)"
  shows "(\<forall>(i, pf) \<in> set checks. \<exists>r sel. previous_round c = Some r \<and> cs_from_coordinator X c (-1) = Ok sel
          \<and> cp_index pf < length (clients c) \<and> signer (client_id (clients c ! cp_index pf)) = signer i
          \<and> get_committee X sel (cp_index pf) = (Ok pf :: (unit, CommitteeProof) res) \<and> cp_committee pf = Trainer
          \<and> vouchers X (client_id (clients c ! cp_index pf)) (rd_witnesses r)
              < quorum_of (c_config c) (length (rd_witnesses r)))
     \<and> c' = c\<lparr>c_epoch_state := (es c)\<lparr>es_clients := mark_dropped ((\<lambda>ch. cp_index (snd ch)) ` set checks) (clients c)\<rparr>\<rparr>
     \<and> n = card {k \<in> (\<lambda>ch. cp_index (snd ch)) ` set checks. client_state (clients c ! k) = Healthy}"
proof -
  have h: "\<forall>ch\<in>set checks. convicted X (fst ch) (snd ch) c"
      "c' = c\<lparr>c_epoch_state := (es c)\<lparr>es_clients := mark_dropped ((\<lambda>ch. cp_index (snd ch)) ` set checks) (clients c)\<rparr>\<rparr>"
      "n = card ((\<lambda>ch. cp_index (snd ch)) ` set checks \<inter> healthy_at (clients c))"
    using health_check_sat [OF assms(1), of X checks] assms(2) by auto
  have "(\<lambda>ch. cp_index (snd ch)) ` set checks \<inter> healthy_at (clients c)
      = {k \<in> (\<lambda>ch. cp_index (snd ch)) ` set checks. client_state (clients c ! k) = Healthy}"
    using h(1) by (auto simp: healthy_at_def convicted_def)
  then show ?thesis
    using h by (fastforce simp: convicted_def)
qed

lemma drop_clients_no_err [simp]: "drop_clients checks c n \<noteq> Err e"
  by (induction checks arbitrary: c n) (simp_all add: Let_def rbind_eq_Err)

lemma demo_convicts:
  "\<exists>pf c' n. health_check demo_X [(demo_node 1, pf)] (demo_training [demo_witness undefined]) = Ok (c', n) \<and> cp_index pf = 0"
proof -
  let ?c = "demo_training [demo_witness undefined]"
  obtain sel where sel: "cs_from_coordinator demo_X ?c (-1) = Ok sel" "cs_wf sel" "cs_total_nodes sel = 2"
      "cs_tie_breaker_nodes sel = 0" "cs_verifier_nodes sel = 0"
    using demo_training_sel by blast
  define pf where "pf = \<lparr>cp_committee = Trainer, cp_position = cs_place demo_X sel COMMITTEE_SALT 0, cp_index = 0\<rparr>"
  have pf: "get_committee demo_X sel 0 = (Ok pf :: (unit, CommitteeProof) res)"
    using sel by (simp add: get_committee_eq pf_def committee_at_def)
  have inv: "coord_inv ?c"
    by (rule demo_training_inv) simp_all
  have prev: "previous_round ?c = Some (demo_round 1 [demo_witness undefined])"
    by (simp add: previous_round_def current_round_def slice_get_def demo_training_def)
  have c: "clients ?c = [client_new (demo_node 1), client_new (demo_node 2)]" "\<not> halted ?c" "current_round ?c = Some (demo_round 2 [])"
    by (simp_all add: demo_training_def halted_def current_round_def slice_get_def)
  have "cc_witness_nodes (c_config ?c) = 0"
    by (simp add: demo_training_def demo_coordinator_def demo_config_def)
  moreover have "vouchers demo_X (demo_node 1) [demo_witness undefined] = 0"
    by (simp add: vouchers_def demo_witness_def demo_bloom_def bloom_contains_def)
  ultimately have "trainer_healthy demo_X (demo_node 1) ?c = Ok False"
    unfolding trainer_healthy_eq [OF inv prev] by (simp add: demo_round_def quorum_of_def)
  moreover have "verify_committee demo_X sel pf = (Ok True :: (CoordinatorError, bool) res)"
    using pf sel by (simp add: verify_committee_iff [where 'e = unit] pf_def)
  moreover have "cp_index pf = 0" "cp_committee pf = Trainer"
    by (simp_all add: pf_def)
  ultimately have "healthy demo_X (demo_node 1) pf ?c = Ok False"
    by (simp add: healthy_def prev sel get_client_at_historical_index_def c verify_committee_for_client_def
        verify_client_def slice_get_def node_eq_def guard_err_def demo_round_def client_new_def del: rbind_eq_Ok)
  then have "health_check demo_X [(demo_node 1, pf)] ?c \<noteq> Err e" for e
    by (simp add: health_check_def c demo_round_def guard_err_def rbind_eq_Err del: drop_clients.simps)
  then show ?thesis
    using sat_returns [OF health_check_sat [OF inv, of demo_X "[(demo_node 1, pf)]"]] by (fastforce simp: pf_def)
qed

theorem health_check_sound_witness:
  "\<exists>pf c'. health_check demo_X [(demo_node 1, pf)] (demo_training [demo_witness undefined]) = Ok (c', 1)
     \<and> map client_state (clients c') = [Dropped, Healthy]"
proof -
  let ?c = "demo_training [demo_witness undefined]"
  obtain pf c' n where h: "health_check demo_X [(demo_node 1, pf)] ?c = Ok (c', n)" "cp_index pf = 0"
    using demo_convicts by blast
  have inv: "coord_inv ?c"
    by (rule demo_training_inv) simp_all
  have c: "clients ?c = [client_new (demo_node 1), client_new (demo_node 2)]"
    by (simp add: demo_training_def)
  have "{k. k = (0::nat) \<and> client_state (clients ?c ! k) = Healthy} = {0}"
    by (auto simp: c client_new_def)
  then show ?thesis
    using health_check_sound [OF inv h(1)] h
    by (intro exI [of _ pf] exI [of _ c']) (simp add: mark_dropped_def c client_new_def)
qed

end
