(* ===== verification/Coordinator_Epochs.thy ===== *)
theory Coordinator_Epochs
  imports Coordinator_Props
begin

text \<open>
  Properties that span operations of the coordinator: how rounds follow each other, that an epoch
  neither loses nor gains a member, the consensus on a commitment, and three behaviours of the code
  that its comments do not announce.
\<close>

section \<open>Consecutive rounds\<close>

lemma end_round_next:
  assumes "coord_inv c" "c_run_state c = RoundWitness" "tick_room c" "end_round now seed c = Ok c'"
    "c_run_state c' = RoundTrain"
  shows "\<exists>l. c' = next_round now seed (set_epoch_state (\<lambda>e. e\<lparr>es_last_step := l\<rparr>) (closed_round c))
     \<and> rd_witnesses (cur c) \<noteq> [] \<and> quorum_of (c_config c) (length (rd_witnesses (cur c))) \<le> length (rd_witnesses (cur c))
     \<and> cc_min_clients (c_config c) \<le> length (clients (closed_round c))
     \<and> pr_step (c_progress c) + 1 < cc_total_steps (c_config c) \<and> \<not> sb_is_true (c_pending_pause c)"
proof -
  have inv: "rounds_wf (es c)" "length (clients c) + length (es_exited_clients (es c)) \<le> 256"
      "config_wf (c_config c)" "pr_step (c_progress c) < cc_total_steps (c_config c)"
    using assms(1,2) by (auto simp: coord_inv_def)
  note cfg = config_wf_facts [OF inv(3)]
  have ne: "rd_witnesses (cur c) \<noteq> []"
    using assms(4,5) unfolding end_round_eq [OF assms(1,2)] by (auto dest!: start_cooldown_state)
  have room: "es_start_timestamp (es (closed_round c)) + cc_epoch_time (c_config (closed_round c)) < 2 ^ 64"
      "pr_step (c_progress (closed_round c)) + 2 < 2 ^ 32" "round_room c"
    using assms(3) inv(4) cfg(6) by (auto simp: tick_room_def round_room_def Let_def)
  obtain l where l: "set_last_step now (closed_round c)
      = Ok (set_epoch_state (\<lambda>e. e\<lparr>es_last_step := l\<rparr>) (closed_round c))"
    using set_last_step_eq [OF room(1,2)] by blast
  define c3 where "c3 = set_epoch_state (\<lambda>e. e\<lparr>es_last_step := l\<rparr>) (closed_round c)"
  have c3: "c_run_state c3 = RoundWitness" "c_config c3 = c_config c" "rounds_wf (es c3)" "cur c3 = cur c"
      "length (clients c3) \<le> 256" "round_room c3" "clients c3 = clients (closed_round c)"
      "pr_step (c_progress c3) = pr_step (c_progress c) + 1" "c_pending_pause c3 = c_pending_pause c"
    using inv assms(2) room(3) closed_round_length [of c]
    by (simp_all add: c3_def set_epoch_state_def round_room_def get_sequence_length_def)
  have n: "length (rd_witnesses (cur c)) \<le> 32"
    using inv(1) cur_in_rounds [OF inv(1)] by (auto simp: rounds_wf_def list_all_iff)
  have q: "witness_quorum (c_config c) (length (rd_witnesses (cur c)))
      = (Ok (quorum_of (c_config c) (length (rd_witnesses (cur c)))) :: (CoordinatorError, nat) res)"
    using ne n cfg(5) by (subst witness_quorum_eq) (auto simp: quorum_of_def Let_def)
  have train: "start_round_train now seed 0 c3 = (Ok (next_round now seed c3) :: (CoordinatorError, Coordinator) res)"
    using c3 cfg by (intro start_round_train_eq) auto
  have "(if last_step_set (es c3) \<and> pr_step (c_progress c3) = es_last_step (es c3) then start_cooldown now c3
        else rbind (must_cooldown (length (rd_witnesses (cur c))) c3) (\<lambda>stop.
          if stop then start_cooldown now c3 else start_round_train now seed 0 c3)) = Ok c'"
    using assms(4) unfolding end_round_eq [OF assms(1,2)] if_not_P [OF ne] l rbind.simps c3_def .
  then have "must_cooldown (length (rd_witnesses (cur c))) c3 = Ok False \<and> c' = next_round now seed c3"
    using assms(5) train by (auto dest!: start_cooldown_state split: if_splits)
  then show ?thesis
    using c3 q ne by (intro exI [of _ l]) (auto simp: must_cooldown_def c3_def [symmetric] split: if_splits)
qed

text \<open>
  (C6) Rounds are chained without a gap. When a tick takes the run from witnessing to the next round of
  training, the step and the height advance by one, the new round starts at the data index where the
  batch of the previous one ends, it is stored in the next slot of the ring with the new seed and the
  healthy clients counted, the closed round is the one \<open>previous_round\<close> returns with its witnesses,
  and these are at least the quorum.
\<close>

theorem rounds_chained:
  assumes "coord_inv c" "tick_room c" "c_run_state c = RoundWitness"
    "tick pending now seed c = Ok (c', r)" "c_run_state c' = RoundTrain"
  shows "pr_step (c_progress c') = pr_step (c_progress c) + 1
     \<and> rd_height (cur c') = rd_height (cur c) + 1
     \<and> rd_data_index (cur c') = rd_data_index (cur c)
         + get_batch_size (c_config c) (rd_data_index (cur c) * get_sequence_length c)
     \<and> rd_random_seed (cur c') = seed \<and> rd_witnesses (cur c') = []
     \<and> es_rounds_head (es c') = (es_rounds_head (es c) + 1) mod 4
     \<and> clients c' = filter (\<lambda>x. client_state x = Healthy) (clients c) \<and> rd_clients_len (cur c') = length (clients c')
     \<and> previous_round c' = Some (cur c)
     \<and> quorum_of (c_config c) (length (rd_witnesses (cur c))) \<le> length (rd_witnesses (cur c))
     \<and> cc_min_clients (c_config c) \<le> length (clients c')"
proof -
  have "end_round now seed c = Ok c'"
    using assms(3-5) by (auto simp: tick_def tick_round_witness_def split: if_splits)
  then obtain l where c': "c' = next_round now seed (set_epoch_state (\<lambda>e. e\<lparr>es_last_step := l\<rparr>) (closed_round c))"
      and q: "quorum_of (c_config c) (length (rd_witnesses (cur c))) \<le> length (rd_witnesses (cur c))"
        "cc_min_clients (c_config c) \<le> length (clients (closed_round c))"
    using end_round_next [OF assms(1,3,2) _ assms(5)] by blast
  define c3 where "c3 = set_epoch_state (\<lambda>e. e\<lparr>es_last_step := l\<rparr>) (closed_round c)"
  have inv: "rounds_wf (es c)" "coord_inv c'"
    using assms(1) sat_tick [OF assms(1,2), of pending now seed] assms(4) by (auto simp: coord_inv_def)
  have c3: "rounds_wf (es c3)" "cur c3 = cur c" "\<not> sb_is_true (es_first_round (es c3))"
      "es_rounds_head (es c3) = es_rounds_head (es c)" "c_config c3 = c_config c" "get_sequence_length c3 = get_sequence_length c"
      "clients c3 = filter (\<lambda>x. client_state x = Healthy) (clients c)" "pr_step (c_progress c3) = pr_step (c_progress c) + 1"
    using inv(1)
    by (simp_all add: c3_def set_epoch_state_def closed_round_def get_sequence_length_def)
  have c3n: "c' = next_round now seed c3"
    using c' by (simp add: c3_def)
  have cur': "cur c' = new_round seed c3"
    using cur_next_round [OF c3(1)] by (simp add: c3n)
  have head: "es_rounds_head (es c') = (es_rounds_head (es c) + 1) mod 4"
    using c3 by (simp add: c3n next_round_def next_head_def)
  have "rounds_wf (es c')"
    using inv(2) by (simp add: coord_inv_def)
  moreover have "es_rounds (es c') ! prev_pos (es_rounds_head (es c')) = cur c"
  proof -
    have "es_rounds_head (es c) < 4" "es_rounds (es c') = (es_rounds (es c3))[es_rounds_head (es c') := new_round seed c3]"
      using inv(1) c3 by (simp_all add: rounds_wf_def c3n next_round_def)
    moreover have "prev_pos (es_rounds_head (es c')) = es_rounds_head (es c)" "es_rounds_head (es c') \<noteq> es_rounds_head (es c)"
      using calculation(1) by (auto simp: head prev_pos_def mod_Suc)
    ultimately show ?thesis
      using c3(2,4) by (simp add: cur_def)
  qed
  ultimately have "previous_round c' = Some (cur c)"
    using cur' c3 by (simp add: previous_round_cur new_round_def)
  then show ?thesis
    using q cur' head c3 by (simp add: c3n) (simp add: new_round_def c3_def set_epoch_state_def)
qed

text \<open>A round whose witness window is over, with one witness of two clients.\<close>

definition demo_closing :: Coordinator where
  "demo_closing = (demo_training [demo_witness \<lparr>wp_position = 0, wp_index = 0, wp_witness = 1\<rparr>])
     \<lparr>c_run_state := RoundWitness, c_epoch_state := (es (demo_training [demo_witness \<lparr>wp_position = 0, wp_index = 0, wp_witness = 1\<rparr>]))
       \<lparr>es_rounds_head := 1\<rparr>\<rparr>"

lemma demo_closing_facts:
  "c_run_state demo_closing = RoundWitness" "c_config demo_closing = demo_config" "pr_step (c_progress demo_closing) = 1"
  "clients demo_closing = [client_new (demo_node 1), client_new (demo_node 2)]" "es_exited_clients (es demo_closing) = []"
  "cur demo_closing = demo_round 1 [demo_witness \<lparr>wp_position = 0, wp_index = 0, wp_witness = 1\<rparr>]"
  "es_start_timestamp (es demo_closing) = 0" "es_last_step (es demo_closing) = 0" "c_pending_pause demo_closing = 0"
  "c_run_state_start_unix_timestamp demo_closing = 0" "pr_epoch (c_progress demo_closing) = 0"
  "get_sequence_length demo_closing = 2048" "rounds_wf (es demo_closing)"
  by (simp_all add: demo_closing_def demo_training_def demo_coordinator_def Progress_default_def EpochState_default_def
      cur_def get_sequence_length_def LLM_dummy_def rounds_wf_def demo_round_def Round_default_def prev_pos_def)

lemma demo_closing_inv: "coord_inv demo_closing" "tick_room demo_closing"
proof -
  have "config_wf demo_config"
    using demo_inv(1) by (simp add: coord_inv_def demo_coordinator_def)
  then show "coord_inv demo_closing"
    by (simp add: coord_inv_def demo_closing_facts demo_round_def demo_witness_def) (simp add: demo_config_def)
  show "tick_room demo_closing"
    by (simp add: tick_room_def demo_closing_facts demo_round_def demo_config_def)
qed

lemma demo_closing_ticks:
  "\<exists>c'. tick None 40 6 demo_closing = Ok (c', Ticked) \<and> c_run_state c' = RoundTrain"
proof -
  let ?c = "closed_round demo_closing"
  have h: "clients ?c = [client_new (demo_node 1), client_new (demo_node 2)]"
    by (simp add: closed_round_def exit_unhealthy_def set_epoch_state_def demo_closing_facts client_new_def)
  have "cc_epoch_time demo_config = 100"
    by (simp add: demo_config_def)
  then have "check_epoch_timeout ?c 40 = (Ok False :: (CoordinatorError, bool) res)"
    by (simp add: check_epoch_timeout_def u_add_def demo_closing_facts)
  then have last: "set_last_step 40 ?c = Ok ?c"
    by (simp add: set_last_step_def)
  have quorum: "witness_quorum demo_config (Suc 0) = (Ok 1 :: (CoordinatorError, nat) res)"
    by (simp add: witness_quorum_def demo_config_def)
  have stop: "must_cooldown (Suc 0) ?c = Ok False"
    by (simp add: must_cooldown_def h demo_closing_facts quorum) (simp add: demo_config_def)
  have "start_round_train 40 6 0 ?c = (Ok (next_round 40 6 ?c) :: (CoordinatorError, Coordinator) res)"
    by (intro start_round_train_eq)
      (simp_all add: h demo_closing_facts round_room_def demo_round_def, simp add: demo_config_def)
  then have "end_round 40 6 demo_closing = Ok (next_round 40 6 ?c)"
    unfolding end_round_eq [OF demo_closing_inv(1) demo_closing_facts(1)]
    by (simp add: demo_closing_facts(6) demo_round_def last stop last_step_set_def demo_closing_facts(8) del: rbind_eq_Ok)
  moreover have "check_timeout demo_closing 40 10 = (Ok True :: (CoordinatorError, bool) res)"
    by (simp add: check_timeout_def demo_closing_facts u_add_def)
  moreover have "cc_round_witness_time demo_config = 10"
    by (simp add: demo_config_def)
  ultimately show ?thesis
    by (simp add: tick_def tick_round_witness_def demo_closing_facts)
qed

theorem rounds_chained_witness:
  "\<exists>c'. tick None 40 6 demo_closing = Ok (c', Ticked) \<and> rd_height (cur c') = 2
     \<and> pr_step (c_progress c') = 2 \<and> length (clients c') = 2"
proof -
  obtain c' where c': "tick None 40 6 demo_closing = Ok (c', Ticked)" "c_run_state c' = RoundTrain"
    using demo_closing_ticks by blast
  show ?thesis
    using rounds_chained [OF demo_closing_inv demo_closing_facts(1) c'] c'
    by (intro exI [of _ c']) (simp add: demo_closing_facts demo_round_def client_new_def)
qed

section \<open>Membership of an epoch\<close>

definition roster :: "Coordinator \<Rightarrow> bytes multiset" where
  "roster c = image_mset (\<lambda>x. signer (client_id x)) (mset (clients c) + mset (es_exited_clients (es c)))"

lemma roster_updates [simp]:
  "roster (c\<lparr>c_progress := p\<rparr>) = roster c" "roster (c\<lparr>c_run_state := s\<rparr>) = roster c"
  "roster (c\<lparr>c_run_state_start_unix_timestamp := t\<rparr>) = roster c" "roster (c\<lparr>c_model := m\<rparr>) = roster c"
  "roster (c\<lparr>c_pending_pause := b\<rparr>) = roster c"
  "roster (c\<lparr>c_epoch_state := (es c)\<lparr>es_first_round := b\<rparr>\<rparr>) = roster c"
  "roster (c\<lparr>c_epoch_state := (es c)\<lparr>es_last_step := n\<rparr>\<rparr>) = roster c"
  "roster (c\<lparr>c_epoch_state := (es c)\<lparr>es_cold_start_epoch := b\<rparr>\<rparr>) = roster c"
  "roster (c\<lparr>c_epoch_state := (es c)\<lparr>es_rounds := r\<rparr>\<rparr>) = roster c"
  "roster (c\<lparr>c_pending_pause := b, c_epoch_state := (es c)\<lparr>es_cold_start_epoch := b'\<rparr>\<rparr>) = roster c"
  by (simp_all add: roster_def)

lemma roster_change: "change_state now st c = Ok c' \<Longrightarrow> roster c' = roster c"
  by (auto simp: change_state_def assert_ok_def split: if_splits)

lemma roster_waiting: "start_waiting_for_members now c = Ok c' \<Longrightarrow> roster c' = roster c"
  by (auto simp: start_waiting_for_members_def dest: roster_change)

lemma roster_cooldown: "start_cooldown now c = Ok c' \<Longrightarrow> roster c' = roster c"
  by (auto simp: start_cooldown_def current_round_mut_unchecked_def Let_def set_epoch_state_def dest!: roster_change)

lemma roster_train: "start_round_train now seed t c = Ok c' \<Longrightarrow> roster c' = roster c"
  by (auto simp: start_round_train_def Let_def set_epoch_state_def roster_def change_state_def assert_ok_def split: if_splits)

lemma roster_move: "move_clients_to_exited h c = Ok c' \<Longrightarrow> roster c' = roster c"
proof -
  have "retain_list (exit_client h) ex cl = (Ok (ex', cl') :: ('e, Client list \<times> Client list) res) \<Longrightarrow>
      image_mset (\<lambda>x. signer (client_id x)) (mset cl' + mset ex') = image_mset (\<lambda>x. signer (client_id x)) (mset cl + mset ex)"
    for ex cl ex' cl'
  proof (induction cl arbitrary: ex cl')
    case (Cons x cl)
    obtain k ex1 ys where e: "exit_client h ex x = (Ok (k, ex1) :: ('e, bool \<times> Client list) res)"
        "retain_list (exit_client h) ex1 cl = (Ok (ex', ys) :: ('e, Client list \<times> Client list) res)"
        "cl' = (if k then x # ys else ys)"
      using Cons.prems by auto
    have "k \<and> ex1 = ex \<or> \<not> k \<and> ex1 = ex @ [x\<lparr>exited_height := h\<rparr>]"
      using e(1) by (auto simp: exit_client_def vec_push_def split: if_splits)
    then show ?case
      using Cons.IH [OF e(2)] e(3) by auto
  qed simp
  then show "move_clients_to_exited h c = (Ok c' :: ('e, Coordinator) res) \<Longrightarrow> roster c' = roster c"
    by (auto simp: move_clients_to_exited_def set_epoch_state_def roster_def)
qed

lemma image_mset_update:
  "i < length xs \<Longrightarrow> f y = f (xs ! i) \<Longrightarrow> image_mset f (mset (xs[i := y])) = image_mset f (mset xs)"
  by (metis list_update_id map_update mset_map)

lemma roster_set_client [simp]: "roster (set_client_state i st c) = roster c"
  by (simp add: roster_def set_client_state_def set_epoch_state_def update_at_def image_mset_update)

lemma roster_withdraw_all [simp]: "roster (withdraw_all c) = roster c"
proof -
  have "signer (client_id (leave x)) = signer (client_id x)" for x
    by (simp add: leave_def)
  then show ?thesis
    by (simp add: roster_def withdraw_all_eq image_mset.compositionality comp_def)
qed

lemma roster_mark_dropped:
  "roster (c\<lparr>c_epoch_state := (es c)\<lparr>es_clients := mark_dropped S (clients c)\<rparr>\<rparr>) = roster c"
proof -
  have "map (\<lambda>x. signer (client_id x)) (mark_dropped S cl) = map (\<lambda>x. signer (client_id x)) cl" for cl
    by (rule nth_equalityI) (simp_all add: mark_dropped_nth)
  then have "image_mset (\<lambda>x. signer (client_id x)) (mset (mark_dropped S cl)) = image_mset (\<lambda>x. signer (client_id x)) (mset cl)" for cl
    by (metis mset_map)
  then show ?thesis
    by (simp add: roster_def)
qed

lemma roster_last_step: "set_last_step now c = Ok c' \<Longrightarrow> roster c' = roster c"
  by (auto simp: set_last_step_def set_epoch_state_def split: if_splits)

lemma roster_checkpoint [simp]: "roster (set_checkpoint ck c) = roster c"
  by (simp add: set_checkpoint_def)

lemma roster_end_round: "end_round now seed c = Ok c' \<Longrightarrow> roster c' = roster c"
  by (auto simp: end_round_def Let_def set_epoch_state_def
      dest!: roster_cooldown roster_train roster_move roster_last_step split: if_splits)

lemma roster_end_epoch: "end_epoch now c = Ok c' \<Longrightarrow> roster c' = roster c"
  by (auto simp: end_epoch_def Let_def set_epoch_state_def
      dest!: roster_change roster_waiting roster_move split: if_splits)

lemma roster_tick:
  assumes "tick pending now seed c = Ok (c', r)" "\<not> (c_run_state c = WaitingForMembers \<and> c_run_state c' = Warmup)"
  shows "roster c' = roster c"
proof (cases "c_run_state c")
  case WaitingForMembers
  then show ?thesis
    using assms by (auto simp: tick_def tick_waiting_for_members_def dest!: begin_epoch_state split: option.splits if_splits)
next
  case Warmup
  then show ?thesis
    using assms(1) by (auto simp: tick_def tick_warmup_def dest!: roster_train roster_move roster_waiting split: if_splits)
next
  case RoundTrain
  then show ?thesis
    using assms(1) by (auto simp: tick_def tick_round_train_def dest!: roster_change split: if_splits)
next
  case RoundWitness
  then show ?thesis
    using assms(1) by (auto simp: tick_def tick_round_witness_def dest!: roster_end_round split: if_splits)
next
  case Cooldown
  then show ?thesis
    using assms(1) by (auto simp: tick_def tick_cooldown_def dest!: roster_end_epoch split: if_splits)
qed (use assms(1) in \<open>simp_all add: tick_def\<close>)

lemma roster_store: "store_witness from w c = Ok (c', n) \<Longrightarrow> roster c' = roster c"
  by (auto simp: store_witness_def current_round_mut_unchecked_def Let_def set_epoch_state_def)

lemma roster_step:
  assumes "coord_step X c c'" "coord_inv c" "\<not> (c_run_state c = WaitingForMembers \<and> c_run_state c' = Warmup)"
  shows "roster c' = roster c"
  using assms
proof (cases rule: coord_step.cases)
  case (step_tick pending now seed r)
  then show ?thesis using assms(3) roster_tick by blast
next
  case (step_warmup_witness "from" w now seed)
  then show ?thesis by (auto simp: warmup_witness_def dest!: roster_store roster_train split: if_splits)
next
  case (step_witness "from" w now)
  then show ?thesis by (auto simp: submit_witness_def dest!: roster_store roster_change split: if_splits)
next
  case (step_health_check checks n)
  then show ?thesis using health_check_sat [OF assms(2), of X checks] by (auto simp: roster_mark_dropped)
next
  case (step_withdraw i)
  then show ?thesis by (auto simp: withdraw_def split: option.splits if_splits)
next
  case (step_eject i)
  then show ?thesis by (auto simp: eject_def split: option.splits if_splits)
next
  case (step_pause now)
  then show ?thesis by (auto simp: pause_def set_epoch_state_def dest!: roster_change split: if_splits)
next
  case (step_resume now)
  then show ?thesis by (auto simp: resume_def guard_err_def dest!: roster_waiting split: if_splits)
next
  case (step_checkpoint "from" i repo)
  then show ?thesis by (auto simp: record_checkpoint_def split: option.splits if_splits)
qed

text \<open>
  (C7) Nobody is lost within an epoch. Whatever operation is applied to a coordinator of the invariant,
  the clients and the exited clients together are the same members, counted with multiplicity, unless
  the operation is the tick that starts a new epoch; that tick takes the first 256 pending clients as
  healthy members and forgets the previous ones. So at the end of an epoch everybody who took part can
  be found in exactly one of the two lists, where earning and slashing look.
\<close>

theorem epoch_membership_conserved:
  assumes "coord_inv c" "coord_step X c c'"
  shows "roster c' = roster c
     \<or> c_run_state c = WaitingForMembers \<and> c_run_state c' = Warmup
       \<and> (\<exists>pending. cc_init_min_clients (c_config c) \<le> length pending
            \<and> clients c' = map client_new (take 256 pending) \<and> es_exited_clients (es c') = [])"
proof (cases "c_run_state c = WaitingForMembers \<and> c_run_state c' = Warmup")
  case True
  from assms(2) show ?thesis
  proof (cases rule: coord_step.cases)
    case (step_tick pending now seed r)
    then obtain p where p: "begin_epoch p now c = Ok c'" "cc_init_min_clients (c_config c) \<le> u_cast 16 (length p)"
      using True by (auto simp: tick_def tick_waiting_for_members_def split: option.splits if_splits)
    then have "cc_init_min_clients (c_config c) \<le> length p"
      by (metis le_trans mod_less_eq_dividend u_cast_def)
    then show ?thesis
      using begin_epoch_eq [OF assms(1), of p now] p(1) True
      by (intro disjI2 conjI exI [of _ p]) (auto simp: EpochState_zeroed_def EpochState_default_def)
  qed (use True assms(1) in \<open>auto simp: warmup_witness_def submit_witness_def health_check_def withdraw_def eject_def
        pause_def resume_def record_checkpoint_def set_client_state_def set_epoch_state_def halted_def active_def
        set_checkpoint_def change_state_def assert_ok_def guard_err_def
        dest!: health_check_sat [THEN sat_Ok] split: option.splits if_splits\<close>)
qed (use roster_step [OF assms(2,1)] in blast)

theorem epoch_membership_conserved_witness:
  "\<exists>X c. coord_step X demo_closing c \<and> c_run_state c = RoundTrain \<and> roster c = roster demo_closing"
proof -
  obtain c where c: "tick None 40 6 demo_closing = Ok (c, Ticked)" "c_run_state c = RoundTrain"
    using demo_closing_ticks by blast
  then have step: "coord_step demo_X demo_closing c"
    by (auto intro: step_tick demo_closing_inv)
  show ?thesis
    using epoch_membership_conserved [OF demo_closing_inv(1) step] step c(2)
    by (intro exI [of _ demo_X] exI [of _ c]) simp
qed

section \<open>Consensus on a commitment\<close>

text \<open>The witnesses that vote for the commitment at index \<open>i\<close>: it is the first one their filter contains.\<close>

definition votes_for :: "externs \<Rightarrow> Commitment list \<Rightarrow> Witness list \<Rightarrow> nat \<Rightarrow> nat" where
  "votes_for X cms ws i = length (filter (\<lambda>w.
     find_position (\<lambda>cm. bloom_contains X (wt_broadcast_bloom w) (cm_data_hash cm)) cms = Some i) ws)"

lemma score_commitments_eq:
  assumes "length scores = length cms" "\<forall>i < length cms. scores ! i + length ws < 2 ^ 16"
  shows "(score_commitments X cms ws scores :: ('e, nat list) res) = Ok (map (\<lambda>i. scores ! i + votes_for X cms ws i) [0..<length cms])"
  using assms
proof (induction ws arbitrary: scores)
  case Nil
  then have "map (\<lambda>i. scores ! i) [0..<length cms] = scores"
    by (metis map_nth)
  then show ?case
    by (simp add: votes_for_def)
next
  case (Cons w ws)
  let ?f = "find_position (\<lambda>cm. bloom_contains X (wt_broadcast_bloom w) (cm_data_hash cm)) cms"
  show ?case
  proof (cases ?f)
    case None
    have "\<forall>i < length cms. scores ! i + length ws < 2 ^ 16"
      using Cons.prems(2) by auto
    then show ?thesis
      using None Cons.IH [OF Cons.prems(1)] by (simp add: votes_for_def)
  next
    case (Some k)
    then have k: "k < length cms"
      by (auto dest: find_position_Some)
    have IH: "(score_commitments X cms ws (scores[k := scores ! k + 1]) :: ('e, nat list) res)
        = Ok (map (\<lambda>i. scores[k := scores ! k + 1] ! i + votes_for X cms ws i) [0..<length cms])"
      using Cons.prems k by (intro Cons.IH) (auto simp: nth_list_update)
    have "map (\<lambda>i. scores[k := scores ! k + 1] ! i + votes_for X cms ws i) [0..<length cms]
        = map (\<lambda>i. scores ! i + votes_for X cms (w # ws) i) [0..<length cms]"
      using Cons.prems(1) k Some by (auto simp: votes_for_def nth_list_update)
    moreover have "scores ! k + 1 < 2 ^ 16"
      using Cons.prems(2) k by auto
    ultimately show ?thesis
      using IH Some by (simp add: u_add_def)
  qed
qed

lemma max_by_key_fold:
  "\<exists>b. fold (\<lambda>x best. case best of None \<Rightarrow> Some x | Some b \<Rightarrow> if snd b \<le> snd x then Some x else Some b) xs (Some a) = Some b
     \<and> b \<in> insert a (set xs) \<and> (\<forall>x\<in>insert a (set xs). snd x \<le> snd b)" for xs :: "(nat \<times> nat) list"
proof (induction xs arbitrary: a)
  case (Cons x xs)
  show ?case
    using Cons.IH [of x] Cons.IH [of a] by (cases "snd a \<le> snd x") fastforce+
qed simp

lemma max_by_key_snd_Some:
  assumes "max_by_key_snd xs = Some b"
  shows "b \<in> set xs \<and> (\<forall>x\<in>set xs. snd x \<le> snd b)"
proof (cases xs)
  case (Cons a ys)
  then show ?thesis
    using assms max_by_key_fold [of ys a] by (auto simp: max_by_key_snd_def)
qed (use assms in \<open>simp add: max_by_key_snd_def\<close>)

lemma max_by_key_snd_None: "max_by_key_snd xs = None \<longleftrightarrow> xs = []"
proof (cases xs)
  case (Cons a ys)
  then show ?thesis
    using max_by_key_fold [of ys a] by (auto simp: max_by_key_snd_def)
qed (simp add: max_by_key_snd_def)

lemma votes_disjoint: "i \<noteq> j \<Longrightarrow> votes_for X cms ws i + votes_for X cms ws j \<le> length ws"
  by (induction ws) (auto simp: votes_for_def)

lemma sat_consensus:
  assumes "length ws < 2 ^ 16"
  shows "\<exists>x. (select_consensus_commitment_by_witnesses X cms ws quorum :: ('e, nat option) res) = Ok x \<and>
    (case x of Some i \<Rightarrow> i < length cms \<and> quorum \<le> votes_for X cms ws i \<and> (\<forall>j<length cms. votes_for X cms ws j \<le> votes_for X cms ws i)
     | None \<Rightarrow> \<forall>j<length cms. votes_for X cms ws j < quorum)"
proof -
  let ?s = "map (votes_for X cms ws) [0..<length cms]"
  define xs where "xs = filter (\<lambda>(_, score). quorum \<le> score) (enumerate 0 ?s)"
  have xs: "(i, v) \<in> set xs \<longleftrightarrow> i < length cms \<and> v = votes_for X cms ws i \<and> quorum \<le> v" for i v
    by (auto simp: xs_def in_set_enumerate_eq)
  have "(score_commitments X cms ws (replicate (length cms) 0) :: ('e, nat list) res)
      = Ok (map (\<lambda>i. replicate (length cms) 0 ! i + votes_for X cms ws i) [0..<length cms])"
    using assms by (intro score_commitments_eq) auto
  also have "map (\<lambda>i. replicate (length cms) 0 ! i + votes_for X cms ws i) [0..<length cms] = ?s"
    by simp
  finally have eq: "(select_consensus_commitment_by_witnesses X cms ws quorum :: ('e, nat option) res) = Ok (map_option fst (max_by_key_snd xs))"
    by (simp add: select_consensus_commitment_by_witnesses_def xs_def)
  show ?thesis
  proof (cases "max_by_key_snd xs")
    case None
    then have "votes_for X cms ws j < quorum" if "j < length cms" for j
      using xs [of j "votes_for X cms ws j"] that by (auto simp: max_by_key_snd_None not_le)
    then show ?thesis
      using eq None by simp
  next
    case (Some b)
    obtain i v where b: "b = (i, v)" by force
    have iv: "i < length cms" "v = votes_for X cms ws i" "quorum \<le> v" "\<forall>x\<in>set xs. snd x \<le> v"
      using max_by_key_snd_Some [OF Some] xs [of i v] by (auto simp: b)
    have "votes_for X cms ws j \<le> v" if "j < length cms" for j
      using iv(3,4) xs [of j "votes_for X cms ws j"] that by (cases "quorum \<le> votes_for X cms ws j") auto
    then show ?thesis
      using eq Some b iv by simp
  qed
qed

text \<open>
  (C8) The consensus on a commitment. Every witness votes for the first commitment its broadcast filter
  contains. The selection always returns; if it returns a commitment, that one has at least the quorum
  and no other has more votes; if it returns none, no commitment reached the quorum; and when the
  quorum is more than half of the witnesses the selected one is the only one that reached it.
\<close>

theorem consensus_commitment:
  assumes "length ws < 2 ^ 16"
  shows "\<exists>x. (select_consensus_commitment_by_witnesses X cms ws quorum :: ('e, nat option) res) = Ok x
     \<and> (x = None \<longleftrightarrow> (\<forall>j<length cms. votes_for X cms ws j < quorum))
     \<and> (\<forall>i. x = Some i \<longrightarrow> i < length cms \<and> quorum \<le> votes_for X cms ws i
          \<and> (\<forall>j<length cms. votes_for X cms ws j \<le> votes_for X cms ws i)
          \<and> (length ws < 2 * quorum \<longrightarrow> (\<forall>j<length cms. quorum \<le> votes_for X cms ws j \<longrightarrow> j = i)))"
proof -
  obtain x where x: "(select_consensus_commitment_by_witnesses X cms ws quorum :: ('e, nat option) res) = Ok x"
    "case x of Some i \<Rightarrow> i < length cms \<and> quorum \<le> votes_for X cms ws i \<and> (\<forall>j<length cms. votes_for X cms ws j \<le> votes_for X cms ws i)
     | None \<Rightarrow> \<forall>j<length cms. votes_for X cms ws j < quorum"
    using sat_consensus [OF assms, of X cms quorum] by blast
  have "j = i" if "quorum \<le> votes_for X cms ws i" "quorum \<le> votes_for X cms ws j" "length ws < 2 * quorum" for i j
    using votes_disjoint [of j i X cms ws] that by (cases "j = i") auto
  then show ?thesis
    using x by (intro exI [of _ x]) (cases x; auto simp: not_less)
qed

theorem consensus_commitment_witness:
  "\<exists>x. select_consensus_commitment_by_witnesses demo_X [\<lparr>cm_data_hash = [1], cm_signature = []\<rparr>]
       [(demo_witness undefined)\<lparr>wt_broadcast_bloom := \<lparr>bloom_keys = [], bloom_bits = 0\<rparr>\<rparr>] 1 = (Ok x :: (unit, nat option) res)
     \<and> x = Some 0"
proof -
  let ?ws = "[(demo_witness undefined)\<lparr>wt_broadcast_bloom := \<lparr>bloom_keys = [], bloom_bits = 0\<rparr>\<rparr>]"
  let ?cms = "[\<lparr>cm_data_hash = [1], cm_signature = []\<rparr>]"
  have "votes_for demo_X ?cms ?ws 0 = 1"
    by (simp add: votes_for_def bloom_contains_def)
  moreover obtain x where "select_consensus_commitment_by_witnesses demo_X ?cms ?ws 1 = (Ok x :: (unit, nat option) res)"
      "x = None \<longleftrightarrow> (\<forall>j<length ?cms. votes_for demo_X ?cms ?ws j < 1)" "\<forall>i. x = Some i \<longrightarrow> i < length ?cms"
    using consensus_commitment [of ?ws demo_X ?cms 1] by auto
  ultimately show ?thesis
    by (cases x) auto
qed

end
