(* ===== verification/Coordinator_Findings.thy ===== *)
theory Coordinator_Findings
  imports Coordinator_Epochs
begin

text \<open>
  Three behaviours of the coordinator that differ from what its comments say, each as a theorem about
  the model: witnesses stored during warmup keep an index into a client list that a tick compacts; the
  configuration check accepts a verification percentage no committee can be drawn with; and the
  historical client index does not survive the compaction either.
\<close>

section \<open>Stale witness indices in warmup\<close>

definition stale_witness :: "nat \<Rightarrow> Witness" where
  "stale_witness i = demo_witness \<lparr>wp_position = 0, wp_index = i, wp_witness = 1\<rparr>"

lemma demo_warmup:
  "\<exists>c. tick (Some [demo_node 1, demo_node 2]) 5 9 demo_coordinator = Ok (c, Ticked) \<and> c_run_state c = Warmup
     \<and> c_run_state_start_unix_timestamp c = 5 \<and> c_config c = demo_config \<and> tick_room c
     \<and> clients c = [client_new (demo_node 1), client_new (demo_node 2)] \<and> rd_witnesses (cur c) = [] \<and> coord_inv c
     \<and> es_exited_clients (es c) = []"
proof -
  have st: "c_run_state demo_coordinator = WaitingForMembers"
    by (simp add: demo_coordinator_def)
  obtain c where c: "tick (Some [demo_node 1, demo_node 2]) 5 9 demo_coordinator = Ok (c, Ticked)" "c_run_state c = Warmup"
      "c_run_state_start_unix_timestamp c = 5" "c_config c = demo_config" "tick_room c"
      "clients c = [client_new (demo_node 1), client_new (demo_node 2)]"
    using demo_epoch by blast
  obtain p where p: "begin_epoch p 5 demo_coordinator = Ok c"
    using c(1,2) by (auto simp: tick_def tick_waiting_for_members_def st split: if_splits)
  then have "es c = EpochState_zeroed\<lparr>es_first_round := sb_new True, es_cold_start_epoch := es_cold_start_epoch (es demo_coordinator),
          es_start_step := pr_step (c_progress demo_coordinator), es_start_timestamp := 5,
          es_clients := map client_new (take 256 p)\<rparr>"
    using begin_epoch_eq [OF demo_inv(1) st, of p 5] by auto
  then have "cur c = Round_default" "es_exited_clients (es c) = []"
    by (simp_all add: cur_def EpochState_zeroed_def EpochState_default_def NUM_STORED_ROUNDS_def)
  moreover have "coord_inv c"
    using sat_tick [OF demo_inv, of "Some [demo_node 1, demo_node 2]" 5 9] c(1) by simp
  ultimately show ?thesis
    using c by (intro exI [of _ c]) (simp add: Round_default_def)
qed

text \<open>
  A run in warmup with two clients and no witness yet; and the same after the second client sent its witness
  and the first one changed its state.
\<close>

definition warmed :: "Coordinator \<Rightarrow> bool" where
  "warmed c \<longleftrightarrow> c_run_state c = Warmup \<and> c_run_state_start_unix_timestamp c = 5 \<and> c_config c = demo_config
     \<and> clients c = [client_new (demo_node 1), client_new (demo_node 2)] \<and> rd_witnesses (cur c) = []
     \<and> es_exited_clients (es c) = [] \<and> rounds_wf (es c)"

definition stale_state :: "ClientState \<Rightarrow> Coordinator \<Rightarrow> Coordinator" where
  "stale_state st c = set_client_state 0 st (add_witness (stale_witness 1) c)"

lemma warmed_witness:
  assumes "warmed c"
  shows "warmup_witness (demo_node 2) (stale_witness 1) now seed c = Ok (add_witness (stale_witness 1) c)"
proof -
  note c = assms [unfolded warmed_def]
  have "expected_witnesses c = 2"
    using c by (simp add: expected_witnesses_def demo_config_def SOLANA_MAX_NUM_WITNESSES_def)
  then show ?thesis
    using c by (simp add: warmup_witness_def halted_def verify_client_def slice_get_def stale_witness_def demo_witness_def
        node_eq_def client_new_def store_witness_eq)
qed

lemma stale_state_facts:
  assumes "warmed c"
  shows "c_run_state (stale_state st c) = Warmup" "c_config (stale_state st c) = demo_config"
    "c_run_state_start_unix_timestamp (stale_state st c) = 5" "rd_witnesses (cur (stale_state st c)) = [stale_witness 1]"
    "clients (stale_state st c) = [(client_new (demo_node 1))\<lparr>client_state := st\<rparr>, client_new (demo_node 2)]"
    "rounds_wf (es (stale_state st c))" "es_exited_clients (es (stale_state st c)) = []"
    "tick_room c \<Longrightarrow> tick_room (stale_state st c)"
proof -
  note c = assms [unfolded warmed_def]
  define c1 where "c1 = add_witness (stale_witness 1) c"
  have c1: "rounds_wf (es c1)" "rd_witnesses (cur c1) = [stale_witness 1]"
    using c rounds_wf_add_witness [of c "stale_witness 1"] cur_add_witness [of c "stale_witness 1"] by (simp_all add: c1_def)
  then show "c_run_state (stale_state st c) = Warmup" "c_config (stale_state st c) = demo_config"
    "c_run_state_start_unix_timestamp (stale_state st c) = 5" "rd_witnesses (cur (stale_state st c)) = [stale_witness 1]"
    "clients (stale_state st c) = [(client_new (demo_node 1))\<lparr>client_state := st\<rparr>, client_new (demo_node 2)]"
    "rounds_wf (es (stale_state st c))" "es_exited_clients (es (stale_state st c)) = []"
    using c by (simp_all add: stale_state_def c1_def set_client_state_def set_epoch_state_def update_at_def add_witness_def cur_def)
  show "tick_room (stale_state st c)" if "tick_room c"
    using that c cur_add_witness [of c "stale_witness 1"]
    by (simp add: tick_room_def Let_def get_sequence_length_def stale_state_def set_client_state_def set_epoch_state_def add_witness_def cur_def)
qed

lemma stale_state_panics:
  assumes "warmed c" "st \<noteq> Healthy"
  defines "c3 \<equiv> exit_unhealthy 0 (stale_state st c)"
  shows "tick pending 6 3 (stale_state st c) = Ok (c3, Ticked)" "c_run_state c3 = Warmup"
    "verify_client (demo_node 2) 0 (clients c3)" "warmup_witness (demo_node 2) (stale_witness 0) 7 3 c3 = Panic"
proof -
  note c2 = stale_state_facts [OF assms(1), of st]
  have cl: "clients c3 = [client_new (demo_node 2)]"
    using assms(2) by (simp add: c2 c3_def client_new_def)
  have "check_timeout (stale_state st c) 6 10 = (Ok False :: (CoordinatorError, bool) res)"
    by (simp add: check_timeout_def c2 u_add_def)
  moreover have "cc_warmup_time demo_config = 10" "cc_min_clients demo_config = 1"
    by (simp_all add: demo_config_def)
  moreover have "move_clients_to_exited 0 (stale_state st c) = (Ok c3 :: (CoordinatorError, Coordinator) res)"
    by (simp add: move_clients_to_exited_eq c2 c3_def)
  ultimately show "tick pending 6 3 (stale_state st c) = Ok (c3, Ticked)"
    using cl by (simp add: tick_def tick_warmup_def c2 u_cast_def c3_def del: exit_unhealthy_simps(15) rbind_eq_Ok)
  show "warmup_witness (demo_node 2) (stale_witness 0) 7 3 c3 = Panic"
    using c2 cl by (simp add: c3_def warmup_witness_def halted_def verify_client_def slice_get_def stale_witness_def demo_witness_def
        node_eq_def client_new_def store_witness_eq slice_index_def)
  show "c_run_state c3 = Warmup" "verify_client (demo_node 2) 0 (clients c3)"
    using c2 cl by (simp_all add: c3_def verify_client_def slice_get_def node_eq_def client_new_def)
qed

text \<open>
  A warmup witness can be made to panic. From the demonstration run the following is reachable: two
  clients enter warmup, the second sends its warmup witness, the first is ejected, and a tick before the
  end of warmup moves the ejected client out of the list. The stored index now points beyond the list,
  and the next warmup witness, sent by a member with its correct index, panics on it instead of being
  counted or rejected. The comment above the index check says that such an out-of-bounds read cannot
  happen any more.
\<close>

theorem warmup_witness_stale_index:
  "\<exists>c. (coord_step demo_X)\<^sup>*\<^sup>* demo_coordinator c \<and> coord_inv c \<and> c_run_state c = Warmup
     \<and> verify_client (demo_node 2) 0 (clients c)
     \<and> warmup_witness (demo_node 2) (stale_witness 0) 7 3 c = Panic"
proof -
  obtain c where t: "tick (Some [demo_node 1, demo_node 2]) 5 9 demo_coordinator = Ok (c, Ticked)" "tick_room c" and c: "warmed c"
    using demo_warmup by (auto simp: warmed_def coord_inv_def)
  have "Ejected \<noteq> Healthy" by simp
  note panics = stale_state_panics [OF c this]
  have ejected: "eject 0 (add_witness (stale_witness 1) c) = Ok (stale_state Ejected c)"
    using c by (simp add: warmed_def eject_def stale_state_def slice_get_def client_new_def)
  have "(coord_step demo_X)\<^sup>*\<^sup>* demo_coordinator c"
    using step_tick [OF demo_inv(2) t(1)] by (rule r_into_rtranclp)
  also have "coord_step demo_X c (add_witness (stale_witness 1) c)"
    by (rule step_warmup_witness [OF warmed_witness [OF c, of 5 3]])
  also have "coord_step demo_X \<dots> (stale_state Ejected c)"
    by (rule step_eject [OF ejected])
  also have "coord_step demo_X \<dots> (exit_unhealthy 0 (stale_state Ejected c))"
    by (rule step_tick [OF stale_state_facts(8) [OF c t(2)] panics(1)])
  finally (rtranclp.rtrancl_into_rtrancl) have steps: "(coord_step demo_X)\<^sup>*\<^sup>* demo_coordinator (exit_unhealthy 0 (stale_state Ejected c))" .
  show ?thesis
    by (intro exI [of _ "exit_unhealthy 0 (stale_state Ejected c)"] conjI steps coord_steps_inv [OF steps demo_inv(1)] panics)
qed

section \<open>Verification percentage\<close>

text \<open>
  The configuration check lets a percentage above one hundred through, and with such a
  configuration no witness is ever accepted: the check succeeds whatever the percentage is, while in
  every state of every run with a percentage above 100 \<open>witness\<close> fails.
\<close>

theorem percentage_unchecked:
  "config_check (cfg\<lparr>cc_verification_percent := p\<rparr>) = config_check cfg
   \<and> (100 < cc_verification_percent (c_config c) \<longrightarrow> submit_witness X from w now c \<noteq> Ok c')"
proof
  show "config_check (cfg\<lparr>cc_verification_percent := p\<rparr>) = config_check cfg"
    by (simp add: config_check_def check_error_def)
  show "100 < cc_verification_percent (c_config c) \<longrightarrow> submit_witness X from w now c \<noteq> Ok c'"
    by (auto simp: submit_witness_def cs_from_coordinator_def cs_new_def guard_err_def split: if_splits)
qed

theorem percentage_unchecked_witness:
  "config_check (demo_config\<lparr>cc_verification_percent := 101\<rparr>)
   \<and> submit_witness demo_X (demo_node 1) (stale_witness 0) 7 (demo_coordinator\<lparr>c_config := demo_config\<lparr>cc_verification_percent := 101\<rparr>\<rparr>)
       \<noteq> Ok demo_coordinator"
  using percentage_unchecked [of 101 demo_config "demo_coordinator\<lparr>c_config := demo_config\<lparr>cc_verification_percent := 101\<rparr>\<rparr>"
      demo_X "demo_node 1" "stale_witness 0" 7 demo_coordinator] demo_inv(1)
  by (simp add: coord_inv_def config_wf_def demo_coordinator_def)

section \<open>Historical client indices\<close>

definition demo_departing :: Coordinator where
  "demo_departing = demo_coordinator\<lparr>c_epoch_state := EpochState_default\<lparr>es_clients :=
     [client_new (demo_node 1), (client_new (demo_node 2))\<lparr>client_state := Withdrawn\<rparr>, client_new (demo_node 3)]\<rparr>\<rparr>"

text \<open>
  \<open>get_client_at_historical_index\<close> does not give the client a round had at that index once somebody
  in the middle of the list has left: after the compaction index 1 of the old list of three answers
  with the client that had index 2 and index 2 with the one that had index 1. Health checks and the
  lookup of a past round's clients read this function.
\<close>

theorem historical_index_permuted:
  fixes a b d :: NodeIdentity and c :: Coordinator
  assumes "clients c = [client_new a, (client_new b)\<lparr>client_state := Withdrawn\<rparr>, client_new d]" "es_exited_clients (es c) = []"
  shows "\<exists>c'. move_clients_to_exited h c = (Ok c' :: (unit, Coordinator) res)
     \<and> map client_id (get_historical_clients c 3) = [a, b, d]
     \<and> map client_id (get_historical_clients c' 3) = [a, d, b]"
proof -
  have m: "move_clients_to_exited h c = (Ok (exit_unhealthy h c) :: (unit, Coordinator) res)"
    using assms by (simp add: move_clients_to_exited_eq)
  have u: "[0..<3] = [0, 1, 2::nat]"
    by (simp add: upt_rec)
  show ?thesis
    using assms
    by (intro exI [of _ "exit_unhealthy h c"] conjI m)
      (simp_all add: get_historical_clients_def u get_client_at_historical_index_def exit_unhealthy_def List.map_filter_simps
        slice_get_def client_new_def stamp_def)
qed

theorem historical_index_permuted_witness:
  "\<exists>c'. move_clients_to_exited 4 demo_departing = (Ok c' :: (unit, Coordinator) res)
     \<and> map client_id (get_historical_clients demo_departing 3) = [demo_node 1, demo_node 2, demo_node 3]
     \<and> map client_id (get_historical_clients c' 3) = [demo_node 1, demo_node 3, demo_node 2]"
  by (rule historical_index_permuted) (simp_all add: demo_departing_def EpochState_default_def)

end
