(* ===== verification/Solana.thy ===== *)
theory Solana
  imports Rust_Prelude
begin

text \<open>
  What the on-chain programs share. Accounts are read and written through maps from their keys; an
  account derived from seeds is keyed by those seeds, since the \<open>seeds\<close> constraint of a context pins the
  account it receives to the address of exactly these seeds. A violated account constraint, a missing
  account, an account created twice and a refused token transfer are errors of their own beside the
  errors of a program; which of Anchor's codes a constraint reports is not distinguished.

  The token program and the address derivations are not code of the repository and are fields of the
  parameter \<open>runtime\<close>. \<open>token_laws\<close> states what the programs rely on. The locale \<open>ledger_total\<close> is the
  contract of a running total over the accounts of a program.
\<close>

section \<open>Accounts and errors\<close>

type_synonym pubkey = bytes

definition Pubkey_default :: pubkey where
  "Pubkey_default = replicate 32 0"

record Clock =
  clk_unix_timestamp :: int
  clk_slot :: nat

datatype 'e anchor_error =
    ProgramError 'e
  | ConstraintViolated
  | AccountNotInitialized
  | AccountInUse
  | AccountDiscriminatorAlreadySet
  | TokenTransferFailed

definition load :: "('k \<Rightarrow> 'a option) \<Rightarrow> 'k \<Rightarrow> ('e anchor_error, 'a) res" where
  "load m k = ok_or AccountNotInitialized (m k)"

definition init_account :: "('k \<Rightarrow> 'a option) \<Rightarrow> 'k \<Rightarrow> ('e anchor_error, unit) res" where
  "init_account m k = guard_err (m k \<noteq> None) AccountInUse"

definition require_constraint :: "bool \<Rightarrow> ('e anchor_error, unit) res" where
  "require_constraint b = guard_err (\<not> b) ConstraintViolated"

definition fail_if :: "bool \<Rightarrow> 'e \<Rightarrow> ('e anchor_error, unit) res" where
  "fail_if bad e = guard_err bad (ProgramError e)"

section \<open>Tokens\<close>

record TokenAccount =
  ta_mint :: pubkey
  ta_owner :: pubkey
  ta_delegate :: "pubkey option"
  ta_amount :: nat

type_synonym ledger = "pubkey \<Rightarrow> TokenAccount option"

text \<open>
  \<open>token_transfer L src dst authority amount\<close> is the transfer of the SPL token program,
  \<open>associated_token mint owner\<close> the address of the associated token account,
  \<open>create_associated_token\<close> its creation, and
  \<open>find_program_address program seeds\<close> the address and bump of an account derived from seeds,
  \<open>create_program_address program seeds\<close> the address of seeds that already end in a bump.
\<close>

record runtime =
  token_transfer :: "ledger \<Rightarrow> pubkey \<Rightarrow> pubkey \<Rightarrow> pubkey \<Rightarrow> nat \<Rightarrow> ledger option"
  associated_token :: "pubkey \<Rightarrow> pubkey \<Rightarrow> pubkey"
  create_associated_token :: "ledger \<Rightarrow> pubkey \<Rightarrow> pubkey \<Rightarrow> ledger option"
  find_program_address :: "string \<Rightarrow> bytes list \<Rightarrow> pubkey \<times> nat"
  create_program_address :: "string \<Rightarrow> bytes list \<Rightarrow> pubkey option"

definition balance :: "ledger \<Rightarrow> pubkey \<Rightarrow> nat" where
  "balance L k = (case L k of None \<Rightarrow> 0 | Some a \<Rightarrow> ta_amount a)"

definition transfer ::
  "runtime \<Rightarrow> ledger \<Rightarrow> pubkey \<Rightarrow> pubkey \<Rightarrow> pubkey \<Rightarrow> nat \<Rightarrow> ('e anchor_error, ledger) res" where
  "transfer R L src dst authority amount = ok_or TokenTransferFailed (token_transfer R L src dst authority amount)"

definition init_associated_token :: "runtime \<Rightarrow> ledger \<Rightarrow> pubkey \<Rightarrow> pubkey \<Rightarrow> ('e anchor_error, ledger) res" where
  "init_associated_token R L mint owner = ok_or AccountInUse (create_associated_token R L mint owner)"

text \<open>The constraints on the token account of a signer, and on an associated token account.\<close>

definition wallet_account :: "ledger \<Rightarrow> pubkey \<Rightarrow> pubkey \<Rightarrow> pubkey \<Rightarrow> ('e anchor_error, TokenAccount) res" where
  "wallet_account L key mint owner =
     rbind (load L key) (\<lambda>a.
     rbind (require_constraint (ta_mint a = mint)) (\<lambda>_.
     rbind (require_constraint (ta_owner a = owner)) (\<lambda>_.
     rbind (require_constraint (ta_delegate a = None)) (\<lambda>_. Ok a))))"

definition vault_account :: "runtime \<Rightarrow> ledger \<Rightarrow> pubkey \<Rightarrow> pubkey \<Rightarrow> pubkey \<Rightarrow> ('e anchor_error, TokenAccount) res" where
  "vault_account R L key mint owner =
     rbind (load L key) (\<lambda>a.
     rbind (require_constraint (ta_owner a = owner)) (\<lambda>_.
     rbind (require_constraint (key = associated_token R mint owner)) (\<lambda>_. Ok a)))"

text \<open>
  Documented behaviour of the token program. A transfer that succeeds moves the amount from the source,
  which holds it and belongs to the authority or has it as its delegate, to the destination of the same
  mint, changes no other balance and no mint or owner; a transfer out of an account the authority owns
  succeeds when the amount is there and the destination has room for it. An associated token account is
  created empty, at an address that had no account, for its mint and owner.
\<close>

definition token_laws :: "runtime \<Rightarrow> bool" where
  "token_laws R \<longleftrightarrow>
     (\<forall>L src dst auth n L'. token_transfer R L src dst auth n = Some L' \<longrightarrow>
        (\<exists>a b. L src = Some a \<and> L dst = Some b \<and> ta_mint a = ta_mint b
           \<and> (ta_owner a = auth \<or> ta_delegate a = Some auth) \<and> n \<le> ta_amount a)
        \<and> (\<forall>k. balance L' k = (if src = dst then balance L k
             else if k = src then balance L k - n else if k = dst then balance L k + n else balance L k))
        \<and> (\<forall>k. map_option ta_mint (L' k) = map_option ta_mint (L k)
             \<and> map_option ta_owner (L' k) = map_option ta_owner (L k)))
   \<and> (\<forall>L src dst auth n a b. L src = Some a \<longrightarrow> L dst = Some b \<longrightarrow> ta_mint a = ta_mint b \<longrightarrow> ta_owner a = auth
        \<longrightarrow> n \<le> ta_amount a \<longrightarrow> ta_amount b + n < 2 ^ 64 \<longrightarrow> token_transfer R L src dst auth n \<noteq> None)
   \<and> (\<forall>L mint owner L'. create_associated_token R L mint owner = Some L' \<longrightarrow>
        L (associated_token R mint owner) = None
        \<and> L' = L(associated_token R mint owner \<mapsto> \<lparr>ta_mint = mint, ta_owner = owner, ta_delegate = None, ta_amount = 0\<rparr>))"

section \<open>Running totals\<close>

text \<open>
  A total kept beside accounts: every step changes the part of at most one account, and the total by as
  much. Along every run the total is then the sum of the parts.
\<close>

locale ledger_total =
  fixes step :: "'s \<Rightarrow> 's \<Rightarrow> bool" and total :: "'s \<Rightarrow> nat" and part :: "'s \<Rightarrow> 'k \<Rightarrow> nat"
  assumes step_part: "step s s' \<Longrightarrow>
    \<exists>k. (\<forall>j. j \<noteq> k \<longrightarrow> part s' j = part s j) \<and> total s' + part s k = total s + part s' k"
begin

definition balanced :: "'s \<Rightarrow> bool" where
  "balanced s \<longleftrightarrow> finite {k. part s k \<noteq> 0} \<and> total s = (\<Sum>k | part s k \<noteq> 0. part s k)"

lemma sum_superset:
  assumes "finite A" "{k. part s k \<noteq> 0} \<subseteq> A"
  shows "(\<Sum>k | part s k \<noteq> 0. part s k) = (\<Sum>k\<in>A. part s k)"
  using assms by (intro sum.mono_neutral_left) auto

lemma balanced_step:
  assumes "step s s'" "balanced s"
  shows "balanced s'"
proof -
  obtain k where k: "\<And>j. j \<noteq> k \<Longrightarrow> part s' j = part s j" "total s' + part s k = total s + part s' k"
    using step_part [OF assms(1)] by blast
  let ?A = "insert k {j. part s j \<noteq> 0}"
  have fin: "finite ?A"
    using assms(2) by (simp add: balanced_def)
  have sub: "{j. part s' j \<noteq> 0} \<subseteq> ?A"
    using k(1) by force
  have "(\<Sum>j\<in>?A. part s' j) + part s k = (\<Sum>j\<in>?A. part s j) + part s' k"
  proof -
    have "(\<Sum>j\<in>?A - {k}. part s' j) = (\<Sum>j\<in>?A - {k}. part s j)"
      using k(1) by (intro sum.cong) auto
    then show ?thesis
      using sum.remove [OF fin, of k "part s"] sum.remove [OF fin, of k "part s'"] by simp
  qed
  moreover have "total s = (\<Sum>j\<in>?A. part s j)"
    using assms(2) sum_superset [OF fin, of s] by (auto simp: balanced_def)
  ultimately have "total s' = (\<Sum>j\<in>?A. part s' j)"
    using k(2) by simp
  then show ?thesis
    using sum_superset [OF fin sub] finite_subset [OF sub fin] by (simp add: balanced_def)
qed

lemma balanced_steps: "step\<^sup>*\<^sup>* s s' \<Longrightarrow> balanced s \<Longrightarrow> balanced s'"
  by (induction rule: rtranclp_induct) (auto intro: balanced_step)

lemma balanced_part_le: "balanced s \<Longrightarrow> part s k \<le> total s"
  by (cases "part s k = 0") (auto simp: balanced_def intro: member_le_sum)

end

section \<open>Lemmas\<close>

declare load_def [rust_ctrl] init_account_def [rust_ctrl] require_constraint_def [rust_ctrl] fail_if_def [rust_ctrl]
  transfer_def [rust_ctrl]

lemma u_ops_eq_Ok [simp]:
  "u_add w a b = Ok c \<longleftrightarrow> a + b < 2 ^ w \<and> c = a + b" "u_mul w a b = Ok c \<longleftrightarrow> a * b < 2 ^ w \<and> c = a * b"
  "u_sub a b = Ok c \<longleftrightarrow> b \<le> a \<and> c = a - b" "u_div a b = Ok c \<longleftrightarrow> b \<noteq> 0 \<and> c = a div b"
  "i64_add x y = Ok z \<longleftrightarrow> - (2 ^ 63) \<le> x + y \<and> x + y < 2 ^ 63 \<and> z = x + y"
  "i64_sub x y = Ok z \<longleftrightarrow> - (2 ^ 63) \<le> x - y \<and> x - y < 2 ^ 63 \<and> z = x - y"
  by (auto simp: rust_arith)

lemma load_eq_Ok [simp]: "load m k = Ok a \<longleftrightarrow> m k = Some a"
  by (simp add: load_def ok_or_def split: option.splits)

lemma init_account_eq_Ok [simp]: "init_account m k = Ok u \<longleftrightarrow> m k = None"
  by (simp add: init_account_def guard_err_def)

lemma require_constraint_eq_Ok [simp]: "require_constraint b = Ok u \<longleftrightarrow> b"
  by (simp add: require_constraint_def guard_err_def)

lemma fail_if_eq_Ok [simp]: "fail_if b e = Ok u \<longleftrightarrow> \<not> b"
  by (simp add: fail_if_def guard_err_def)

lemma transfer_eq_Ok [simp]:
  "transfer R L src dst auth n = Ok L' \<longleftrightarrow> token_transfer R L src dst auth n = Some L'"
  by (simp add: transfer_def ok_or_def split: option.splits)

lemma sat_account_ctrl [simp]:
  "sat (load m k) Q \<longleftrightarrow> (\<forall>a. m k = Some a \<longrightarrow> Q a)"
  "sat (init_account m k) Q' \<longleftrightarrow> (m k = None \<longrightarrow> Q' ())"
  "sat (require_constraint b) Q' \<longleftrightarrow> (b \<longrightarrow> Q' ())"
  "sat (fail_if b e) Q' \<longleftrightarrow> (\<not> b \<longrightarrow> Q' ())"
  "sat (transfer R L src dst auth n) Q'' \<longleftrightarrow> (\<forall>L'. token_transfer R L src dst auth n = Some L' \<longrightarrow> Q'' L')"
  by (auto simp: sat_iff load_def init_account_def require_constraint_def fail_if_def transfer_def ok_or_def guard_err_def
      split: option.splits)

lemma wallet_account_eq_Ok [simp]:
  "wallet_account L key mint owner = Ok a \<longleftrightarrow>
     L key = Some a \<and> ta_mint a = mint \<and> ta_owner a = owner \<and> ta_delegate a = None"
  by (auto simp: wallet_account_def)

lemma vault_account_eq_Ok [simp]:
  "vault_account R L key mint owner = Ok a \<longleftrightarrow>
     L key = Some a \<and> ta_owner a = owner \<and> key = associated_token R mint owner"
  by (auto simp: vault_account_def)

lemma sat_token_accounts [simp]:
  "sat (wallet_account L key mint owner) Q \<longleftrightarrow>
     (\<forall>a. L key = Some a \<and> ta_mint a = mint \<and> ta_owner a = owner \<and> ta_delegate a = None \<longrightarrow> Q a)"
  "sat (vault_account R L key mint owner) Q' \<longleftrightarrow>
     (\<forall>a. L key = Some a \<and> ta_owner a = owner \<and> key = associated_token R mint owner \<longrightarrow> Q' a)"
  by (auto simp: wallet_account_def vault_account_def)

lemma transfer_moves:
  assumes "token_laws R" "token_transfer R L src dst auth n = Some L'"
  shows "src \<noteq> dst \<Longrightarrow> balance L' src = balance L src - n" "src \<noteq> dst \<Longrightarrow> balance L' dst = balance L dst + n"
    "k \<noteq> src \<Longrightarrow> k \<noteq> dst \<Longrightarrow> balance L' k = balance L k" "n \<le> balance L src" "src = dst \<Longrightarrow> balance L' k = balance L k"
    "map_option ta_owner (L' k) = map_option ta_owner (L k)" "map_option ta_mint (L' k) = map_option ta_mint (L k)"
    "balance L' k \<le> balance L k + n" "balance L k \<le> balance L' k + n"
proof -
  have h: "(\<exists>a b. L src = Some a \<and> L dst = Some b \<and> ta_mint a = ta_mint b
           \<and> (ta_owner a = auth \<or> ta_delegate a = Some auth) \<and> n \<le> ta_amount a)
        \<and> (\<forall>k. balance L' k = (if src = dst then balance L k
             else if k = src then balance L k - n else if k = dst then balance L k + n else balance L k))
        \<and> (\<forall>k. map_option ta_mint (L' k) = map_option ta_mint (L k)
             \<and> map_option ta_owner (L' k) = map_option ta_owner (L k))"
    by (rule conjunct1 [OF assms(1) [unfolded token_laws_def], rule_format, OF assms(2)])
  then obtain a where "L src = Some a" "n \<le> ta_amount a"
    by blast
  note owners = conjunct2 [OF conjunct2 [OF h], rule_format] and moves = conjunct1 [OF conjunct2 [OF h], rule_format]
  show "n \<le> balance L src"
    using \<open>L src = Some a\<close> \<open>n \<le> ta_amount a\<close> by (simp add: balance_def)
  then show "balance L' k \<le> balance L k + n" "balance L k \<le> balance L' k + n"
    unfolding moves by auto
  show "src \<noteq> dst \<Longrightarrow> balance L' src = balance L src - n" "src \<noteq> dst \<Longrightarrow> balance L' dst = balance L dst + n"
    "k \<noteq> src \<Longrightarrow> k \<noteq> dst \<Longrightarrow> balance L' k = balance L k" "src = dst \<Longrightarrow> balance L' k = balance L k"
    by (simp_all add: moves)
  show "map_option ta_owner (L' k) = map_option ta_owner (L k)" "map_option ta_mint (L' k) = map_option ta_mint (L k)"
    using owners by blast+
qed

lemma transfer_in_order:
  assumes "token_laws R" "L src = Some a" "L dst = Some b" "ta_mint a = ta_mint b" "ta_owner a = auth"
    "n \<le> ta_amount a" "ta_amount b + n < 2 ^ 64"
  shows "\<exists>L'. token_transfer R L src dst auth n = Some L'"
proof -
  have "token_transfer R L src dst auth n \<noteq> None"
    by (rule conjunct1 [OF conjunct2 [OF assms(1) [unfolded token_laws_def]], rule_format, OF assms(2-7)])
  then show ?thesis by simp
qed

lemma init_associated_token_Ok:
  assumes "token_laws R" "init_associated_token R L mint owner = Ok L'"
  shows "L (associated_token R mint owner) = None"
    "L' = L(associated_token R mint owner \<mapsto> \<lparr>ta_mint = mint, ta_owner = owner, ta_delegate = None, ta_amount = 0\<rparr>)"
proof -
  have "create_associated_token R L mint owner = Some L'"
    using assms(2) by (simp add: init_associated_token_def ok_or_def split: option.splits)
  from conjunct2 [OF conjunct2 [OF assms(1) [unfolded token_laws_def]], rule_format, OF this]
  show "L (associated_token R mint owner) = None"
    "L' = L(associated_token R mint owner \<mapsto> \<lparr>ta_mint = mint, ta_owner = owner, ta_delegate = None, ta_amount = 0\<rparr>)"
    by simp_all
qed

lemma init_associated_token_no_panic [simp]: "init_associated_token R L mint owner \<noteq> Panic"
  by (simp add: init_associated_token_def ok_or_def split: option.splits)

text \<open>A runtime for concrete instances: balances are moved as the laws say, addresses are the seeds.\<close>

definition demo_transfer :: "ledger \<Rightarrow> pubkey \<Rightarrow> pubkey \<Rightarrow> pubkey \<Rightarrow> nat \<Rightarrow> ledger option" where
  "demo_transfer L src dst auth n = (case (L src, L dst) of
       (Some a, Some b) \<Rightarrow>
         if ta_mint a = ta_mint b \<and> ta_owner a = auth \<and> n \<le> ta_amount a
         then Some (if src = dst then L
                    else L(src \<mapsto> a\<lparr>ta_amount := ta_amount a - n\<rparr>, dst \<mapsto> b\<lparr>ta_amount := ta_amount b + n\<rparr>))
         else None
     | _ \<Rightarrow> None)"

definition demo_runtime :: runtime where
  "demo_runtime = \<lparr>token_transfer = demo_transfer, associated_token = (\<lambda>mint owner. 7 # mint @ owner),
     create_associated_token = (\<lambda>L mint owner. if L (7 # mint @ owner) = None
       then Some (L(7 # mint @ owner \<mapsto> \<lparr>ta_mint = mint, ta_owner = owner, ta_delegate = None, ta_amount = 0\<rparr>)) else None),
     find_program_address = (\<lambda>p seeds. (concat seeds, 255)), create_program_address = (\<lambda>p seeds. Some (concat seeds))\<rparr>"

lemma demo_token_laws: "token_laws demo_runtime"
proof -
  have "(\<exists>a b. L src = Some a \<and> L dst = Some b \<and> ta_mint a = ta_mint b
           \<and> (ta_owner a = auth \<or> ta_delegate a = Some auth) \<and> n \<le> ta_amount a)
        \<and> (\<forall>k. balance L' k = (if src = dst then balance L k
             else if k = src then balance L k - n else if k = dst then balance L k + n else balance L k))
        \<and> (\<forall>k. map_option ta_mint (L' k) = map_option ta_mint (L k)
             \<and> map_option ta_owner (L' k) = map_option ta_owner (L k))"
    if m: "demo_transfer L src dst auth n = Some L'" for L src dst auth n L'
  proof -
    obtain a b where "L src = Some a" "L dst = Some b" "ta_mint a = ta_mint b" "ta_owner a = auth" "n \<le> ta_amount a"
        "L' = (if src = dst then L
               else L(src \<mapsto> a\<lparr>ta_amount := ta_amount a - n\<rparr>, dst \<mapsto> b\<lparr>ta_amount := ta_amount b + n\<rparr>))"
      using m by (auto simp: demo_transfer_def split: option.splits if_splits)
    then show ?thesis
      by (auto simp: balance_def)
  qed
  moreover have "demo_transfer L src dst auth n \<noteq> None"
    if "L src = Some a" "L dst = Some b" "ta_mint a = ta_mint b" "ta_owner a = auth" "n \<le> ta_amount a" for L src dst auth n a b
    using that by (simp add: demo_transfer_def)
  moreover have "token_transfer demo_runtime = demo_transfer"
    by (simp add: demo_runtime_def)
  moreover have "create_associated_token demo_runtime L mint owner = Some L' \<longrightarrow>
        L (associated_token demo_runtime mint owner) = None \<and> L' = L(associated_token demo_runtime mint owner \<mapsto>
          \<lparr>ta_mint = mint, ta_owner = owner, ta_delegate = None, ta_amount = 0\<rparr>)" for L mint owner L'
    by (simp add: demo_runtime_def)
  ultimately show ?thesis
    unfolding token_laws_def by simp
qed

end
