(* ===== verification/Authorizer.thy ===== *)
theory Authorizer
  imports Solana
begin

text \<open>
  The authorizer program (solana-authorizer): a grantor approves a grantee for a scope, and the grantee
  may name delegates. An authorization lives at the address of its grantor, grantee and scope and is
  keyed by them; an instruction that takes an authorization without a seeds constraint may be given any
  of them, so the key is a parameter there.
\<close>

section \<open>State\<close>

datatype AuthorizerError =
    AuthorizationActiveIsTrue
  | AuthorizationClosingConditionsNotReachedYet
  | TooManyDelegates

record Authorization =
  au_bump :: nat
  au_grantor :: pubkey
  au_grantee :: pubkey
  au_scope :: bytes
  au_active :: bool
  au_delegates :: "pubkey list"
  au_grantor_update_unix_timestamp :: int

type_synonym auth_key = "pubkey \<times> pubkey \<times> bytes"
type_synonym authorizations = "auth_key \<Rightarrow> Authorization option"
type_synonym 'a authorizer_res = "(AuthorizerError anchor_error, 'a) res"

definition MAX_DELEGATES :: nat where
  "MAX_DELEGATES = 64"

definition AUTHORIZER_ID :: string where
  "AUTHORIZER_ID = ''ECEmta24U9WCwh397N4diSc8JnAbyJTG3YiTUVL5umrb''"

definition is_valid_for :: "Authorization \<Rightarrow> pubkey \<Rightarrow> pubkey \<Rightarrow> bytes \<Rightarrow> bool" where
  "is_valid_for a grantor grantee scope =
     (if \<not> au_active a then False
      else if au_grantor a \<noteq> grantor then False
      else if au_scope a \<noteq> scope then False
      else au_grantee a = Pubkey_default \<or> au_grantee a = grantee \<or> grantee \<in> set (au_delegates a))"

section \<open>Instructions\<close>

definition find_authorization :: "runtime \<Rightarrow> pubkey \<Rightarrow> pubkey \<Rightarrow> bytes \<Rightarrow> pubkey \<times> nat" where
  "find_authorization R grantor grantee scope =
     find_program_address R AUTHORIZER_ID [str_bytes ''Authorization'', grantor, grantee, scope]"

text \<open>The account is created zeroed, so a field the instruction does not write is zero.\<close>

definition authorization_create ::
  "runtime \<Rightarrow> pubkey \<Rightarrow> pubkey \<Rightarrow> bytes \<Rightarrow> authorizations \<Rightarrow> authorizations authorizer_res" where
  "authorization_create R grantor grantee scope s =
     rbind (init_account s (grantor, grantee, scope)) (\<lambda>_.
       Ok (s((grantor, grantee, scope) \<mapsto>
         \<lparr>au_bump = snd (find_authorization R grantor grantee scope), au_grantor = grantor, au_grantee = grantee,
          au_scope = scope, au_active = False, au_delegates = [], au_grantor_update_unix_timestamp = 0\<rparr>)))"

definition authorization_grantor_update ::
  "Clock \<Rightarrow> pubkey \<Rightarrow> auth_key \<Rightarrow> bool \<Rightarrow> authorizations \<Rightarrow> authorizations authorizer_res" where
  "authorization_grantor_update clock grantor key active s =
     rbind (load s key) (\<lambda>a.
     rbind (require_constraint (au_grantor a = grantor)) (\<lambda>_.
       Ok (s(key \<mapsto> a\<lparr>au_active := active, au_grantor_update_unix_timestamp := clk_unix_timestamp clock\<rparr>))))"

definition authorization_grantee_update ::
  "pubkey \<Rightarrow> auth_key \<Rightarrow> bool \<Rightarrow> pubkey list \<Rightarrow> authorizations \<Rightarrow> authorizations authorizer_res" where
  "authorization_grantee_update grantee key delegates_clear delegates_added s =
     rbind (load s key) (\<lambda>a.
     rbind (require_constraint (au_grantee a = grantee)) (\<lambda>_.
       let kept = (if delegates_clear then [] else au_delegates a) in
       rbind (fail_if (MAX_DELEGATES < length kept + length delegates_added) TooManyDelegates) (\<lambda>_.
         Ok (s(key \<mapsto> a\<lparr>au_delegates := kept @ delegates_added\<rparr>)))))"

definition i64_saturating_add :: "int \<Rightarrow> int \<Rightarrow> int" where
  "i64_saturating_add a b = max (- (2 ^ 63)) (min (2 ^ 63 - 1) (a + b))"

definition authorization_close ::
  "Clock \<Rightarrow> pubkey \<Rightarrow> auth_key \<Rightarrow> authorizations \<Rightarrow> authorizations authorizer_res" where
  "authorization_close clock grantor key s =
     rbind (load s key) (\<lambda>a.
     rbind (require_constraint (au_grantor a = grantor)) (\<lambda>_.
     rbind (fail_if (au_active a) AuthorizationActiveIsTrue) (\<lambda>_.
     rbind (fail_if (au_delegates a \<noteq> [] \<and> clk_unix_timestamp clock
                       < i64_saturating_add (au_grantor_update_unix_timestamp a) (30 * 24 * 60 * 60))
              AuthorizationClosingConditionsNotReachedYet) (\<lambda>_.
       Ok (s(key := None))))))"

section \<open>Consent\<close>

text \<open>One instruction, by the key that signs it.\<close>

inductive authorizer_step :: "runtime \<Rightarrow> pubkey \<Rightarrow> authorizations \<Rightarrow> authorizations \<Rightarrow> bool" for R where
  au_create: "authorization_create R signer grantee scope s = Ok s' \<Longrightarrow> authorizer_step R signer s s'"
| au_grantor: "authorization_grantor_update clock signer key active s = Ok s' \<Longrightarrow> authorizer_step R signer s s'"
| au_grantee: "authorization_grantee_update signer key clear added s = Ok s' \<Longrightarrow> authorizer_step R signer s s'"
| au_close: "authorization_close clock signer key s = Ok s' \<Longrightarrow> authorizer_step R signer s s'"

definition authorizations_wf :: "authorizations \<Rightarrow> bool" where
  "authorizations_wf s \<longleftrightarrow> (\<forall>g e sc a. s (g, e, sc) = Some a \<longrightarrow>
     au_grantor a = g \<and> au_grantee a = e \<and> au_scope a = sc \<and> length (au_delegates a) \<le> MAX_DELEGATES)"

definition valid_users :: "authorizations \<Rightarrow> auth_key \<Rightarrow> pubkey set" where
  "valid_users s k = {u. \<exists>a. s k = Some a \<and> is_valid_for a (fst k) u (snd (snd k))}"

lemma authorizations_wf_step:
  assumes "authorizer_step R signer s s'" "authorizations_wf s"
  shows "authorizations_wf s'"
  using assms
  by (cases rule: authorizer_step.cases)
    (auto simp: authorization_create_def authorization_grantor_update_def authorization_grantee_update_def
      authorization_close_def authorizations_wf_def Let_def not_less split: if_splits)

lemma authorizations_wf_steps:
  "(\<lambda>s s'. \<exists>x. authorizer_step R x s s')\<^sup>*\<^sup>* s s' \<Longrightarrow> authorizations_wf s \<Longrightarrow> authorizations_wf s'"
  by (induction rule: rtranclp_induct) (auto intro: authorizations_wf_step)

lemma step_at_key:
  assumes "authorizer_step R signer s s'" "authorizations_wf s" "s' (g, e, sc) \<noteq> s (g, e, sc)"
  shows "signer = g \<and> (\<forall>a a'. s (g, e, sc) = Some a \<and> s' (g, e, sc) = Some a' \<longrightarrow> au_delegates a' = au_delegates a)
       \<and> (s (g, e, sc) = None \<longrightarrow> (\<exists>a'. s' (g, e, sc) = Some a' \<and> \<not> au_active a'))
       \<and> (\<forall>a. s (g, e, sc) = Some a \<and> s' (g, e, sc) = None \<longrightarrow> \<not> au_active a)
     \<or> signer = e \<and> (\<exists>a a'. s (g, e, sc) = Some a \<and> s' (g, e, sc) = Some a' \<and> au_active a' = au_active a)"
proof -
  have fields: "au_grantor a = g" "au_grantee a = e" if "s (g, e, sc) = Some a" for a
    using assms(2) that by (auto simp: authorizations_wf_def)
  from assms(1) show ?thesis
  proof (cases rule: authorizer_step.cases)
    case (au_create grantee scope)
    then show ?thesis
      using assms(3) by (cases "(signer, grantee, scope) = (g, e, sc)") (auto simp: authorization_create_def)
  next
    case (au_grantor clock key active)
    then obtain a where a: "s key = Some a" "au_grantor a = signer"
        "s' = s(key \<mapsto> a\<lparr>au_active := active, au_grantor_update_unix_timestamp := clk_unix_timestamp clock\<rparr>)"
      by (auto simp: authorization_grantor_update_def)
    then show ?thesis
      using assms(3) fields [of a] by (cases "key = (g, e, sc)") auto
  next
    case (au_grantee key clear added)
    then obtain a ds where a: "s key = Some a" "au_grantee a = signer" "s' = s(key \<mapsto> a\<lparr>au_delegates := ds\<rparr>)"
      by (auto simp: authorization_grantee_update_def Let_def)
    then show ?thesis
      using assms(3) fields [of a] by (cases "key = (g, e, sc)") auto
  next
    case (au_close clock key)
    then obtain a where a: "s key = Some a" "au_grantor a = signer" "\<not> au_active a" "s' = s(key := None)"
      by (auto simp: authorization_close_def)
    then show ?thesis
      using assms(3) fields [of a] by (cases "key = (g, e, sc)") auto
  qed
qed

lemma card_valid_users:
  assumes "authorizations_wf s" "e \<noteq> Pubkey_default"
  shows "finite (valid_users s (g, e, sc)) \<and> card (valid_users s (g, e, sc)) \<le> MAX_DELEGATES + 1"
proof (cases "s (g, e, sc)")
  case None
  then show ?thesis by (simp add: valid_users_def)
next
  case (Some a)
  then have wf: "au_grantee a = e" "length (au_delegates a) \<le> MAX_DELEGATES"
    using assms(1) by (auto simp: authorizations_wf_def)
  have sub: "valid_users s (g, e, sc) \<subseteq> set (e # au_delegates a)"
    using Some wf assms(2) by (auto simp: valid_users_def is_valid_for_def split: if_splits)
  have "card (set (e # au_delegates a)) \<le> length (e # au_delegates a)"
    by (rule card_length)
  then show ?thesis
    using card_mono [OF _ sub] finite_subset [OF sub] wf(2) by fastforce
qed

text \<open>
  (C28) Authorizations need consent and stay bounded. In every state reached from an empty program, an
  authorization for a concrete grantee is valid for at most 65 keys, the grantee and its delegates. In
  one more instruction the set of keys it is valid for can only grow if the grantor signed, or if the
  grantee signed and the grantor has the authorization active already; when the grantor signs, the
  delegates stay as they are; and an authorization that disappears was inactive and its grantor signed.
\<close>

theorem authorization_consent:
  assumes "(\<lambda>s s'. \<exists>x. authorizer_step R x s s')\<^sup>*\<^sup>* Map.empty s" "authorizer_step R signer s s'" "e \<noteq> Pubkey_default"
  shows "finite (valid_users s' (g, e, sc)) \<and> card (valid_users s' (g, e, sc)) \<le> 65
     \<and> (valid_users s' (g, e, sc) \<noteq> valid_users s (g, e, sc) \<longrightarrow>
          signer = g \<or> signer = e \<and> (\<exists>a. s (g, e, sc) = Some a \<and> au_active a))
     \<and> (s' (g, e, sc) = None \<longrightarrow> s (g, e, sc) = None
          \<or> (\<exists>a. s (g, e, sc) = Some a \<and> \<not> au_active a \<and> (signer = g)))"
proof -
  have wf: "authorizations_wf s"
    using authorizations_wf_steps [OF assms(1)] by (simp add: authorizations_wf_def)
  then have wf': "authorizations_wf s'"
    using authorizations_wf_step [OF assms(2)] by blast
  have card: "finite (valid_users s' (g, e, sc)) \<and> card (valid_users s' (g, e, sc)) \<le> 65"
    using card_valid_users [OF wf' assms(3), of g sc] by (simp add: MAX_DELEGATES_def)
  show ?thesis
  proof (cases "s' (g, e, sc) = s (g, e, sc)")
    case True
    then show ?thesis using card by (simp add: valid_users_def)
  next
    case False
    note at = step_at_key [OF assms(2) wf False]
    have inactive: "valid_users t (g, e, sc) = {}" if "t (g, e, sc) = Some a" "\<not> au_active a" for t a
      using that by (simp add: valid_users_def is_valid_for_def)
    have "signer = g \<or> signer = e \<and> (\<exists>a. s (g, e, sc) = Some a \<and> au_active a)"
      if "valid_users s' (g, e, sc) \<noteq> valid_users s (g, e, sc)"
      using at that inactive [of s] inactive [of s'] by metis
    moreover have "s (g, e, sc) = None \<or> (\<exists>a. s (g, e, sc) = Some a \<and> \<not> au_active a \<and> (signer = g))"
      if "s' (g, e, sc) = None"
      using at that by (cases "s (g, e, sc)") auto
    ultimately show ?thesis using card by blast
  qed
qed

theorem authorization_consent_witness:
  "\<exists>s s'. authorization_create demo_runtime [1] [2] [3] Map.empty = Ok s
     \<and> authorization_grantor_update \<lparr>clk_unix_timestamp = 5, clk_slot = 0\<rparr> [1] ([1], [2], [3]) True s = Ok s'
     \<and> valid_users s' ([1], [2], [3]) = {[2]} \<and> card (valid_users s' ([1], [2], [3])) \<le> 65"
proof -
  obtain s where s: "authorization_create demo_runtime [1] [2] [3] Map.empty = Ok s"
      "\<exists>a. s ([1], [2], [3]) = Some a \<and> au_grantor a = [1] \<and> au_grantee a = [2] \<and> au_scope a = [3] \<and> au_delegates a = []"
    by (simp add: authorization_create_def init_account_def guard_err_def)
  then obtain a where a: "s ([1], [2], [3]) = Some a" "au_grantor a = [1]" "au_grantee a = [2]" "au_scope a = [3]" "au_delegates a = []"
    by blast
  define s' where "s' = s(([1], [2], [3]) \<mapsto> a\<lparr>au_active := True, au_grantor_update_unix_timestamp := 5\<rparr>)"
  have s': "authorization_grantor_update \<lparr>clk_unix_timestamp = 5, clk_slot = 0\<rparr> [1] ([1], [2], [3]) True s = Ok s'"
    using a by (simp add: authorization_grantor_update_def s'_def)
  have ne: "[2] \<noteq> Pubkey_default"
    by (simp add: Pubkey_default_def numeral_eq_Suc)
  have "valid_users s' ([1], [2], [3]) = {[2]}"
    using a ne by (auto simp: valid_users_def is_valid_for_def s'_def)
  moreover have "(\<lambda>s s'. \<exists>x. authorizer_step demo_runtime x s s')\<^sup>*\<^sup>* Map.empty s"
    using s(1) by (blast intro: au_create)
  ultimately show ?thesis
    using authorization_consent [OF _ au_grantor [OF s'] ne, of demo_runtime "[1]" "[3]"] s(1) s' by blast
qed

end
