(* ===== verification/Instance_State.thy ===== *)
theory Instance_State
  imports Coordinator_Findings Authorizer
begin

text \<open>
  The coordinator program (solana-coordinator), first part: the state of a run as the account stores it
  (instance_state.rs, clients_state.rs, client.rs). It wraps the coordinator of the shared crate with the
  ledger of everybody who ever joined, keeps what they earned and what they were slashed, and forwards
  the clock and the signer of a transaction. \<open>msg!\<close> logging is left out.
\<close>

section \<open>State\<close>

datatype CoordinatorProgramError =
    UpdateConfigFinished
  | UpdateConfigNotHalted
  | CoordinatorAccountIncorrectSize
  | ClientsFull
  | ConfigSanityCheckFailed
  | ModelSanityCheckFailed
  | ProgressSanityCheckFailed
  | SignerNotAClient
  | SignerMismatch
  | CloseCoordinatorNotHalted
  | CoordinatorErrorNoActiveRound
  | CoordinatorErrorInvalidWitness
  | CoordinatorErrorInvalidRunState
  | CoordinatorErrorDuplicateWitness
  | CoordinatorErrorInvalidHealthCheck
  | CoordinatorErrorHalted
  | CoordinatorErrorInvalidCheckpoint
  | CoordinatorErrorWitnessesFull
  | CoordinatorErrorCannotResume
  | CoordinatorErrorInvalidWithdraw
  | CoordinatorErrorInvalidCommitteeSelection
  | CoordinatorErrorInvalidCommitteeProof
  | CoordinatorErrorInvalidSlash
  | MoreClientsThanBatches
  | RunIdInvalidLength

fun ProgramError_from :: "CoordinatorError \<Rightarrow> CoordinatorProgramError" where
  "ProgramError_from NoActiveRound = CoordinatorErrorNoActiveRound"
| "ProgramError_from InvalidWitness = CoordinatorErrorInvalidWitness"
| "ProgramError_from InvalidRunState = CoordinatorErrorInvalidRunState"
| "ProgramError_from DuplicateWitness = CoordinatorErrorDuplicateWitness"
| "ProgramError_from InvalidHealthCheck = CoordinatorErrorInvalidHealthCheck"
| "ProgramError_from Halted = CoordinatorErrorHalted"
| "ProgramError_from WitnessesFull = CoordinatorErrorWitnessesFull"
| "ProgramError_from CannotResume = CoordinatorErrorCannotResume"
| "ProgramError_from InvalidWithdraw = CoordinatorErrorInvalidWithdraw"
| "ProgramError_from InvalidCommitteeSelection = CoordinatorErrorInvalidCommitteeSelection"
| "ProgramError_from InvalidCommitteeProof = CoordinatorErrorInvalidCommitteeProof"
| "ProgramError_from InvalidSlash = CoordinatorErrorInvalidSlash"

record SolanaClient =
  sc_id :: NodeIdentity
  sc_earned :: nat
  sc_slashed :: nat
  sc_active :: nat

record ClientsEpochRates =
  earning_rate_total_shared :: nat
  slashing_rate_per_client :: nat

record ClientsState =
  cs_clients :: "SolanaClient list"
  cs_next_active :: nat
  cs_current_epoch_rates :: ClientsEpochRates
  cs_future_epoch_rates :: ClientsEpochRates

record RunMetadata =
  rm_name :: fixed_string
  rm_description :: fixed_string
  rm_num_parameters :: nat
  rm_vocab_size :: nat

record CoordinatorInstanceState =
  is_metadata :: RunMetadata
  is_coordinator :: Coordinator
  is_clients_state :: ClientsState
  is_warmup_first_tick :: small_boolean
  is_training_first_tick :: small_boolean
  is_client_version :: fixed_string

definition SOLANA_MAX_NUM_PENDING_CLIENTS :: nat where
  "SOLANA_MAX_NUM_PENDING_CLIENTS = SOLANA_MAX_NUM_CLIENTS"

type_synonym 'a instance_res = "(CoordinatorProgramError, 'a) res"

section \<open>Clients\<close>

definition get_active_clients_ids :: "ClientsState \<Rightarrow> NodeIdentity list" where
  "get_active_clients_ids cs = map sc_id (filter (\<lambda>x. sc_active x = cs_next_active cs) (cs_clients cs))"

definition find_signer :: "pubkey \<Rightarrow> ClientsState \<Rightarrow> NodeIdentity instance_res" where
  "find_signer payer cs =
     (case find (\<lambda>x. signer (sc_id x) = payer) (cs_clients cs) of
        Some client \<Rightarrow> Ok (sc_id client)
      | None \<Rightarrow> Err SignerNotAClient)"

section \<open>Ticks\<close>

text \<open>\<open>to_ne_bytes\<close> and \<open>from_ne_bytes\<close> are little-endian on the Solana virtual machine.\<close>

definition get_random_seed :: "externs \<Rightarrow> Clock \<Rightarrow> nat" where
  "get_random_seed X clock =
     from_le_bytes (take 8 (sha256v X [to_le_bytes 8 (i64_as_u64 (clk_unix_timestamp clock)), to_le_bytes 8 (clk_slot clock)]))"

definition unix_now :: "Clock \<Rightarrow> nat" where
  "unix_now clock = i64_as_u64 (clk_unix_timestamp clock)"

definition set_coordinator :: "Coordinator \<Rightarrow> CoordinatorInstanceState \<Rightarrow> CoordinatorInstanceState" where
  "set_coordinator c s = s\<lparr>is_coordinator := c\<rparr>"

definition set_clients_state :: "ClientsState \<Rightarrow> CoordinatorInstanceState \<Rightarrow> CoordinatorInstanceState" where
  "set_clients_state cs s = s\<lparr>is_clients_state := cs\<rparr>"

definition earned_share_of :: "ClientsState \<Rightarrow> Client list \<Rightarrow> nat" where
  "earned_share_of cs finished =
     (if length finished = 0 then 0
      else earning_rate_total_shared (cs_current_epoch_rates cs) div length finished)"

text \<open>The settlement of one client, and the loop over all of them.\<close>

definition settle_client ::
  "Client list \<Rightarrow> Client list \<Rightarrow> nat \<Rightarrow> nat \<Rightarrow> SolanaClient \<Rightarrow> SolanaClient instance_res" where
  "settle_client finished exited share slashing_rate client =
     rbind (if list_ex (\<lambda>f. node_eq (client_id f) (sc_id client) \<and> client_state f = Healthy) finished
            then rbind (u_add 64 (sc_earned client) share) (\<lambda>e. Ok (client\<lparr>sc_earned := e\<rparr>)) else Ok client) (\<lambda>c1.
       if list_ex (\<lambda>x. node_eq (client_id x) (sc_id client) \<and> client_state x = Ejected) exited
       then rbind (u_add 64 (sc_slashed c1) slashing_rate) (\<lambda>e. Ok (c1\<lparr>sc_slashed := e\<rparr>)) else Ok c1)"

primrec settle_clients ::
  "Client list \<Rightarrow> Client list \<Rightarrow> nat \<Rightarrow> nat \<Rightarrow> SolanaClient list \<Rightarrow> SolanaClient list instance_res" where
  "settle_clients finished exited share slashing_rate [] = Ok []"
| "settle_clients finished exited share slashing_rate (c # cs) =
     rbind (settle_client finished exited share slashing_rate c) (\<lambda>c'.
     rbind (settle_clients finished exited share slashing_rate cs) (\<lambda>cs'. Ok (c' # cs')))"

definition settle_epoch :: "CoordinatorInstanceState \<Rightarrow> CoordinatorInstanceState instance_res" where
  "settle_epoch s =
     (let cs = is_clients_state s; finished = es_clients (c_epoch_state (is_coordinator s));
          exited = es_exited_clients (c_epoch_state (is_coordinator s)) in
      rbind (settle_clients finished exited (earned_share_of cs finished)
               (slashing_rate_per_client (cs_current_epoch_rates cs)) (cs_clients cs)) (\<lambda>clients.
        Ok (set_clients_state (cs\<lparr>cs_clients := clients\<rparr>) s)))"

definition after_tick :: "CoordinatorInstanceState \<Rightarrow> CoordinatorInstanceState instance_res" where
  "after_tick s =
     (let c = is_coordinator s; cs = is_clients_state s in
      if is_warmup_just_starting c \<and> sb_is_true (is_warmup_first_tick s)
      then Ok ((set_clients_state (cs\<lparr>cs_current_epoch_rates := cs_future_epoch_rates cs\<rparr>) s)
                 \<lparr>is_warmup_first_tick := sb_new False\<rparr>)
      else if is_training_just_starting c \<and> sb_is_true (is_training_first_tick s)
      then rbind (u_add 64 (cs_next_active cs) 1) (\<lambda>n.
             Ok ((set_clients_state (cs\<lparr>cs_next_active := n\<rparr>) s)\<lparr>is_training_first_tick := sb_new False\<rparr>))
      else Ok s)"

definition instance_tick :: "externs \<Rightarrow> Clock \<Rightarrow> CoordinatorInstanceState \<Rightarrow> CoordinatorInstanceState instance_res" where
  "instance_tick X clock s =
     (let waiting = (c_run_state (is_coordinator s) = WaitingForMembers);
          s1 = (if waiting then s\<lparr>is_warmup_first_tick := sb_new True, is_training_first_tick := sb_new True\<rparr> else s);
          pending = (if waiting then Some (get_active_clients_ids (is_clients_state s)) else None) in
      rbind (map_err ProgramError_from
               (tick pending (unix_now clock) (get_random_seed X clock) (is_coordinator s1))) (\<lambda>(c, r).
        case r of
          Ticked \<Rightarrow> after_tick (set_coordinator c s1)
        | EpochEnd success \<Rightarrow> settle_epoch (set_coordinator c s1)))"

section \<open>Operations\<close>

definition prepare_resume :: "CoordinatorInstanceState \<Rightarrow> CoordinatorInstanceState instance_res" where
  "prepare_resume s =
     (let c = is_coordinator s in
      rbind (guard_err (\<not> config_check (c_config c)) ConfigSanityCheckFailed) (\<lambda>_.
      rbind (guard_err (\<not> model_check (c_model c)) ModelSanityCheckFailed) (\<lambda>_.
      rbind (check_cold_start_warmup_steps c) (\<lambda>steps_ok.
      rbind (guard_err (\<not> steps_ok) ConfigSanityCheckFailed) (\<lambda>_.
        let c1 = (if c_run_state c = Uninitialized
                  then c\<lparr>c_run_state := Paused, c_progress := (c_progress c)\<lparr>pr_step := 1\<rparr>\<rparr> else c) in
        rbind (guard_err (\<not> progress_check (c_progress c1)) ProgressSanityCheckFailed) (\<lambda>_.
          Ok (set_coordinator c1 s)))))))"

definition instance_set_paused ::
  "externs \<Rightarrow> Clock \<Rightarrow> bool \<Rightarrow> CoordinatorInstanceState \<Rightarrow> CoordinatorInstanceState instance_res" where
  "instance_set_paused X clock paused s =
     (if paused then rbind (map_err ProgramError_from (pause (unix_now clock) (is_coordinator s))) (\<lambda>c. Ok (set_coordinator c s))
      else rbind (prepare_resume s) (\<lambda>s1.
           rbind (map_err ProgramError_from (resume (unix_now clock) (is_coordinator s1))) (\<lambda>c.
             let s2 = set_coordinator c s1; cs = is_clients_state s2 in
             rbind (u_add 64 (cs_next_active cs) 1) (\<lambda>n.
               instance_tick X clock (set_clients_state (cs\<lparr>cs_next_active := n\<rparr>) s2)))))"

definition instance_witness ::
  "externs \<Rightarrow> Clock \<Rightarrow> pubkey \<Rightarrow> Witness \<Rightarrow> CoordinatorInstanceState \<Rightarrow> CoordinatorInstanceState instance_res" where
  "instance_witness X clock payer w s =
     rbind (find_signer payer (is_clients_state s)) (\<lambda>i.
     rbind (map_err ProgramError_from (submit_witness X i w (unix_now clock) (is_coordinator s))) (\<lambda>c.
       instance_tick X clock (set_coordinator c s)))"

definition instance_warmup_witness ::
  "externs \<Rightarrow> Clock \<Rightarrow> pubkey \<Rightarrow> Witness \<Rightarrow> CoordinatorInstanceState \<Rightarrow> CoordinatorInstanceState instance_res" where
  "instance_warmup_witness X clock payer w s =
     rbind (find_signer payer (is_clients_state s)) (\<lambda>i.
     rbind (map_err ProgramError_from
              (warmup_witness i w (unix_now clock) (get_random_seed X clock) (is_coordinator s))) (\<lambda>c.
       instance_tick X clock (set_coordinator c s)))"

definition instance_set_future_epoch_rates ::
  "nat option \<Rightarrow> nat option \<Rightarrow> CoordinatorInstanceState \<Rightarrow> CoordinatorInstanceState instance_res" where
  "instance_set_future_epoch_rates earning slashing s =
     (let cs = is_clients_state s; r = cs_future_epoch_rates cs;
          r1 = (case earning of None \<Rightarrow> r | Some e \<Rightarrow> r\<lparr>earning_rate_total_shared := e\<rparr>);
          r2 = (case slashing of None \<Rightarrow> r1 | Some e \<Rightarrow> r1\<lparr>slashing_rate_per_client := e\<rparr>)
      in Ok (set_clients_state (cs\<lparr>cs_future_epoch_rates := r2\<rparr>) s))"

definition instance_update ::
  "RunMetadata option \<Rightarrow> CoordinatorConfig option \<Rightarrow> model option \<Rightarrow> CoordinatorProgress option
   \<Rightarrow> CoordinatorInstanceState \<Rightarrow> CoordinatorInstanceState instance_res" where
  "instance_update metadata config mdl progress s =
     (if c_run_state (is_coordinator s) = Finished then Err UpdateConfigFinished
      else if \<not> halted (is_coordinator s) \<and> (config \<noteq> None \<or> mdl \<noteq> None \<or> progress \<noteq> None) then Err UpdateConfigNotHalted
      else
        let s1 = (case metadata of None \<Rightarrow> s | Some m \<Rightarrow> s\<lparr>is_metadata := m\<rparr>) in
        rbind (case config of
                 None \<Rightarrow> Ok (is_coordinator s1)
               | Some cfg \<Rightarrow> rbind (guard_err (\<not> config_check cfg) ConfigSanityCheckFailed) (\<lambda>_.
                   Ok ((is_coordinator s1)\<lparr>c_config := cfg\<rparr>))) (\<lambda>c1.
        rbind (case mdl of
                 None \<Rightarrow> Ok c1
               | Some m \<Rightarrow> rbind (guard_err (\<not> model_check m) ModelSanityCheckFailed) (\<lambda>_. Ok (c1\<lparr>c_model := m\<rparr>))) (\<lambda>c2.
        rbind (if config \<noteq> None \<or> mdl \<noteq> None
               then rbind (check_cold_start_warmup_steps c2) (\<lambda>steps_ok. guard_err (\<not> steps_ok) ConfigSanityCheckFailed)
               else Ok ()) (\<lambda>_.
        rbind (case progress of
                 None \<Rightarrow> Ok c2
               | Some p \<Rightarrow> rbind (guard_err (\<not> progress_check p) ModelSanityCheckFailed) (\<lambda>_. Ok (c2\<lparr>c_progress := p\<rparr>))) (\<lambda>c3.
          Ok (set_coordinator c3 s1))))))"

definition join_ledger :: "NodeIdentity \<Rightarrow> CoordinatorInstanceState \<Rightarrow> CoordinatorInstanceState instance_res" where
  "join_ledger i s =
     (let cs = is_clients_state s in
      case find_position (\<lambda>x. node_eq (sc_id x) i) (cs_clients cs) of
        Some k \<Rightarrow> Ok (set_clients_state (cs\<lparr>cs_clients :=
                     update_at k (\<lambda>x. x\<lparr>sc_id := i, sc_active := cs_next_active cs\<rparr>) (cs_clients cs)\<rparr>) s)
      | None \<Rightarrow>
          rbind (guard_err (cc_global_batch_size_end (c_config (is_coordinator s)) = u_cast 16 (length (cs_clients cs)))
                   MoreClientsThanBatches) (\<lambda>_.
          rbind (map_err (\<lambda>_. ClientsFull) (vec_push SOLANA_MAX_NUM_PENDING_CLIENTS (cs_clients cs)
                   \<lparr>sc_id = i, sc_earned = 0, sc_slashed = 0, sc_active = cs_next_active cs\<rparr>)) (\<lambda>clients.
            Ok (set_clients_state (cs\<lparr>cs_clients := clients\<rparr>) s))))"

definition tick_unless_halted :: "externs \<Rightarrow> Clock \<Rightarrow> CoordinatorInstanceState \<Rightarrow> CoordinatorInstanceState instance_res" where
  "tick_unless_halted X clock s = (if \<not> halted (is_coordinator s) then instance_tick X clock s else Ok s)"

definition instance_join_run ::
  "externs \<Rightarrow> Clock \<Rightarrow> NodeIdentity \<Rightarrow> CoordinatorInstanceState \<Rightarrow> CoordinatorInstanceState instance_res" where
  "instance_join_run X clock i s = rbind (join_ledger i s) (tick_unless_halted X clock)"

definition instance_health_check ::
  "externs \<Rightarrow> Clock \<Rightarrow> pubkey \<Rightarrow> HealthChecks \<Rightarrow> CoordinatorInstanceState \<Rightarrow> CoordinatorInstanceState instance_res" where
  "instance_health_check X clock payer checks s =
     rbind (find_signer payer (is_clients_state s)) (\<lambda>_.
     rbind (map_err ProgramError_from (health_check X checks (is_coordinator s))) (\<lambda>(c, _).
       instance_tick X clock (set_coordinator c s)))"

definition instance_slash :: "nat \<Rightarrow> CoordinatorInstanceState \<Rightarrow> CoordinatorInstanceState instance_res" where
  "instance_slash index s =
     rbind (map_err ProgramError_from (eject index (is_coordinator s))) (\<lambda>c. Ok (set_coordinator c s))"

definition instance_checkpoint ::
  "externs \<Rightarrow> Clock \<Rightarrow> pubkey \<Rightarrow> Checkpoint \<Rightarrow> CoordinatorInstanceState \<Rightarrow> CoordinatorInstanceState instance_res" where
  "instance_checkpoint X clock payer repo s =
     rbind (find_signer payer (is_clients_state s)) (\<lambda>i.
     rbind (ok_or SignerNotAClient
              (find_position (\<lambda>x. node_eq (client_id x) i) (es_clients (c_epoch_state (is_coordinator s))))) (\<lambda>index.
     rbind (map_err ProgramError_from (record_checkpoint i index repo (is_coordinator s))) (\<lambda>c.
       tick_unless_halted X clock (set_coordinator c s))))"

end
