(* ===== verification/Instance_Props.thy ===== *)
theory Instance_Props
  imports Instance_State
begin

text \<open>
  The settlement of an epoch, the ledger of a run and the ticks of an instance. Two theorems at the end
  show earnings and slashes that get lost on the way.
\<close>

section \<open>Settlement\<close>

definition finished_healthy :: "Client list \<Rightarrow> bytes \<Rightarrow> bool" where
  "finished_healthy finished g = list_ex (\<lambda>f. signer (client_id f) = g \<and> client_state f = Healthy) finished"

definition exited_ejected :: "Client list \<Rightarrow> bytes \<Rightarrow> bool" where
  "exited_ejected exited g = list_ex (\<lambda>f. signer (client_id f) = g \<and> client_state f = Ejected) exited"

abbreviation key :: "SolanaClient \<Rightarrow> bytes" where
  "key c \<equiv> signer (sc_id c)"

definition settled :: "Client list \<Rightarrow> Client list \<Rightarrow> nat \<Rightarrow> nat \<Rightarrow> SolanaClient \<Rightarrow> SolanaClient" where
  "settled finished exited share rate c =
     c\<lparr>sc_earned := sc_earned c + (if finished_healthy finished (key c) then share else 0),
       sc_slashed := sc_slashed c + (if exited_ejected exited (key c) then rate else 0)\<rparr>"

lemma settle_client_eq:
  "settle_client finished exited share rate c =
     (if (finished_healthy finished (key c) \<longrightarrow> sc_earned c + share < 2 ^ 64)
       \<and> (exited_ejected exited (key c) \<longrightarrow> sc_slashed c + rate < 2 ^ 64)
      then Ok (settled finished exited share rate c) else Panic)"
  by (simp add: settle_client_def settled_def finished_healthy_def exited_ejected_def node_eq_def u_add_def)

lemma settle_clients_Ok:
  "settle_clients finished exited share rate cs = Ok cs' \<Longrightarrow> cs' = map (settled finished exited share rate) cs"
  by (induction cs arbitrary: cs') (auto simp: settle_client_eq split: if_splits)

lemma settle_clients_returns:
  "list_all (\<lambda>c. sc_earned c + share < 2 ^ 64 \<and> sc_slashed c + rate < 2 ^ 64) cs \<Longrightarrow>
   settle_clients finished exited share rate cs = Ok (map (settled finished exited share rate) cs)"
  by (induction cs) (auto simp: settle_client_eq)

lemma settle_clients_no_Err [simp]: "settle_clients finished exited share rate cs \<noteq> Err e"
  by (induction cs) (auto simp: settle_client_eq rbind_eq_Err)

lemma sum_settled:
  "sum_list (map (\<lambda>c. sc_earned (settled finished exited share rate c)) cs)
   = sum_list (map sc_earned cs) + share * length (filter (\<lambda>c. finished_healthy finished (key c)) cs)"
  by (induction cs) (auto simp: settled_def)

lemma paid_le_finished:
  assumes "distinct (map key cs)"
  shows "length (filter (\<lambda>c. finished_healthy finished (key c)) cs) \<le> length finished"
proof -
  let ?p = "filter (\<lambda>c. finished_healthy finished (key c)) cs"
  have "distinct (map key ?p)"
    using assms by (simp add: distinct_map_filter)
  then have "length ?p = card (set (map key ?p))"
    by (metis distinct_card length_map)
  also have "\<dots> \<le> card (set (map (\<lambda>f. signer (client_id f)) finished))"
    by (intro card_mono) (auto simp: finished_healthy_def list_ex_iff image_iff, metis)
  also have "\<dots> \<le> length finished"
    using card_length [of "map (\<lambda>f. signer (client_id f)) finished"] by simp
  finally show ?thesis .
qed

abbreviation ledger_of :: "CoordinatorInstanceState \<Rightarrow> SolanaClient list" where
  "ledger_of s \<equiv> cs_clients (is_clients_state s)"

text \<open>
  (C12) The settlement of an epoch. When the tick of the coordinator ends an epoch, every entry of the
  ledger earns the share if a client with its key finished healthy and nothing otherwise, is charged the
  slashing rate once if a client with its key was ejected, and changes in no other way; the order in
  which clients joined and left does not matter. With the keys of the ledger distinct, what is earned
  in total is at most the earning rate of the epoch.
\<close>

theorem epoch_settlement:
  assumes "instance_tick X clock s = Ok s'" "distinct (map key (ledger_of s))"
    and "tick (if c_run_state (is_coordinator s) = WaitingForMembers then Some (get_active_clients_ids (is_clients_state s)) else None)
           (unix_now clock) (get_random_seed X clock) (is_coordinator s) = Ok (c, EpochEnd success)"
  shows "is_coordinator s' = c
     \<and> ledger_of s' = map (\<lambda>x. x\<lparr>
          sc_earned := sc_earned x + (if finished_healthy (clients c) (key x)
             then earning_rate_total_shared (cs_current_epoch_rates (is_clients_state s)) div length (clients c) else 0),
          sc_slashed := sc_slashed x + (if exited_ejected (es_exited_clients (es c)) (key x)
             then slashing_rate_per_client (cs_current_epoch_rates (is_clients_state s)) else 0)\<rparr>) (ledger_of s)
     \<and> sum_list (map sc_earned (ledger_of s'))
         \<le> sum_list (map sc_earned (ledger_of s)) + earning_rate_total_shared (cs_current_epoch_rates (is_clients_state s))"
proof -
  let ?rates = "cs_current_epoch_rates (is_clients_state s)" and ?fin = "clients c" and ?ex = "es_exited_clients (es c)"
  define share where "share = (if length ?fin = 0 then 0 else earning_rate_total_shared ?rates div length ?fin)"
  define rate where "rate = slashing_rate_per_client ?rates"
  have s': "is_coordinator s' = c" "ledger_of s' = map (settled ?fin ?ex share rate) (ledger_of s)"
    using assms(1,3)
    by (auto simp: instance_tick_def settle_epoch_def set_coordinator_def set_clients_state_def Let_def earned_share_of_def
        share_def rate_def dest!: settle_clients_Ok split: if_splits)
  have empty: "?fin = [] \<Longrightarrow> \<not> finished_healthy ?fin g" for g
    by (simp add: finished_healthy_def)
  have "share * length (filter (\<lambda>c. finished_healthy ?fin (key c)) (ledger_of s)) \<le> share * length ?fin"
    using paid_le_finished [OF assms(2)] by (intro mult_le_mono2)
  also have "\<dots> \<le> earning_rate_total_shared ?rates"
    by (simp add: share_def)
  finally have "sum_list (map sc_earned (ledger_of s')) \<le> sum_list (map sc_earned (ledger_of s)) + earning_rate_total_shared ?rates"
    by (simp add: s'(2) comp_def sum_settled)
  moreover have "settled ?fin ?ex share rate x = x\<lparr>
          sc_earned := sc_earned x + (if finished_healthy ?fin (key x) then earning_rate_total_shared ?rates div length ?fin else 0),
          sc_slashed := sc_slashed x + (if exited_ejected ?ex (key x) then slashing_rate_per_client ?rates else 0)\<rparr>" for x
    using empty by (auto simp: settled_def share_def rate_def)
  ultimately show ?thesis
    using s' by simp
qed

section \<open>The ledger\<close>

definition ledger_wf :: "CoordinatorInstanceState \<Rightarrow> bool" where
  "ledger_wf s \<longleftrightarrow> distinct (map key (ledger_of s)) \<and> length (ledger_of s) \<le> 256"

definition earned_of :: "bytes \<Rightarrow> CoordinatorInstanceState \<Rightarrow> nat" where
  "earned_of g s = (case find (\<lambda>c. key c = g) (ledger_of s) of Some c \<Rightarrow> sc_earned c | None \<Rightarrow> 0)"

definition slashed_of :: "bytes \<Rightarrow> CoordinatorInstanceState \<Rightarrow> nat" where
  "slashed_of g s = (case find (\<lambda>c. key c = g) (ledger_of s) of Some c \<Rightarrow> sc_slashed c | None \<Rightarrow> 0)"

text \<open>A ledger that grew: the entries of the old one in front, with the same keys and at least the amounts.\<close>

definition grown :: "SolanaClient list \<Rightarrow> SolanaClient list \<Rightarrow> bool" where
  "grown xs ys \<longleftrightarrow> length xs \<le> length ys \<and> (\<forall>i<length xs. key (ys ! i) = key (xs ! i)
     \<and> sc_earned (xs ! i) \<le> sc_earned (ys ! i) \<and> sc_slashed (xs ! i) \<le> sc_slashed (ys ! i))"

lemma grown_refl [simp]: "grown xs xs"
  by (simp add: grown_def)

lemma grown_trans: "grown xs ys \<Longrightarrow> grown ys zs \<Longrightarrow> grown xs zs"
  unfolding grown_def by (auto dest: order_less_le_trans intro: order_trans)

lemma grown_map:
  "(\<And>x. key (f x) = key x \<and> sc_earned x \<le> sc_earned (f x) \<and> sc_slashed x \<le> sc_slashed (f x)) \<Longrightarrow> grown xs (map f xs)"
  by (simp add: grown_def)

lemma grown_append: "grown xs (xs @ ys)"
  by (simp add: grown_def nth_append)

lemma grown_update_at:
  "(\<And>x. sc_earned (f x) = sc_earned x \<and> sc_slashed (f x) = sc_slashed x) \<Longrightarrow> (k < length xs \<Longrightarrow> key (f (xs ! k)) = key (xs ! k))
   \<Longrightarrow> grown xs (update_at k f xs)"
  by (auto simp: grown_def update_at_def nth_list_update)

lemma grown_lookup:
  assumes "grown xs ys" "distinct (map key ys)"
  shows "(case find (\<lambda>c. key c = g) xs of Some c \<Rightarrow> sc_earned c | None \<Rightarrow> 0)
      \<le> (case find (\<lambda>c. key c = g) ys of Some c \<Rightarrow> sc_earned c | None \<Rightarrow> 0)"
    "(case find (\<lambda>c. key c = g) xs of Some c \<Rightarrow> sc_slashed c | None \<Rightarrow> 0)
      \<le> (case find (\<lambda>c. key c = g) ys of Some c \<Rightarrow> sc_slashed c | None \<Rightarrow> 0)"
proof -
  have "\<exists>d. find (\<lambda>c. key c = g) ys = Some d \<and> sc_earned c \<le> sc_earned d \<and> sc_slashed c \<le> sc_slashed d"
    if c: "find (\<lambda>c. key c = g) xs = Some c" for c
  proof -
    obtain i where i: "i < length xs" "key (xs ! i) = g" "c = xs ! i"
      using c by (auto simp: find_Some_iff)
    then have ys: "i < length ys" "key (ys ! i) = g" "sc_earned c \<le> sc_earned (ys ! i)" "sc_slashed c \<le> sc_slashed (ys ! i)"
      using assms(1) by (auto simp: grown_def)
    then have "find (\<lambda>c. key c = g) ys = Some (ys ! i)"
      using assms(2) by (auto simp: find_Some_iff distinct_conv_nth)
    then show ?thesis
      using ys by blast
  qed
  then show "(case find (\<lambda>c. key c = g) xs of Some c \<Rightarrow> sc_earned c | None \<Rightarrow> 0)
      \<le> (case find (\<lambda>c. key c = g) ys of Some c \<Rightarrow> sc_earned c | None \<Rightarrow> 0)"
    "(case find (\<lambda>c. key c = g) xs of Some c \<Rightarrow> sc_slashed c | None \<Rightarrow> 0)
      \<le> (case find (\<lambda>c. key c = g) ys of Some c \<Rightarrow> sc_slashed c | None \<Rightarrow> 0)"
    by (fastforce split: option.splits)+
qed

text \<open>What the operations of an instance do to the ledger.\<close>

definition ledger_step :: "CoordinatorInstanceState \<Rightarrow> CoordinatorInstanceState \<Rightarrow> bool" where
  "ledger_step s s' \<longleftrightarrow> grown (ledger_of s) (ledger_of s') \<and> (ledger_wf s \<longrightarrow> ledger_wf s')"

lemma ledger_step_refl: "ledger_of s' = ledger_of s \<Longrightarrow> ledger_step s s'"
  by (simp add: ledger_step_def ledger_wf_def)

lemma ledger_step_trans: "ledger_step s t \<Longrightarrow> ledger_step t u \<Longrightarrow> ledger_step s u"
  by (auto simp: ledger_step_def intro: grown_trans)

lemma settled_fields [simp]:
  "key (settled f x a b c) = key c" "sc_earned c \<le> sc_earned (settled f x a b c)" "sc_slashed c \<le> sc_slashed (settled f x a b c)"
  by (simp_all add: settled_def)

lemma ledger_step_settle:
  assumes "settle_epoch s = Ok s'"
  shows "ledger_step s s'"
proof -
  obtain f x a b cs where "settle_clients f x a b (ledger_of s) = Ok cs" "ledger_of s' = cs"
    using assms by (auto simp: settle_epoch_def Let_def set_clients_state_def)
  then have "ledger_of s' = map (settled f x a b) (ledger_of s)"
    by (simp add: settle_clients_Ok)
  then show ?thesis
    by (simp add: ledger_step_def ledger_wf_def grown_map comp_def)
qed

lemma ledger_step_tick:
  assumes "instance_tick X clock s = Ok s'"
  shows "ledger_step s s'"
proof -
  define s1 where "s1 = (if c_run_state (is_coordinator s) = WaitingForMembers
      then s\<lparr>is_warmup_first_tick := sb_new True, is_training_first_tick := sb_new True\<rparr> else s)"
  obtain c r where r: "(case r of Ticked \<Rightarrow> after_tick (set_coordinator c s1) | EpochEnd b \<Rightarrow> settle_epoch (set_coordinator c s1)) = Ok s'"
    using assms unfolding instance_tick_def Let_def s1_def [symmetric] by auto
  have "ledger_of (set_coordinator c s1) = ledger_of s"
    by (simp add: s1_def set_coordinator_def)
  then have "ledger_step s (set_coordinator c s1)"
    by (rule ledger_step_refl)
  moreover have "ledger_step (set_coordinator c s1) s'"
    using r by (cases r)
      (auto simp: after_tick_def Let_def set_clients_state_def intro: ledger_step_refl ledger_step_settle split: if_splits)
  ultimately show ?thesis
    by (rule ledger_step_trans)
qed

lemma ledger_set_coordinator [simp]: "ledger_of (set_coordinator c s) = ledger_of s"
  by (simp add: set_coordinator_def)

lemma ledger_step_tick_after: "instance_tick X clock t = Ok s' \<Longrightarrow> ledger_of t = ledger_of s \<Longrightarrow> ledger_step s s'"
  by (rule ledger_step_trans [OF ledger_step_refl ledger_step_tick])

lemma find_position_SomeD: "find_position P xs = Some k \<Longrightarrow> k < length xs \<and> P (xs ! k)"
  by (induction xs arbitrary: k) (auto split: if_splits)

lemma find_position_NoneD: "find_position P xs = None \<Longrightarrow> x \<in> set xs \<Longrightarrow> \<not> P x"
  by (induction xs) (auto split: if_splits)

lemma ledger_step_join:
  assumes "join_ledger i s = Ok s'"
  shows "ledger_step s s'"
proof (cases "find_position (\<lambda>x. node_eq (sc_id x) i) (ledger_of s)")
  case None
  then have "ledger_of s' = ledger_of s @ [\<lparr>sc_id = i, sc_earned = 0, sc_slashed = 0, sc_active = cs_next_active (is_clients_state s)\<rparr>]"
      "length (ledger_of s) < 256"
    using assms by (auto simp: join_ledger_def Let_def set_clients_state_def vec_push_def SOLANA_MAX_NUM_PENDING_CLIENTS_def
        SOLANA_MAX_NUM_CLIENTS_def guard_err_def split: if_splits)
  moreover have "signer i \<notin> key ` set (ledger_of s)"
    using find_position_NoneD [OF None] by (force simp: node_eq_def)
  ultimately show ?thesis
    by (simp add: ledger_step_def ledger_wf_def grown_append)
next
  case (Some k)
  let ?f = "\<lambda>x. x\<lparr>sc_id := i, sc_active := cs_next_active (is_clients_state s)\<rparr>"
  have k: "k < length (ledger_of s)" "key (ledger_of s ! k) = signer i"
    using find_position_SomeD [OF Some] by (auto simp: node_eq_def)
  have s': "ledger_of s' = update_at k ?f (ledger_of s)"
    using assms Some by (auto simp: join_ledger_def Let_def set_clients_state_def)
  moreover have "map key (update_at k ?f (ledger_of s)) = map key (ledger_of s)"
    using k by (simp add: update_at_def map_update list_update_same_conv)
  moreover have "length (update_at k ?f (ledger_of s)) = length (ledger_of s)"
    by (simp add: update_at_def)
  ultimately show ?thesis
    using k by (simp add: ledger_step_def ledger_wf_def grown_update_at)
qed

text \<open>One operation of an instance.\<close>

inductive instance_step :: "externs \<Rightarrow> CoordinatorInstanceState \<Rightarrow> CoordinatorInstanceState \<Rightarrow> bool" for X where
  in_tick: "instance_tick X clock s = Ok s' \<Longrightarrow> instance_step X s s'"
| in_set_paused: "instance_set_paused X clock paused s = Ok s' \<Longrightarrow> instance_step X s s'"
| in_witness: "instance_witness X clock payer w s = Ok s' \<Longrightarrow> instance_step X s s'"
| in_warmup_witness: "instance_warmup_witness X clock payer w s = Ok s' \<Longrightarrow> instance_step X s s'"
| in_rates: "instance_set_future_epoch_rates earning slashing s = Ok s' \<Longrightarrow> instance_step X s s'"
| in_update: "instance_update metadata config mdl progress s = Ok s' \<Longrightarrow> instance_step X s s'"
| in_join: "instance_join_run X clock i s = Ok s' \<Longrightarrow> instance_step X s s'"
| in_health: "instance_health_check X clock payer checks s = Ok s' \<Longrightarrow> instance_step X s s'"
| in_slash: "instance_slash index s = Ok s' \<Longrightarrow> instance_step X s s'"
| in_checkpoint: "instance_checkpoint X clock payer repo s = Ok s' \<Longrightarrow> instance_step X s s'"

lemma ledger_step_unless_halted: "tick_unless_halted X clock t = Ok s' \<Longrightarrow> ledger_of t = ledger_of s \<Longrightarrow> ledger_step s s'"
  by (auto simp: tick_unless_halted_def intro: ledger_step_tick_after ledger_step_refl split: if_splits)

lemma instance_step_ledger:
  assumes "instance_step X s s'"
  shows "ledger_step s s'"
  using assms
proof (cases rule: instance_step.cases)
  case (in_set_paused clock paused)
  then show ?thesis
    by (auto simp: instance_set_paused_def prepare_resume_def Let_def set_clients_state_def
        intro: ledger_step_refl elim!: ledger_step_tick_after split: if_splits)
next
  case (in_update metadata config mdl progress)
  then show ?thesis
    by (auto simp: instance_update_def Let_def split: if_splits option.splits intro: ledger_step_refl)
next
  case (in_join clock i)
  then obtain t where "ledger_step s t" "tick_unless_halted X clock t = Ok s'"
    by (auto simp: instance_join_run_def dest: ledger_step_join)
  then show ?thesis
    using ledger_step_unless_halted ledger_step_trans by blast
qed (auto simp: instance_witness_def instance_warmup_witness_def instance_set_future_epoch_rates_def Let_def
    instance_health_check_def instance_slash_def instance_checkpoint_def set_clients_state_def
    intro: ledger_step_refl ledger_step_tick elim!: ledger_step_tick_after ledger_step_unless_halted)

text \<open>
  (C13) The ledger of a run only grows. Whatever operations are applied to an instance, the keys of its
  ledger stay distinct and at most 256, every entry stays where it is with its key, and neither the
  amount a key has earned nor the amount it was slashed ever decreases. The treasurer subtracts what it
  has already paid from these amounts.
\<close>

theorem ledger_only_grows:
  assumes "(instance_step X)\<^sup>*\<^sup>* s s'" "ledger_wf s"
  shows "ledger_wf s' \<and> earned_of g s \<le> earned_of g s' \<and> slashed_of g s \<le> slashed_of g s'
     \<and> take (length (ledger_of s)) (map key (ledger_of s')) = map key (ledger_of s)"
proof -
  have "ledger_step s s'"
    using assms(1)
    by (induction rule: rtranclp_induct) (auto intro: ledger_step_refl ledger_step_trans dest: instance_step_ledger)
  then have g: "grown (ledger_of s) (ledger_of s')" "ledger_wf s'"
    using assms(2) by (auto simp: ledger_step_def)
  moreover have "distinct (map key (ledger_of s'))"
    using g(2) by (simp add: ledger_wf_def)
  moreover have "take (length (ledger_of s)) (map key (ledger_of s')) = map key (ledger_of s)"
    using g(1) by (intro nth_equalityI) (auto simp: grown_def)
  ultimately show ?thesis
    using grown_lookup [of "ledger_of s" "ledger_of s'" g] by (simp add: earned_of_def slashed_of_def)
qed

section \<open>Ticks\<close>

lemma tick_no_err:
  assumes "\<not> halted c"
  shows "tick pending now seed c \<noteq> Err e"
proof -
  have t: "check_timeout c now d \<noteq> Err e" for d
    by (simp add: check_timeout_def rbind_eq_Err)
  have b: "begin_epoch p now c \<noteq> Err e" for p
    by (auto simp: begin_epoch_def start_warmup_def rbind_eq_Err Let_def)
  have r: "tick_round_train now c \<noteq> Err e"
    by (auto simp: tick_round_train_def rbind_eq_Err t split: if_splits)
  show ?thesis
    using assms t b r
    by (cases "c_run_state c")
      (auto simp: tick_def halted_def tick_waiting_for_members_def tick_warmup_def tick_round_witness_def tick_cooldown_def
        rbind_eq_Err split: option.splits if_splits)
qed

definition ledger_room :: "CoordinatorInstanceState \<Rightarrow> bool" where
  "ledger_room s \<longleftrightarrow> cs_next_active (is_clients_state s) + 1 < 2 ^ 64
     \<and> list_all (\<lambda>c. sc_earned c + earning_rate_total_shared (cs_current_epoch_rates (is_clients_state s)) < 2 ^ 64
          \<and> sc_slashed c + slashing_rate_per_client (cs_current_epoch_rates (is_clients_state s)) < 2 ^ 64) (ledger_of s)"

lemma instance_tick_ok:
  assumes "coord_inv (is_coordinator s)" "tick_room (is_coordinator s)" "\<not> halted (is_coordinator s)" "ledger_wf s" "ledger_room s"
  shows "\<exists>s'. instance_tick X clock s = Ok s' \<and> coord_inv (is_coordinator s') \<and> ledger_wf s'"
proof -
  let ?w = "c_run_state (is_coordinator s) = WaitingForMembers"
  let ?p = "if ?w then Some (get_active_clients_ids (is_clients_state s)) else None"
  define s1 where "s1 = (if ?w then s\<lparr>is_warmup_first_tick := sb_new True, is_training_first_tick := sb_new True\<rparr> else s)"
  have s1: "is_coordinator s1 = is_coordinator s" "is_clients_state s1 = is_clients_state s"
    by (simp_all add: s1_def)
  obtain c r where t: "tick ?p (unix_now clock) (get_random_seed X clock) (is_coordinator s) = Ok (c, r)" "coord_inv c"
    using sat_returns [OF sat_tick [OF assms(1,2)] tick_no_err [OF assms(3)]] by force
  have "\<exists>s'. (case r of Ticked \<Rightarrow> after_tick (set_coordinator c s1) | EpochEnd b \<Rightarrow> settle_epoch (set_coordinator c s1)) = Ok s'
      \<and> is_coordinator s' = c"
  proof (cases r)
    case Ticked
    then show ?thesis
      using assms(5)
      by (simp add: after_tick_def Let_def set_clients_state_def set_coordinator_def s1 ledger_room_def u_add_def del: rbind_eq_Ok)
  next
    case (EpochEnd b)
    have "earned_share_of (is_clients_state s) cl \<le> earning_rate_total_shared (cs_current_epoch_rates (is_clients_state s))" for cl
      by (simp add: earned_share_of_def)
    then have "list_all (\<lambda>c. sc_earned c + earned_share_of (is_clients_state s) (clients cc) < 2 ^ 64
        \<and> sc_slashed c + slashing_rate_per_client (cs_current_epoch_rates (is_clients_state s)) < 2 ^ 64) (ledger_of s)" for cc
      using assms(5) unfolding ledger_room_def list_all_iff by (meson add_left_mono order_le_less_trans)
    then show ?thesis
      using EpochEnd
      by (simp add: settle_epoch_def Let_def set_clients_state_def set_coordinator_def s1 settle_clients_returns del: rbind_eq_Ok)
  qed
  then obtain s' where s': "(case r of Ticked \<Rightarrow> after_tick (set_coordinator c s1)
      | EpochEnd b \<Rightarrow> settle_epoch (set_coordinator c s1)) = Ok s'" "is_coordinator s' = c"
    by blast
  have "instance_tick X clock s = Ok s'"
    unfolding instance_tick_def Let_def s1_def [symmetric] s1 t map_err.simps rbind.simps prod.case by (rule s'(1))
  then show ?thesis
    using s'(2) t(2) ledger_step_tick [of X clock s s'] assms(4) by (auto simp: ledger_step_def)
qed

text \<open>
  (C14) A tick cannot be blocked. If the run is not halted, the coordinator is in a state of its
  invariant, and the counters and the ledger have room for one more epoch, then the tick transaction
  succeeds; the coordinator is again in a state of its invariant and the ledger stays well-formed.
\<close>

theorem instance_tick_returns:
  assumes "coord_inv (is_coordinator s)" "tick_room (is_coordinator s)" "\<not> halted (is_coordinator s)" "ledger_wf s" "ledger_room s"
  shows "\<exists>s'. instance_tick X clock s = Ok s' \<and> coord_inv (is_coordinator s') \<and> ledger_wf s'"
  by (rule instance_tick_ok [OF assms])

section \<open>Amounts that get lost\<close>

lemma end_epoch_clients:
  assumes "coord_inv c" "tick_room c" "end_epoch now c = Ok c'"
  shows "clients c' = (if sb_is_true (c_pending_pause c) then map leave (filter (\<lambda>x. client_state x = Healthy) (clients c))
       else filter (\<lambda>x. client_state x = Healthy) (clients c))"
    "es_exited_clients (es c') = es_exited_clients (es c)
       @ map (stamp (rd_height (cur c))) (filter (\<lambda>x. client_state x \<noteq> Healthy) (clients c))"
    "sb_is_true (c_pending_pause c) \<Longrightarrow> c_run_state c' = Paused"
  using assms(3) unfolding end_epoch_eq [OF assms(1,2)] Let_def
  by (auto simp: set_checkpoint_def withdraw_all_eq change_state_def set_epoch_state_def start_waiting_for_members_def
      exit_unhealthy_def split: if_splits)

lemma cooldown_tick_cases:
  assumes "instance_tick X clock s = Ok s'" "c_run_state (is_coordinator s) = Cooldown" "c_run_state (is_coordinator s') \<noteq> Cooldown"
  obtains c where "end_epoch (unix_now clock) (is_coordinator s) = Ok c"
    "tick None (unix_now clock) (get_random_seed X clock) (is_coordinator s) = Ok (c, EpochEnd True)"
    "settle_epoch (set_coordinator c s) = Ok s'" "is_coordinator s' = c"
proof -
  have co: "is_coordinator s' = is_coordinator t" if "after_tick t = Ok s'" for t
    using that by (auto simp: after_tick_def Let_def set_clients_state_def split: if_splits)
  have se: "is_coordinator s' = is_coordinator t" if "settle_epoch t = Ok s'" for t
    using that by (auto simp: settle_epoch_def Let_def set_clients_state_def)
  show ?thesis
    using assms that co se
    by (fastforce simp: instance_tick_def tick_def tick_cooldown_def Let_def set_coordinator_def split: if_splits)
qed

text \<open>
  An epoch that ends in a pause pays nobody. If a pause is pending when the cooldown ends, all
  remaining clients are withdrawn before the settlement looks for healthy ones, so no key of the ledger
  earns anything for the epoch although its clients finished it.
\<close>

theorem pause_forfeits_rewards:
  assumes "coord_inv (is_coordinator s)" "tick_room (is_coordinator s)" "c_run_state (is_coordinator s) = Cooldown"
    "sb_is_true (c_pending_pause (is_coordinator s))" "instance_tick X clock s = Ok s'" "c_run_state (is_coordinator s') \<noteq> Cooldown"
  shows "map sc_earned (ledger_of s') = map sc_earned (ledger_of s) \<and> c_run_state (is_coordinator s') = Paused"
proof -
  obtain c where c: "end_epoch (unix_now clock) (is_coordinator s) = Ok c" "settle_epoch (set_coordinator c s) = Ok s'"
      "is_coordinator s' = c"
    using cooldown_tick_cases [OF assms(5,3,6)] by metis
  have cl: "clients c = map leave (filter (\<lambda>x. client_state x = Healthy) (clients (is_coordinator s)))" "c_run_state c = Paused"
    using end_epoch_clients [OF assms(1,2) c(1)] assms(4) by auto
  then have "\<not> finished_healthy (clients c) g" for g
    by (auto simp: finished_healthy_def list_ex_iff leave_def)
  moreover obtain x a b where "settle_clients (clients c) x a b (ledger_of s) = Ok (ledger_of s')"
    using c(2) by (auto simp: settle_epoch_def Let_def set_clients_state_def set_coordinator_def)
  ultimately show ?thesis
    using c(3) cl(2) by (auto simp: settled_def dest!: settle_clients_Ok)
qed

text \<open>
  A slash between epochs is lost. A slash that succeeds while the run waits for members only marks
  the client in the epoch that is over; the tick that starts the next epoch overwrites the epoch state,
  so no key is charged and no trace of the slash is left to charge later.
\<close>

theorem waiting_slash_lost:
  assumes "coord_inv (is_coordinator s)" "c_run_state (is_coordinator s) = WaitingForMembers"
    "instance_slash i s = Ok s1" "instance_tick X clock s1 = Ok s2" "c_run_state (is_coordinator s2) = Warmup"
  shows "map sc_slashed (ledger_of s2) = map sc_slashed (ledger_of s) \<and> es_exited_clients (es (is_coordinator s2)) = []
     \<and> list_all (\<lambda>x. client_state x = Healthy) (clients (is_coordinator s2))"
proof -
  obtain c1 where c1: "eject i (is_coordinator s) = Ok c1" "s1 = set_coordinator c1 s"
    using assms(3) by (auto simp: instance_slash_def)
  have inv: "coord_inv c1" "c_run_state c1 = WaitingForMembers"
    using sat_eject [OF assms(1), of i] c1(1) assms(2)
    by (auto simp: eject_def set_client_state_def set_epoch_state_def split: option.splits if_splits)
  have s1f: "is_coordinator s1 = c1" "is_clients_state s1 = is_clients_state s"
    by (simp_all add: c1(2) set_coordinator_def)
  obtain c r where cr: "tick_waiting_for_members (Some (get_active_clients_ids (is_clients_state s))) (unix_now clock) c1 = Ok (c, r)"
      "(case r of Ticked \<Rightarrow> after_tick (set_coordinator c (s1\<lparr>is_warmup_first_tick := sb_new True, is_training_first_tick := sb_new True\<rparr>))
        | EpochEnd b \<Rightarrow> settle_epoch (set_coordinator c (s1\<lparr>is_warmup_first_tick := sb_new True, is_training_first_tick := sb_new True\<rparr>))) = Ok s2"
    using assms(4) inv(2) by (auto simp: instance_tick_def tick_def Let_def s1f)
  have "r = Ticked"
    using cr(1) by (auto simp: tick_waiting_for_members_def split: if_splits)
  then obtain t where t: "tick_waiting_for_members (Some (get_active_clients_ids (is_clients_state s))) (unix_now clock) c1 = Ok (c, Ticked)"
      "after_tick t = Ok s2" "is_coordinator t = c" "ledger_of t = ledger_of s"
    using cr by (auto simp: s1f set_coordinator_def)
  have s2: "is_coordinator s2 = c" "map sc_slashed (ledger_of s2) = map sc_slashed (ledger_of s)"
    using t(2-4) by (auto simp: after_tick_def Let_def set_clients_state_def split: if_splits)
  then obtain p where "begin_epoch p (unix_now clock) c1 = Ok c"
    using t(1) inv(2) assms(5) by (auto simp: tick_waiting_for_members_def split: if_splits)
  then have "es c = EpochState_zeroed\<lparr>es_first_round := sb_new True, es_cold_start_epoch := es_cold_start_epoch (es c1),
          es_start_step := pr_step (c_progress c1), es_start_timestamp := unix_now clock,
          es_clients := map client_new (take 256 p)\<rparr>"
    using begin_epoch_eq [OF inv, of p "unix_now clock"] by auto
  then show ?thesis
    using s2 by (simp add: EpochState_zeroed_def EpochState_default_def list_all_iff client_new_def)
qed

section \<open>A concrete run\<close>

definition demo_client :: "8 word \<Rightarrow> SolanaClient" where
  "demo_client b = \<lparr>sc_id = demo_node b, sc_earned = 0, sc_slashed = 0, sc_active = 0\<rparr>"

definition demo_instance :: "Coordinator \<Rightarrow> CoordinatorInstanceState" where
  "demo_instance c = \<lparr>is_metadata = \<lparr>rm_name = [], rm_description = [], rm_num_parameters = 0, rm_vocab_size = 0\<rparr>,
     is_coordinator = c,
     is_clients_state = \<lparr>cs_clients = [demo_client 1, demo_client 2], cs_next_active = 0,
       cs_current_epoch_rates = \<lparr>earning_rate_total_shared = 100, slashing_rate_per_client = 7\<rparr>,
       cs_future_epoch_rates = \<lparr>earning_rate_total_shared = 100, slashing_rate_per_client = 7\<rparr>\<rparr>,
     is_warmup_first_tick = 0, is_training_first_tick = 0, is_client_version = []\<rparr>"

definition demo_cooldown :: "small_boolean \<Rightarrow> Coordinator" where
  "demo_cooldown b = demo_closing\<lparr>c_run_state := Cooldown, c_pending_pause := b\<rparr>"

definition demo_clock :: "int \<Rightarrow> Clock" where
  "demo_clock t = \<lparr>clk_unix_timestamp = t, clk_slot = 0\<rparr>"

lemma demo_unix_now: "0 \<le> t \<Longrightarrow> t < 2 ^ 64 \<Longrightarrow> unix_now (demo_clock t) = nat t"
  by (simp add: unix_now_def demo_clock_def i64_as_u64_def)

lemma demo_cooldown_facts:
  "is_coordinator (demo_instance c) = c" "c_run_state (demo_cooldown b) = Cooldown" "c_pending_pause (demo_cooldown b) = b"
  "clients (demo_cooldown b) = [client_new (demo_node 1), client_new (demo_node 2)]" "coord_inv (demo_cooldown b)"
  "tick_room (demo_cooldown b)" "\<not> halted (demo_cooldown b)" "ledger_wf (demo_instance c)" "ledger_room (demo_instance c)"
  "c_config (demo_cooldown b) = demo_config" "c_run_state_start_unix_timestamp (demo_cooldown b) = 0"
proof -
  have "cur (demo_cooldown b) = cur demo_closing" "get_sequence_length (demo_cooldown b) = get_sequence_length demo_closing"
    by (simp_all add: demo_cooldown_def cur_def get_sequence_length_def)
  then show "tick_room (demo_cooldown b)" "coord_inv (demo_cooldown b)"
    using demo_closing_inv by (simp_all add: tick_room_def coord_inv_def demo_cooldown_def Let_def)
qed (simp_all add: demo_instance_def demo_cooldown_def demo_closing_facts halted_def ledger_wf_def ledger_room_def demo_client_def
      demo_node_def)

lemma demo_cooldown_tick:
  "\<exists>c. end_epoch 40 (demo_cooldown b) = Ok c \<and> tick None 40 seed (demo_cooldown b) = Ok (c, EpochEnd True)"
proof -
  have "check_timeout (demo_cooldown b) 40 (cc_cooldown_time (c_config (demo_cooldown b))) = (Ok True :: (CoordinatorError, bool) res)"
    by (simp add: check_timeout_def demo_cooldown_facts u_add_def) (simp add: demo_config_def)
  then show ?thesis
    using sat_returns [OF sat_end_epoch [OF demo_cooldown_facts(5,2,6), of 40 b] end_epoch_no_err]
    by (auto simp: tick_def tick_cooldown_def demo_cooldown_facts)
qed

lemma demo_settles:
  obtains s' c where "instance_tick X (demo_clock 40) (demo_instance (demo_cooldown b)) = Ok s'" "is_coordinator s' = c"
    "end_epoch 40 (demo_cooldown b) = Ok c" "tick None 40 (get_random_seed X (demo_clock 40)) (demo_cooldown b) = Ok (c, EpochEnd True)"
proof -
  obtain c where c: "end_epoch 40 (demo_cooldown b) = Ok c" "tick None 40 (get_random_seed X (demo_clock 40)) (demo_cooldown b) = Ok (c, EpochEnd True)"
    using demo_cooldown_tick by blast
  obtain s' where s': "instance_tick X (demo_clock 40) (demo_instance (demo_cooldown b)) = Ok s'"
    using instance_tick_ok [of "demo_instance (demo_cooldown b)" X "demo_clock 40"] by (auto simp: demo_cooldown_facts)
  then have "is_coordinator s' = c"
    using c(2) by (auto simp: instance_tick_def demo_cooldown_facts demo_unix_now settle_epoch_def Let_def set_clients_state_def
        set_coordinator_def)
  then show ?thesis
    using that s' c by blast
qed

theorem epoch_settlement_witness:
  "\<exists>s'. instance_tick demo_X (demo_clock 40) (demo_instance (demo_cooldown 0)) = Ok s' \<and> map sc_earned (ledger_of s') = [50, 50]"
proof -
  let ?s = "demo_instance (demo_cooldown 0)"
  obtain s' c where s': "instance_tick demo_X (demo_clock 40) ?s = Ok s'" "is_coordinator s' = c" "end_epoch 40 (demo_cooldown 0) = Ok c"
      "tick None 40 (get_random_seed demo_X (demo_clock 40)) (demo_cooldown 0) = Ok (c, EpochEnd True)"
    by (rule demo_settles)
  have cl: "clients c = [client_new (demo_node 1), client_new (demo_node 2)]"
    using end_epoch_clients(1) [OF demo_cooldown_facts(5,6) s'(3)] by (simp add: demo_cooldown_facts client_new_def sb_is_true_lit)
  have "distinct (map key (ledger_of ?s))"
    using demo_cooldown_facts(8) by (simp add: ledger_wf_def)
  note m = epoch_settlement [OF s'(1) this, of c True]
  have "ledger_of ?s = [demo_client 1, demo_client 2]"
    "earning_rate_total_shared (cs_current_epoch_rates (is_clients_state ?s)) = 100"
    by (simp_all add: demo_instance_def)
  then have "map sc_earned (ledger_of s') = [50, 50]"
    using m s'(4) by (simp add: demo_cooldown_facts demo_unix_now cl finished_healthy_def client_new_def demo_client_def numeral_2_eq_2 [symmetric])
  then show ?thesis
    using s'(1) by (intro exI [of _ s'] conjI)
qed

theorem ledger_only_grows_witness:
  "\<exists>s'. instance_tick demo_X (demo_clock 40) (demo_instance (demo_cooldown 0)) = Ok s' \<and> ledger_wf s'
     \<and> earned_of [1] (demo_instance (demo_cooldown 0)) \<le> earned_of [1] s'"
proof -
  obtain s' where s': "instance_tick demo_X (demo_clock 40) (demo_instance (demo_cooldown 0)) = Ok s'"
    by (rule demo_settles)
  then show ?thesis
    using ledger_only_grows [OF r_into_rtranclp [of "instance_step demo_X", OF in_tick [OF s']] demo_cooldown_facts(8), of "[1]"] by blast
qed

theorem instance_tick_returns_witness:
  "\<exists>s'. instance_tick demo_X (demo_clock 40) (demo_instance (demo_cooldown 0)) = Ok s' \<and> coord_inv (is_coordinator s') \<and> ledger_wf s'"
  using instance_tick_returns [of "demo_instance (demo_cooldown 0)" demo_X "demo_clock 40"] by (simp add: demo_cooldown_facts)

theorem pause_forfeits_rewards_witness:
  "\<exists>s'. instance_tick demo_X (demo_clock 40) (demo_instance (demo_cooldown 1)) = Ok s' \<and> map sc_earned (ledger_of s') = [0, 0]
     \<and> c_run_state (is_coordinator s') = Paused"
proof -
  let ?s = "demo_instance (demo_cooldown 1)"
  obtain s' c where s': "instance_tick demo_X (demo_clock 40) ?s = Ok s'" "is_coordinator s' = c" "end_epoch 40 (demo_cooldown 1) = Ok c"
    by (rule demo_settles)
  have p: "sb_is_true (1 :: small_boolean)"
    by (simp add: sb_is_true_lit)
  have "c_run_state c = Paused"
    using end_epoch_clients(3) [OF demo_cooldown_facts(5,6) s'(3)] p by (simp add: demo_cooldown_facts)
  then have "map sc_earned (ledger_of s') = map sc_earned (ledger_of ?s) \<and> c_run_state (is_coordinator s') = Paused"
    using s' p by (intro pause_forfeits_rewards [of ?s demo_X "demo_clock 40"]) (simp_all add: demo_cooldown_facts)
  then show ?thesis
    using s'(1) by (intro exI [of _ s']) (simp add: demo_instance_def demo_client_def)
qed

definition demo_between :: Coordinator where
  "demo_between = demo_coordinator\<lparr>c_epoch_state := EpochState_default\<lparr>es_clients := [client_new (demo_node 1), client_new (demo_node 2)]\<rparr>\<rparr>"

lemma demo_between_inv: "coord_inv demo_between" "tick_room demo_between"
  using demo_inv
  by (simp_all add: coord_inv_def tick_room_def demo_between_def demo_coordinator_def cur_def EpochState_default_def get_sequence_length_def
      rounds_wf_def Round_default_def)

theorem waiting_slash_lost_witness:
  "\<exists>s1 s2. instance_slash 0 (demo_instance demo_between) = Ok s1 \<and> instance_tick demo_X (demo_clock 5) s1 = Ok s2
     \<and> c_run_state (is_coordinator s2) = Warmup \<and> map sc_slashed (ledger_of s2) = [0, 0]"
proof -
  let ?s = "demo_instance demo_between"
  have st: "c_run_state demo_between = WaitingForMembers" "c_config demo_between = demo_config"
      "c_run_state_start_unix_timestamp demo_between = 0" "cc_init_min_clients demo_config = 2" "cc_waiting_for_members_extra_time demo_config = 3"
    by (simp_all add: demo_between_def demo_coordinator_def demo_config_def)
  define c1 where "c1 = set_client_state 0 Ejected demo_between"
  have ej: "eject 0 demo_between = Ok c1"
    by (simp add: eject_def c1_def demo_between_def slice_get_def client_new_def)
  have c1: "coord_inv c1" "c_run_state c1 = WaitingForMembers" "c_config c1 = demo_config" "c_run_state_start_unix_timestamp c1 = 0"
    using sat_eject [OF demo_between_inv(1), of 0] ej st by (auto simp: c1_def set_client_state_def set_epoch_state_def)
  have room: "tick_room c1"
    using demo_between_inv(2)
    by (simp add: tick_room_def c1_def set_client_state_def set_epoch_state_def cur_def get_sequence_length_def Let_def)
  let ?s1 = "set_coordinator c1 ?s"
  have s1: "is_coordinator ?s1 = c1" "is_clients_state ?s1 = is_clients_state ?s" "ledger_wf ?s1" "ledger_room ?s1"
    using demo_cooldown_facts(8,9) [of demo_between] by (simp_all add: set_coordinator_def ledger_wf_def ledger_room_def)
  obtain s2 where s2: "instance_tick demo_X (demo_clock 5) ?s1 = Ok s2"
    using instance_tick_ok [of ?s1 demo_X "demo_clock 5"] c1 room s1 by (auto simp: halted_def)
  have ids: "get_active_clients_ids (is_clients_state ?s) = [demo_node 1, demo_node 2]"
    by (simp add: get_active_clients_ids_def demo_instance_def demo_client_def)
  obtain c2 where c2: "begin_epoch [demo_node 1, demo_node 2] 5 c1 = Ok c2" "c_run_state c2 = Warmup"
    using begin_epoch_eq [OF c1(1,2), of "[demo_node 1, demo_node 2]" 5] by blast
  have "check_timeout c1 5 3 = (Ok True :: (CoordinatorError, bool) res)"
    by (simp add: check_timeout_def c1 u_add_def)
  then have "tick (Some [demo_node 1, demo_node 2]) 5 seed c1 = Ok (c2, Ticked)" for seed
    using c2 by (simp add: tick_def tick_waiting_for_members_def c1 st u_cast_def)
  then have w: "c_run_state (is_coordinator s2) = Warmup"
    using s2 c2(2)
    by (auto simp: instance_tick_def s1 c1 ids demo_unix_now after_tick_def Let_def set_clients_state_def set_coordinator_def
        split: if_splits)
  have sl: "instance_slash 0 ?s = Ok ?s1"
    by (simp add: instance_slash_def demo_cooldown_facts ej)
  have "map sc_slashed (ledger_of s2) = map sc_slashed (ledger_of ?s)"
    using waiting_slash_lost [OF _ _ sl s2 w] demo_between_inv(1) st(1) by (simp add: demo_cooldown_facts)
  then have "map sc_slashed (ledger_of s2) = [0, 0]"
    by (simp add: demo_instance_def demo_client_def)
  then show ?thesis
    using sl s2 w by (intro exI [of _ ?s1] exI [of _ s2] conjI)
qed

end
