(* ===== verification/Coordinator_Program.thy ===== *)
theory Coordinator_Program
  imports Instance_Props
begin

text \<open>
  The coordinator program (solana-coordinator), second part: its accounts and instructions (lib.rs and
  logic/). A run has an instance account at the address derived from its run id, which names its two
  authorities and the large account that holds the state. An instruction is given keys of accounts by
  its sender; the account contexts are the checks it makes on them. Every instruction but
  \<open>update_client_version\<close> counts a nonce. \<open>msg!\<close> logging and the metadata of a witness, which the
  handlers ignore, are left out.
\<close>

section \<open>Accounts\<close>

definition COORDINATOR_ID :: string where
  "COORDINATOR_ID = ''GdHJHiQp7uMv8TanfpaCaKQ8nHm5suvEt9JvjpZFWZ19''"

definition SOLANA_MAX_STRING_LEN :: nat where
  "SOLANA_MAX_STRING_LEN = 64"

definition SOLANA_RUN_ID_MAX_LEN :: nat where
  "SOLANA_RUN_ID_MAX_LEN = 32"

definition CLIENT_VERSION_LEN :: nat where
  "CLIENT_VERSION_LEN = 96"

definition bytes_from_string :: "bytes \<Rightarrow> bytes" where
  "bytes_from_string s = take (min SOLANA_MAX_STRING_LEN (length s)) s"

definition instance_seeds :: "bytes \<Rightarrow> bytes list" where
  "instance_seeds run_id = [str_bytes ''coordinator'', bytes_from_string run_id]"

definition find_coordinator_instance :: "runtime \<Rightarrow> bytes \<Rightarrow> pubkey \<times> nat" where
  "find_coordinator_instance R run_id = find_program_address R COORDINATOR_ID (instance_seeds run_id)"

record CoordinatorAccount =
  ca_version :: nat
  ca_state :: CoordinatorInstanceState
  ca_nonce :: nat

definition VERSION :: nat where
  "VERSION = 1"

record CoordinatorInstance =
  ci_bump :: nat
  ci_main_authority :: pubkey
  ci_join_authority :: pubkey
  ci_coordinator_account :: pubkey
  ci_run_id :: bytes

text \<open>
  An account owned by the program that is meant to hold a state: allocated with some length and zeroed,
  or with the discriminator installed. The size of the state is a parameter where the code compares
  it, since it is the compiler's layout of the record.
\<close>

datatype state_account = Zeroed nat | Initialized CoordinatorAccount

record coordinator_program =
  prog_instances :: "pubkey \<Rightarrow> CoordinatorInstance option"
  prog_accounts :: "pubkey \<Rightarrow> state_account option"

type_synonym 'a program_res = "(CoordinatorProgramError anchor_error, 'a) res"

definition space_with_discriminator :: "nat \<Rightarrow> nat" where
  "space_with_discriminator size_of_account = 8 + size_of_account"

text \<open>\<open>InitSpace\<close>: a byte, three keys and a string of at most 64 bytes behind its length.\<close>

definition CoordinatorInstance_INIT_SPACE :: nat where
  "CoordinatorInstance_INIT_SPACE = 1 + 32 + 32 + 32 + (4 + SOLANA_MAX_STRING_LEN)"

text \<open>What zeroed bytes read as: the first variant of every enum, empty vectors, zero.\<close>

definition Coordinator_zeroed :: Coordinator where
  "Coordinator_zeroed = \<lparr>c_run_id = fs_new SOLANA_RUN_ID_MAX_LEN, c_run_state = Uninitialized,
     c_model = Model_LLM \<lparr>max_seq_len = 0, cold_start_warmup_steps = 0, architecture = HfLlama, checkpoint = Ephemeral,
       data_type = Pretraining, data_location = DataDummy,
       lr_schedule = Constant \<lparr>cl_base_lr = 0, cl_warmup_init_lr = 0, cl_warmup_steps = 0\<rparr>, optimizer = OptDummy\<rparr>,
     c_config = \<lparr>cc_warmup_time = 0, cc_cooldown_time = 0, cc_max_round_train_time = 0, cc_round_witness_time = 0,
       cc_global_batch_size_warmup_tokens = 0, cc_epoch_time = 0, cc_total_steps = 0, cc_init_min_clients = 0,
       cc_min_clients = 0, cc_witness_nodes = 0, cc_global_batch_size_start = 0, cc_global_batch_size_end = 0,
       cc_verification_percent = 0, cc_waiting_for_members_extra_time = 0\<rparr>,
     c_progress = \<lparr>pr_epoch = 0, pr_step = 0, pr_epoch_start_data_index = 0\<rparr>, c_epoch_state = EpochState_zeroed,
     c_run_state_start_unix_timestamp = 0, c_pending_pause = 0\<rparr>"

definition InstanceState_zeroed :: CoordinatorInstanceState where
  "InstanceState_zeroed = \<lparr>
     is_metadata = \<lparr>rm_name = fs_new SOLANA_MAX_STRING_LEN, rm_description = fs_new 280, rm_num_parameters = 0, rm_vocab_size = 0\<rparr>,
     is_coordinator = Coordinator_zeroed,
     is_clients_state = \<lparr>cs_clients = [], cs_next_active = 0,
       cs_current_epoch_rates = \<lparr>earning_rate_total_shared = 0, slashing_rate_per_client = 0\<rparr>,
       cs_future_epoch_rates = \<lparr>earning_rate_total_shared = 0, slashing_rate_per_client = 0\<rparr>\<rparr>,
     is_warmup_first_tick = 0, is_training_first_tick = 0, is_client_version = fs_new CLIENT_VERSION_LEN\<rparr>"

section \<open>Account contexts\<close>

definition load_account :: "coordinator_program \<Rightarrow> pubkey \<Rightarrow> CoordinatorAccount program_res" where
  "load_account s k = (case prog_accounts s k of Some (Initialized a) \<Rightarrow> Ok a | _ \<Rightarrow> Err AccountNotInitialized)"

definition load_instance :: "runtime \<Rightarrow> coordinator_program \<Rightarrow> pubkey \<Rightarrow> CoordinatorInstance program_res" where
  "load_instance R s k =
     rbind (load (prog_instances s) k) (\<lambda>i.
     rbind (require_constraint
              (create_program_address R COORDINATOR_ID (instance_seeds (ci_run_id i) @ [to_le_bytes 1 (ci_bump i)]) = Some k)) (\<lambda>_. Ok i))"

definition permissionless_accounts ::
  "runtime \<Rightarrow> pubkey \<Rightarrow> pubkey \<Rightarrow> coordinator_program \<Rightarrow> (CoordinatorInstance \<times> CoordinatorAccount) program_res" where
  "permissionless_accounts R inst account s =
     rbind (load_instance R s inst) (\<lambda>i.
     rbind (load_account s account) (\<lambda>a.
     rbind (require_constraint (ci_coordinator_account i = account)) (\<lambda>_.
     rbind (require_constraint (ca_version a = VERSION)) (\<lambda>_. Ok (i, a)))))"

definition owner_accounts ::
  "runtime \<Rightarrow> pubkey \<Rightarrow> pubkey \<Rightarrow> pubkey \<Rightarrow> coordinator_program \<Rightarrow> (CoordinatorInstance \<times> CoordinatorAccount) program_res" where
  "owner_accounts R authority inst account s =
     rbind (load_instance R s inst) (\<lambda>i.
     rbind (require_constraint (ci_main_authority i = authority)) (\<lambda>_.
     rbind (load_account s account) (\<lambda>a.
     rbind (require_constraint (ci_coordinator_account i = account)) (\<lambda>_.
     rbind (require_constraint (ca_version a = VERSION)) (\<lambda>_. Ok (i, a))))))"

section \<open>Instructions\<close>

definition increment_nonce :: "CoordinatorAccount \<Rightarrow> CoordinatorAccount program_res" where
  "increment_nonce a = rbind (u_add 64 (ca_nonce a) 1) (\<lambda>n. Ok (a\<lparr>ca_nonce := n\<rparr>))"

text \<open>The body the instructions share: count the nonce, apply an operation to the state, store it.\<close>

definition with_state ::
  "pubkey \<Rightarrow> CoordinatorAccount \<Rightarrow> (CoordinatorInstanceState \<Rightarrow> CoordinatorInstanceState instance_res)
   \<Rightarrow> coordinator_program \<Rightarrow> coordinator_program program_res" where
  "with_state account a f s =
     rbind (increment_nonce a) (\<lambda>a1.
     rbind (map_err ProgramError (f (ca_state a1))) (\<lambda>st.
       Ok (s\<lparr>prog_accounts := (prog_accounts s)(account \<mapsto> Initialized (a1\<lparr>ca_state := st\<rparr>))\<rparr>)))"

definition account_len :: "nat \<Rightarrow> coordinator_program \<Rightarrow> pubkey \<Rightarrow> nat option" where
  "account_len size_of_account s k = (case prog_accounts s k of
       Some (Zeroed n) \<Rightarrow> Some n
     | Some (Initialized _) \<Rightarrow> Some (space_with_discriminator size_of_account)
     | None \<Rightarrow> map_option (\<lambda>_. 8 + CoordinatorInstance_INIT_SPACE) (prog_instances s k))"

definition init_coordinator ::
  "runtime \<Rightarrow> nat \<Rightarrow> pubkey \<Rightarrow> pubkey \<Rightarrow> pubkey \<Rightarrow> bytes \<Rightarrow> bytes \<Rightarrow> coordinator_program \<Rightarrow> coordinator_program program_res" where
  "init_coordinator R size_of_account account main_authority join_authority run_id client_version s =
     (let (inst, bump) = find_coordinator_instance R run_id in
      rbind (init_account (prog_instances s) inst) (\<lambda>_.
        let s1 = s\<lparr>prog_instances := (prog_instances s)(inst \<mapsto>
               \<lparr>ci_bump = bump, ci_main_authority = main_authority, ci_join_authority = join_authority,
                ci_coordinator_account = account, ci_run_id = run_id\<rparr>)\<rparr> in
        rbind (require_constraint (account_len size_of_account s1 account \<noteq> None)) (\<lambda>_.
        rbind (fail_if (SOLANA_RUN_ID_MAX_LEN < length run_id) RunIdInvalidLength) (\<lambda>_.
        rbind (fail_if (account_len size_of_account s1 account \<noteq> Some (space_with_discriminator size_of_account))
                 CoordinatorAccountIncorrectSize) (\<lambda>_.
          case prog_accounts s account of
            Some (Zeroed n) \<Rightarrow>
              Ok (s1\<lparr>prog_accounts := (prog_accounts s)(account \<mapsto> Initialized
                \<lparr>ca_version = VERSION,
                 ca_state = InstanceState_zeroed\<lparr>
                   is_client_version := fs_from_str_truncated CLIENT_VERSION_LEN client_version,
                   is_coordinator := Coordinator_zeroed\<lparr>c_run_id := fs_from_str_truncated SOLANA_RUN_ID_MAX_LEN run_id\<rparr>\<rparr>,
                 ca_nonce = 0\<rparr>)\<rparr>)
          | _ \<Rightarrow> Err AccountDiscriminatorAlreadySet)))))"

definition free_coordinator ::
  "runtime \<Rightarrow> pubkey \<Rightarrow> pubkey \<Rightarrow> pubkey \<Rightarrow> coordinator_program \<Rightarrow> coordinator_program program_res" where
  "free_coordinator R authority inst account s =
     rbind (load_instance R s inst) (\<lambda>i.
     rbind (require_constraint (ci_main_authority i = authority)) (\<lambda>_.
     rbind (load_account s account) (\<lambda>a.
     rbind (require_constraint (ci_coordinator_account i = account)) (\<lambda>_.
     rbind (fail_if (\<not> halted (is_coordinator (ca_state a))) CloseCoordinatorNotHalted) (\<lambda>_.
       Ok (s\<lparr>prog_instances := (prog_instances s)(inst := None), prog_accounts := (prog_accounts s)(account := None)\<rparr>))))))"

definition program_update ::
  "runtime \<Rightarrow> pubkey \<Rightarrow> pubkey \<Rightarrow> pubkey \<Rightarrow> RunMetadata option \<Rightarrow> CoordinatorConfig option \<Rightarrow> model option
   \<Rightarrow> CoordinatorProgress option \<Rightarrow> coordinator_program \<Rightarrow> coordinator_program program_res" where
  "program_update R authority inst account metadata config mdl progress s =
     rbind (owner_accounts R authority inst account s) (\<lambda>(_, a).
       with_state account a (instance_update metadata config mdl progress) s)"

definition update_client_version ::
  "runtime \<Rightarrow> pubkey \<Rightarrow> pubkey \<Rightarrow> pubkey \<Rightarrow> bytes \<Rightarrow> coordinator_program \<Rightarrow> coordinator_program program_res" where
  "update_client_version R authority inst account new_version s =
     rbind (owner_accounts R authority inst account s) (\<lambda>(_, a).
     rbind (fail_if (\<not> halted (is_coordinator (ca_state a))) UpdateConfigNotHalted) (\<lambda>_.
       Ok (s\<lparr>prog_accounts := (prog_accounts s)(account \<mapsto> Initialized (a\<lparr>ca_state := (ca_state a)
              \<lparr>is_client_version := fs_from_str_truncated CLIENT_VERSION_LEN new_version\<rparr>\<rparr>))\<rparr>)))"

definition program_set_future_epoch_rates ::
  "runtime \<Rightarrow> pubkey \<Rightarrow> pubkey \<Rightarrow> pubkey \<Rightarrow> nat option \<Rightarrow> nat option \<Rightarrow> coordinator_program \<Rightarrow> coordinator_program program_res" where
  "program_set_future_epoch_rates R authority inst account earning slashing s =
     rbind (owner_accounts R authority inst account s) (\<lambda>(_, a).
       with_state account a (instance_set_future_epoch_rates earning slashing) s)"

definition JOIN_RUN_AUTHORIZATION_SCOPE :: bytes where
  "JOIN_RUN_AUTHORIZATION_SCOPE = str_bytes ''CoordinatorJoinRun''"

definition program_join_run ::
  "externs \<Rightarrow> runtime \<Rightarrow> Clock \<Rightarrow> authorizations \<Rightarrow> pubkey \<Rightarrow> auth_key \<Rightarrow> pubkey \<Rightarrow> pubkey \<Rightarrow> NodeIdentity
   \<Rightarrow> coordinator_program \<Rightarrow> coordinator_program program_res" where
  "program_join_run X R clock auths user authorization inst account i0 s =
     rbind (load auths authorization) (\<lambda>au.
     rbind (permissionless_accounts R inst account s) (\<lambda>(i, a).
     rbind (require_constraint (is_valid_for au (ci_join_authority i) user JOIN_RUN_AUTHORIZATION_SCOPE)) (\<lambda>_.
     rbind (fail_if (signer i0 \<noteq> user) SignerMismatch) (\<lambda>_.
       with_state account a (instance_join_run X clock i0) s))))"

definition program_set_paused ::
  "externs \<Rightarrow> runtime \<Rightarrow> Clock \<Rightarrow> pubkey \<Rightarrow> pubkey \<Rightarrow> pubkey \<Rightarrow> bool \<Rightarrow> coordinator_program \<Rightarrow> coordinator_program program_res" where
  "program_set_paused X R clock authority inst account paused s =
     rbind (owner_accounts R authority inst account s) (\<lambda>(_, a). with_state account a (instance_set_paused X clock paused) s)"

definition program_tick ::
  "externs \<Rightarrow> runtime \<Rightarrow> Clock \<Rightarrow> pubkey \<Rightarrow> pubkey \<Rightarrow> coordinator_program \<Rightarrow> coordinator_program program_res" where
  "program_tick X R clock inst account s =
     rbind (permissionless_accounts R inst account s) (\<lambda>(_, a). with_state account a (instance_tick X clock) s)"

definition program_witness ::
  "externs \<Rightarrow> runtime \<Rightarrow> Clock \<Rightarrow> pubkey \<Rightarrow> pubkey \<Rightarrow> pubkey \<Rightarrow> WitnessProof \<Rightarrow> WitnessBloom \<Rightarrow> WitnessBloom \<Rightarrow> bytes
   \<Rightarrow> coordinator_program \<Rightarrow> coordinator_program program_res" where
  "program_witness X R clock user inst account pf participant_bloom broadcast_bloom broadcast_merkle s =
     rbind (permissionless_accounts R inst account s) (\<lambda>(_, a).
       with_state account a (instance_witness X clock user
         \<lparr>wt_proof = pf, wt_participant_bloom = participant_bloom, wt_broadcast_bloom = broadcast_bloom,
          wt_broadcast_merkle = broadcast_merkle\<rparr>) s)"

definition program_warmup_witness ::
  "externs \<Rightarrow> runtime \<Rightarrow> Clock \<Rightarrow> pubkey \<Rightarrow> pubkey \<Rightarrow> pubkey \<Rightarrow> WitnessProof \<Rightarrow> WitnessBloom \<Rightarrow> WitnessBloom \<Rightarrow> bytes
   \<Rightarrow> coordinator_program \<Rightarrow> coordinator_program program_res" where
  "program_warmup_witness X R clock user inst account pf participant_bloom broadcast_bloom broadcast_merkle s =
     rbind (permissionless_accounts R inst account s) (\<lambda>(_, a).
       with_state account a (instance_warmup_witness X clock user
         \<lparr>wt_proof = pf, wt_participant_bloom = participant_bloom, wt_broadcast_bloom = broadcast_bloom,
          wt_broadcast_merkle = broadcast_merkle\<rparr>) s)"

definition program_health_check ::
  "externs \<Rightarrow> runtime \<Rightarrow> Clock \<Rightarrow> pubkey \<Rightarrow> pubkey \<Rightarrow> pubkey \<Rightarrow> NodeIdentity \<Rightarrow> Committee \<Rightarrow> nat \<Rightarrow> nat
   \<Rightarrow> coordinator_program \<Rightarrow> coordinator_program program_res" where
  "program_health_check X R clock user inst account i committee position index s =
     rbind (permissionless_accounts R inst account s) (\<lambda>(_, a).
       with_state account a (instance_health_check X clock user
         [(i, \<lparr>cp_committee = committee, cp_position = position, cp_index = index\<rparr>)]) s)"

definition program_checkpoint ::
  "externs \<Rightarrow> runtime \<Rightarrow> Clock \<Rightarrow> pubkey \<Rightarrow> pubkey \<Rightarrow> pubkey \<Rightarrow> Checkpoint \<Rightarrow> coordinator_program \<Rightarrow> coordinator_program program_res" where
  "program_checkpoint X R clock user inst account repo s =
     rbind (permissionless_accounts R inst account s) (\<lambda>(_, a). with_state account a (instance_checkpoint X clock user repo) s)"

record SlashClientParams =
  sl_index :: nat
  sl_batch_start :: nat
  sl_batch_end :: nat
  sl_committed_hash :: bytes
  sl_replayed_hash :: bytes

definition slash_client ::
  "runtime \<Rightarrow> pubkey \<Rightarrow> pubkey \<Rightarrow> pubkey \<Rightarrow> SlashClientParams \<Rightarrow> coordinator_program \<Rightarrow> coordinator_program program_res" where
  "slash_client R authority inst account params s =
     rbind (owner_accounts R authority inst account s) (\<lambda>(_, a). with_state account a (instance_slash (sl_index params)) s)"

section \<open>What a tick and the messages of clients leave alone\<close>

definition fixed_part :: "Coordinator \<Rightarrow> CoordinatorConfig \<times> bytes" where
  "fixed_part c = (c_config c, c_run_id c)"

named_theorems fixed_dest

lemma fixed_updates [simp]:
  "fixed_part (c\<lparr>c_progress := p\<rparr>) = fixed_part c" "fixed_part (c\<lparr>c_run_state := s\<rparr>) = fixed_part c"
  "fixed_part (c\<lparr>c_run_state_start_unix_timestamp := t\<rparr>) = fixed_part c" "fixed_part (c\<lparr>c_model := m\<rparr>) = fixed_part c"
  "fixed_part (c\<lparr>c_pending_pause := b\<rparr>) = fixed_part c" "fixed_part (c\<lparr>c_epoch_state := e\<rparr>) = fixed_part c"
  by (simp_all add: fixed_part_def)

lemma fixed_functions [simp]:
  "fixed_part (set_epoch_state f c) = fixed_part c" "fixed_part (set_client_state i st c) = fixed_part c"
  "fixed_part (set_checkpoint ck c) = fixed_part c" "fixed_part (withdraw_all c) = fixed_part c"
  by (simp_all add: set_epoch_state_def set_client_state_def set_checkpoint_def withdraw_all_eq)

lemma fixed_change [fixed_dest]: "change_state now st c = Ok c' \<Longrightarrow> fixed_part c' = fixed_part c"
  by (auto simp: change_state_def)

lemma fixed_waiting [fixed_dest]: "start_waiting_for_members now c = Ok c' \<Longrightarrow> fixed_part c' = fixed_part c"
  by (auto simp: start_waiting_for_members_def dest: fixed_change)

lemma fixed_round [fixed_dest]: "current_round_mut_unchecked c f = Ok c' \<Longrightarrow> fixed_part c' = fixed_part c"
  by (auto simp: current_round_mut_unchecked_def Let_def)

lemma fixed_cooldown [fixed_dest]: "start_cooldown now c = Ok c' \<Longrightarrow> fixed_part c' = fixed_part c"
  by (auto simp: start_cooldown_def dest!: fixed_dest)

lemma fixed_train [fixed_dest]: "start_round_train now seed t c = Ok c' \<Longrightarrow> fixed_part c' = fixed_part c"
  by (auto simp: start_round_train_def Let_def dest!: fixed_dest)

lemma fixed_move [fixed_dest]: "move_clients_to_exited h c = Ok c' \<Longrightarrow> fixed_part c' = fixed_part c"
  by (auto simp: move_clients_to_exited_def)

lemma fixed_last_step [fixed_dest]: "set_last_step now c = Ok c' \<Longrightarrow> fixed_part c' = fixed_part c"
  by (auto simp: set_last_step_def split: if_splits)

lemma fixed_end_round [fixed_dest]: "end_round now seed c = Ok c' \<Longrightarrow> fixed_part c' = fixed_part c"
  by (auto simp: end_round_def Let_def dest!: fixed_dest split: if_splits)

lemma fixed_end_epoch [fixed_dest]: "end_epoch now c = Ok c' \<Longrightarrow> fixed_part c' = fixed_part c"
  by (auto simp: end_epoch_def Let_def dest!: fixed_dest split: if_splits)

lemma fixed_begin_epoch [fixed_dest]: "begin_epoch pending now c = Ok c' \<Longrightarrow> fixed_part c' = fixed_part c"
  by (auto simp: begin_epoch_def start_warmup_def Let_def dest!: fixed_dest split: if_splits)

lemma fixed_tick [fixed_dest]: "tick pending now seed c = Ok (c', r) \<Longrightarrow> fixed_part c' = fixed_part c"
  by (cases "c_run_state c")
    (auto simp: tick_def tick_waiting_for_members_def tick_warmup_def tick_round_train_def tick_round_witness_def
      tick_cooldown_def dest!: fixed_dest split: if_splits option.splits)

lemma fixed_store [fixed_dest]: "store_witness from w c = Ok (c', n) \<Longrightarrow> fixed_part c' = fixed_part c"
  by (auto simp: store_witness_def dest!: fixed_dest)

lemma fixed_witnesses [fixed_dest]:
  "submit_witness X from w now c = Ok c' \<Longrightarrow> fixed_part c' = fixed_part c"
  "warmup_witness from w now seed c = Ok c' \<Longrightarrow> fixed_part c' = fixed_part c"
  by (auto simp: submit_witness_def warmup_witness_def dest!: fixed_dest split: if_splits)

lemma fixed_drop: "drop_clients checks c d = Ok (c', n) \<Longrightarrow> fixed_part c' = fixed_part c"
  by (induction checks arbitrary: c d) (fastforce simp: Let_def split: if_splits)+

lemma fixed_messages [fixed_dest]:
  "health_check X checks c = Ok (c', n) \<Longrightarrow> fixed_part c' = fixed_part c"
  "record_checkpoint from i repo c = Ok c' \<Longrightarrow> fixed_part c' = fixed_part c"
  by (auto simp: health_check_def record_checkpoint_def dest: fixed_drop split: if_splits option.splits)

text \<open>What belongs to the owner of a run.\<close>

definition owner_part :: "CoordinatorInstanceState \<Rightarrow> (CoordinatorConfig \<times> bytes) \<times> RunMetadata \<times> fixed_string \<times> ClientsEpochRates" where
  "owner_part s = (fixed_part (is_coordinator s), is_metadata s, is_client_version s, cs_future_epoch_rates (is_clients_state s))"

lemma owner_updates [simp]:
  "fixed_part c = fixed_part (is_coordinator s) \<Longrightarrow> owner_part (set_coordinator c s) = owner_part s"
  "cs_future_epoch_rates cs = cs_future_epoch_rates (is_clients_state s) \<Longrightarrow> owner_part (set_clients_state cs s) = owner_part s"
  "owner_part (s\<lparr>is_warmup_first_tick := b\<rparr>) = owner_part s" "owner_part (s\<lparr>is_training_first_tick := b\<rparr>) = owner_part s"
  by (simp_all add: owner_part_def set_coordinator_def set_clients_state_def)

lemma owner_tick:
  assumes "instance_tick X clock s = Ok s'"
  shows "owner_part s' = owner_part s"
proof -
  define s1 where "s1 = (if c_run_state (is_coordinator s) = WaitingForMembers
      then s\<lparr>is_warmup_first_tick := sb_new True, is_training_first_tick := sb_new True\<rparr> else s)"
  have s1: "owner_part s1 = owner_part s" "is_coordinator s1 = is_coordinator s"
    by (simp_all add: s1_def)
  obtain c r where r: "tick (if c_run_state (is_coordinator s) = WaitingForMembers then Some (get_active_clients_ids (is_clients_state s)) else None)
        (unix_now clock) (get_random_seed X clock) (is_coordinator s1) = Ok (c, r)"
      "(case r of Ticked \<Rightarrow> after_tick (set_coordinator c s1) | EpochEnd b \<Rightarrow> settle_epoch (set_coordinator c s1)) = Ok s'"
    using assms unfolding instance_tick_def Let_def s1_def [symmetric] by auto
  then have "owner_part (set_coordinator c s1) = owner_part s"
    using s1 fixed_tick [OF r(1)] by simp
  moreover have "owner_part s' = owner_part (set_coordinator c s1)"
    using r(2) by (cases r) (auto simp: after_tick_def settle_epoch_def Let_def split: if_splits)
  ultimately show ?thesis
    by simp
qed

lemma owner_unless_halted: "tick_unless_halted X clock s = Ok s' \<Longrightarrow> owner_part s' = owner_part s"
  by (auto simp: tick_unless_halted_def dest: owner_tick split: if_splits)

lemma owner_messages:
  "instance_witness X clock payer w s = Ok s' \<Longrightarrow> owner_part s' = owner_part s"
  "instance_warmup_witness X clock payer w s = Ok s' \<Longrightarrow> owner_part s' = owner_part s"
  "instance_health_check X clock payer checks s = Ok s' \<Longrightarrow> owner_part s' = owner_part s"
  "instance_checkpoint X clock payer repo s = Ok s' \<Longrightarrow> owner_part s' = owner_part s"
  "instance_join_run X clock i s = Ok s' \<Longrightarrow> owner_part s' = owner_part s"
  by (auto simp: instance_witness_def instance_warmup_witness_def instance_health_check_def instance_checkpoint_def
      instance_join_run_def join_ledger_def Let_def dest!: owner_tick owner_unless_halted fixed_dest split: option.splits)

section \<open>Who may do what\<close>

lemma keys_tick:
  assumes "instance_tick X clock s = Ok s'"
  shows "map key (ledger_of s') = map key (ledger_of s)"
proof -
  define s1 where "s1 = (if c_run_state (is_coordinator s) = WaitingForMembers
      then s\<lparr>is_warmup_first_tick := sb_new True, is_training_first_tick := sb_new True\<rparr> else s)"
  obtain c r where r: "(case r of Ticked \<Rightarrow> after_tick (set_coordinator c s1) | EpochEnd b \<Rightarrow> settle_epoch (set_coordinator c s1)) = Ok s'"
    using assms unfolding instance_tick_def Let_def s1_def [symmetric] by auto
  have "ledger_of (set_coordinator c s1) = ledger_of s"
    by (simp add: s1_def)
  then show ?thesis
    using r by (cases r)
      (auto simp: after_tick_def settle_epoch_def Let_def set_clients_state_def dest!: settle_clients_Ok split: if_splits)
qed

lemma keys_unless_halted: "tick_unless_halted X clock s = Ok s' \<Longrightarrow> map key (ledger_of s') = map key (ledger_of s)"
  by (auto simp: tick_unless_halted_def dest: keys_tick split: if_splits)

lemma keys_messages:
  "instance_witness X clock payer w s = Ok s' \<Longrightarrow> map key (ledger_of s') = map key (ledger_of s)"
  "instance_warmup_witness X clock payer w s = Ok s' \<Longrightarrow> map key (ledger_of s') = map key (ledger_of s)"
  "instance_health_check X clock payer checks s = Ok s' \<Longrightarrow> map key (ledger_of s') = map key (ledger_of s)"
  "instance_checkpoint X clock payer repo s = Ok s' \<Longrightarrow> map key (ledger_of s') = map key (ledger_of s)"
  by (auto simp: instance_witness_def instance_warmup_witness_def instance_health_check_def instance_checkpoint_def
      dest!: keys_tick keys_unless_halted)

lemma keys_join:
  assumes "instance_join_run X clock i s = Ok s'"
  shows "set (map key (ledger_of s')) \<subseteq> insert (signer i) (set (map key (ledger_of s)))"
proof -
  obtain t where t: "join_ledger i s = Ok t" "tick_unless_halted X clock t = Ok s'"
    using assms by (auto simp: instance_join_run_def)
  have "\<exists>x. set (ledger_of t) \<subseteq> insert x (set (ledger_of s)) \<and> key x = signer i"
  proof (cases "find_position (\<lambda>x. node_eq (sc_id x) i) (ledger_of s)")
    case None
    then have "ledger_of t = ledger_of s @ [\<lparr>sc_id = i, sc_earned = 0, sc_slashed = 0, sc_active = cs_next_active (is_clients_state s)\<rparr>]"
      using t(1) by (auto simp: join_ledger_def Let_def set_clients_state_def vec_push_def guard_err_def split: if_splits)
    then show ?thesis
      by (intro exI [of _ "\<lparr>sc_id = i, sc_earned = 0, sc_slashed = 0, sc_active = cs_next_active (is_clients_state s)\<rparr>"]) simp
  next
    case (Some k)
    let ?x = "(ledger_of s ! k)\<lparr>sc_id := i, sc_active := cs_next_active (is_clients_state s)\<rparr>"
    have "ledger_of t = (ledger_of s)[k := ?x]"
      using t(1) Some find_position_SomeD [OF Some]
      by (auto simp: join_ledger_def Let_def set_clients_state_def update_at_def)
    then show ?thesis
      using set_update_subset_insert [of "ledger_of s" k ?x] by (intro exI [of _ ?x]) simp
  qed
  then obtain x where "set (ledger_of t) \<subseteq> insert x (set (ledger_of s))" "key x = signer i"
    by blast
  then have "set (map key (ledger_of t)) \<subseteq> insert (signer i) (set (map key (ledger_of s)))"
    by auto
  then show ?thesis
    unfolding keys_unless_halted [OF t(2)] .
qed

text \<open>
  One instruction with the authorizations of the moment and the key that signs it. Anybody may allocate
  an account for the program.
\<close>

inductive program_step ::
  "externs \<Rightarrow> runtime \<Rightarrow> nat \<Rightarrow> authorizations \<Rightarrow> pubkey \<Rightarrow> coordinator_program \<Rightarrow> coordinator_program \<Rightarrow> bool"
  for X R sz auths x where
  ps_allocate: "prog_accounts s k = None \<Longrightarrow> prog_instances s k = None
     \<Longrightarrow> program_step X R sz auths x s (s\<lparr>prog_accounts := (prog_accounts s)(k \<mapsto> Zeroed n)\<rparr>)"
| ps_init: "init_coordinator R sz account main join run_id version s = Ok s' \<Longrightarrow> program_step X R sz auths x s s'"
| ps_free: "free_coordinator R x inst account s = Ok s' \<Longrightarrow> program_step X R sz auths x s s'"
| ps_update: "program_update R x inst account metadata config mdl progress s = Ok s' \<Longrightarrow> program_step X R sz auths x s s'"
| ps_version: "update_client_version R x inst account version s = Ok s' \<Longrightarrow> program_step X R sz auths x s s'"
| ps_rates: "program_set_future_epoch_rates R x inst account earning slashing s = Ok s' \<Longrightarrow> program_step X R sz auths x s s'"
| ps_join: "program_join_run X R clock auths x authorization inst account i s = Ok s' \<Longrightarrow> program_step X R sz auths x s s'"
| ps_paused: "program_set_paused X R clock x inst account paused s = Ok s' \<Longrightarrow> program_step X R sz auths x s s'"
| ps_tick: "program_tick X R clock inst account s = Ok s' \<Longrightarrow> program_step X R sz auths x s s'"
| ps_witness: "program_witness X R clock x inst account pf b1 b2 merkle s = Ok s' \<Longrightarrow> program_step X R sz auths x s s'"
| ps_warmup: "program_warmup_witness X R clock x inst account pf b1 b2 merkle s = Ok s' \<Longrightarrow> program_step X R sz auths x s s'"
| ps_health: "program_health_check X R clock x inst account i committee position index s = Ok s' \<Longrightarrow> program_step X R sz auths x s s'"
| ps_checkpoint: "program_checkpoint X R clock x inst account repo s = Ok s' \<Longrightarrow> program_step X R sz auths x s s'"
| ps_slash: "slash_client R x inst account params s = Ok s' \<Longrightarrow> program_step X R sz auths x s s'"

definition empty_program :: coordinator_program where
  "empty_program = \<lparr>prog_instances = (\<lambda>_. None), prog_accounts = (\<lambda>_. None)\<rparr>"

definition program_wf :: "coordinator_program \<Rightarrow> bool" where
  "program_wf s \<longleftrightarrow>
     (\<forall>inst i. prog_instances s inst = Some i \<longrightarrow> (\<exists>a. prog_accounts s (ci_coordinator_account i) = Some (Initialized a)))
   \<and> (\<forall>inst inst' i i'. prog_instances s inst = Some i \<and> prog_instances s inst' = Some i'
        \<and> ci_coordinator_account i = ci_coordinator_account i' \<longrightarrow> inst = inst')
   \<and> (\<forall>k a. prog_accounts s k = Some (Initialized a) \<longrightarrow> ca_version a = VERSION
        \<and> (\<exists>inst i. prog_instances s inst = Some i \<and> ci_coordinator_account i = k))"

text \<open>What a key other than the owner's may do to the account of a run.\<close>

definition open_change :: "authorizations \<Rightarrow> pubkey \<Rightarrow> CoordinatorInstance \<Rightarrow> CoordinatorAccount \<Rightarrow> CoordinatorAccount \<Rightarrow> bool" where
  "open_change auths x i a a' \<longleftrightarrow> ca_nonce a' = ca_nonce a + 1 \<and> owner_part (ca_state a') = owner_part (ca_state a)
     \<and> ledger_step (ca_state a) (ca_state a')
     \<and> (map key (ledger_of (ca_state a')) \<noteq> map key (ledger_of (ca_state a)) \<longrightarrow>
          set (map key (ledger_of (ca_state a'))) \<subseteq> insert x (set (map key (ledger_of (ca_state a))))
          \<and> (\<exists>k au. auths k = Some au \<and> is_valid_for au (ci_join_authority i) x JOIN_RUN_AUTHORIZATION_SCOPE))"

definition account_change :: "authorizations \<Rightarrow> pubkey \<Rightarrow> coordinator_program \<Rightarrow> coordinator_program \<Rightarrow> bool" where
  "account_change auths x s s' \<longleftrightarrow> (\<exists>inst i a a'. prog_instances s inst = Some i
     \<and> prog_accounts s (ci_coordinator_account i) = Some (Initialized a) \<and> ca_version a' = ca_version a
     \<and> s' = s\<lparr>prog_accounts := (prog_accounts s)(ci_coordinator_account i \<mapsto> Initialized a')\<rparr>
     \<and> ledger_step (ca_state a) (ca_state a') \<and> (ci_main_authority i = x \<or> open_change auths x i a a'))"

lemma load_account_eq_Ok [simp]: "load_account s k = Ok a \<longleftrightarrow> prog_accounts s k = Some (Initialized a)"
  by (simp add: load_account_def split: option.splits state_account.splits)

lemma accounts_Ok:
  "permissionless_accounts R inst account s = Ok (i, a) \<Longrightarrow>
     prog_instances s inst = Some i \<and> prog_accounts s account = Some (Initialized a) \<and> ci_coordinator_account i = account"
  "owner_accounts R x inst account s = Ok (i, a) \<Longrightarrow>
     prog_instances s inst = Some i \<and> prog_accounts s account = Some (Initialized a) \<and> ci_coordinator_account i = account
     \<and> ci_main_authority i = x"
  by (auto simp: permissionless_accounts_def owner_accounts_def load_instance_def)

lemma with_state_Ok:
  "with_state account a f s = Ok s' \<longleftrightarrow> (\<exists>st. f (ca_state a) = Ok st \<and> ca_nonce a + 1 < 2 ^ 64
     \<and> s' = s\<lparr>prog_accounts := (prog_accounts s)(account \<mapsto> Initialized (a\<lparr>ca_nonce := ca_nonce a + 1, ca_state := st\<rparr>))\<rparr>)"
  by (auto simp: with_state_def increment_nonce_def)

lemma owner_change:
  assumes "owner_accounts R x inst account s = Ok (i, a)" "ca_version a' = ca_version a" "ledger_step (ca_state a) (ca_state a')"
    "s' = s\<lparr>prog_accounts := (prog_accounts s)(account \<mapsto> Initialized a')\<rparr>"
  shows "account_change auths x s s'"
  using accounts_Ok(2) [OF assms(1)] assms(2-4) unfolding account_change_def by blast

lemma owner_change_state:
  assumes "owner_accounts R x inst account s = Ok (i, a)" "with_state account a f s = Ok s'"
    and "\<And>st. f (ca_state a) = Ok st \<Longrightarrow> instance_step X (ca_state a) st"
  shows "account_change auths x s s'"
proof -
  obtain st where st: "f (ca_state a) = Ok st"
      "s' = s\<lparr>prog_accounts := (prog_accounts s)(account \<mapsto> Initialized (a\<lparr>ca_nonce := ca_nonce a + 1, ca_state := st\<rparr>))\<rparr>"
    using assms(2) by (auto simp: with_state_Ok)
  then show ?thesis
    using instance_step_ledger [OF assms(3)] by (intro owner_change [OF assms(1) _ _ st(2)]) simp_all
qed

lemma owner_instruction_change:
  "program_update R x inst account metadata config mdl progress s = Ok s' \<Longrightarrow> account_change auths x s s'"
  "update_client_version R x inst account version s = Ok s' \<Longrightarrow> account_change auths x s s'"
  "program_set_future_epoch_rates R x inst account earning slashing s = Ok s' \<Longrightarrow> account_change auths x s s'"
  "program_set_paused X R clock x inst account paused s = Ok s' \<Longrightarrow> account_change auths x s s'"
  "slash_client R x inst account params s = Ok s' \<Longrightarrow> account_change auths x s s'"
  by (auto simp: program_update_def program_set_future_epoch_rates_def program_set_paused_def slash_client_def
      elim: owner_change_state intro: in_update in_rates in_set_paused in_slash)
    (auto simp: update_client_version_def intro!: owner_change [OF _ _ _ refl] ledger_step_refl)

lemma open_change_state:
  assumes "permissionless_accounts R inst account s = Ok (i, a)" "with_state account a f s = Ok s'"
    and "\<And>st. f (ca_state a) = Ok st \<Longrightarrow> owner_part st = owner_part (ca_state a) \<and> ledger_step (ca_state a) st
      \<and> (map key (ledger_of st) \<noteq> map key (ledger_of (ca_state a)) \<longrightarrow>
          set (map key (ledger_of st)) \<subseteq> insert x (set (map key (ledger_of (ca_state a))))
          \<and> (\<exists>k au. auths k = Some au \<and> is_valid_for au (ci_join_authority i) x JOIN_RUN_AUTHORIZATION_SCOPE))"
  shows "account_change auths x s s'"
proof -
  obtain st where st: "f (ca_state a) = Ok st"
      "s' = s\<lparr>prog_accounts := (prog_accounts s)(account \<mapsto> Initialized (a\<lparr>ca_nonce := ca_nonce a + 1, ca_state := st\<rparr>))\<rparr>"
    using assms(2) by (auto simp: with_state_Ok)
  have "open_change auths x i a (a\<lparr>ca_nonce := ca_nonce a + 1, ca_state := st\<rparr>)"
    using assms(3) [OF st(1)] by (simp add: open_change_def)
  then show ?thesis
    using accounts_Ok(1) [OF assms(1)] st(2) assms(3) [OF st(1)] unfolding account_change_def
    by (intro exI [of _ inst] exI [of _ i] exI [of _ a] exI [of _ "a\<lparr>ca_nonce := ca_nonce a + 1, ca_state := st\<rparr>"]) simp
qed

lemma init_coordinator_Ok:
  assumes "init_coordinator R sz account main join run_id version s = Ok s'"
  shows "\<exists>inst i n a. prog_instances s inst = None \<and> prog_accounts s (ci_coordinator_account i) = Some (Zeroed n)
          \<and> ca_version a = VERSION \<and> ledger_of (ca_state a) = []
          \<and> s' = s\<lparr>prog_instances := (prog_instances s)(inst \<mapsto> i),
                   prog_accounts := (prog_accounts s)(ci_coordinator_account i \<mapsto> Initialized a)\<rparr>"
proof -
  define a where "a = \<lparr>ca_version = VERSION,
     ca_state = InstanceState_zeroed\<lparr>is_client_version := fs_from_str_truncated CLIENT_VERSION_LEN version,
       is_coordinator := Coordinator_zeroed\<lparr>c_run_id := fs_from_str_truncated SOLANA_RUN_ID_MAX_LEN run_id\<rparr>\<rparr>, ca_nonce = 0\<rparr>"
  obtain inst bump where k: "find_coordinator_instance R run_id = (inst, bump)"
    by fastforce
  define i where "i = \<lparr>ci_bump = bump, ci_main_authority = main, ci_join_authority = join,
     ci_coordinator_account = account, ci_run_id = run_id\<rparr>"
  have "prog_instances s inst = None" "\<exists>n. prog_accounts s account = Some (Zeroed n)"
      "s' = s\<lparr>prog_instances := (prog_instances s)(inst \<mapsto> i), prog_accounts := (prog_accounts s)(account \<mapsto> Initialized a)\<rparr>"
    using assms unfolding init_coordinator_def k Let_def prod.case a_def [symmetric] i_def [symmetric]
    by (auto split: option.splits state_account.splits)
  moreover have "ci_coordinator_account i = account" "ca_version a = VERSION" "ledger_of (ca_state a) = []"
    by (simp_all add: i_def a_def InstanceState_zeroed_def)
  ultimately show ?thesis
    by blast
qed

lemma program_step_cases:
  assumes "program_step X R sz auths x s s'"
  shows "(\<exists>k n. prog_accounts s k = None \<and> s' = s\<lparr>prog_accounts := (prog_accounts s)(k \<mapsto> Zeroed n)\<rparr>)
     \<or> (\<exists>inst i n a. prog_instances s inst = None \<and> prog_accounts s (ci_coordinator_account i) = Some (Zeroed n)
          \<and> ca_version a = VERSION \<and> ledger_of (ca_state a) = []
          \<and> s' = s\<lparr>prog_instances := (prog_instances s)(inst \<mapsto> i),
                   prog_accounts := (prog_accounts s)(ci_coordinator_account i \<mapsto> Initialized a)\<rparr>)
     \<or> (\<exists>inst i. prog_instances s inst = Some i \<and> ci_main_authority i = x
          \<and> s' = s\<lparr>prog_instances := (prog_instances s)(inst := None),
                   prog_accounts := (prog_accounts s)(ci_coordinator_account i := None)\<rparr>)
     \<or> account_change auths x s s'"
  using assms
proof (cases rule: program_step.cases)
  case (ps_init account main join run_id version)
  then show ?thesis
    by (intro disjI2 disjI1 init_coordinator_Ok)
next
  case (ps_free inst account)
  then show ?thesis
    by (auto simp: free_coordinator_def load_instance_def)
next
  case (ps_update inst account metadata config mdl progress)
  then show ?thesis by (rule owner_instruction_change [THEN disjI2, THEN disjI2, THEN disjI2])
next
  case (ps_version inst account version)
  then show ?thesis by (rule owner_instruction_change [THEN disjI2, THEN disjI2, THEN disjI2])
next
  case (ps_rates inst account earning slashing)
  then show ?thesis by (rule owner_instruction_change [THEN disjI2, THEN disjI2, THEN disjI2])
next
  case (ps_paused clock inst account paused)
  then show ?thesis by (rule owner_instruction_change [THEN disjI2, THEN disjI2, THEN disjI2])
next
  case (ps_slash inst account params)
  then show ?thesis by (rule owner_instruction_change [THEN disjI2, THEN disjI2, THEN disjI2])
next
  case (ps_join clock authorization inst account i)
  then obtain au j a where h: "auths authorization = Some au" "permissionless_accounts R inst account s = Ok (j, a)"
      "is_valid_for au (ci_join_authority j) x JOIN_RUN_AUTHORIZATION_SCOPE" "signer i = x"
      "with_state account a (instance_join_run X clock i) s = Ok s'"
    by (auto simp: program_join_run_def)
  have "account_change auths x s s'"
    using h(1,3,4) keys_join owner_messages(5) instance_step_ledger [OF in_join]
    by (intro open_change_state [OF h(2,5)]) blast
  then show ?thesis by blast
next
  case (ps_tick clock inst account)
  then obtain j a where h: "permissionless_accounts R inst account s = Ok (j, a)" "with_state account a (instance_tick X clock) s = Ok s'"
    by (auto simp: program_tick_def)
  have "account_change auths x s s'"
    using keys_tick owner_tick ledger_step_tick by (intro open_change_state [OF h]) blast
  then show ?thesis by blast
next
  case (ps_witness clock inst account pf b1 b2 merkle)
  then obtain j a w where h: "permissionless_accounts R inst account s = Ok (j, a)"
      "with_state account a (instance_witness X clock x w) s = Ok s'"
    by (auto simp: program_witness_def)
  have "account_change auths x s s'"
    using keys_messages(1) owner_messages(1) instance_step_ledger [OF in_witness] by (intro open_change_state [OF h]) blast
  then show ?thesis by blast
next
  case (ps_warmup clock inst account pf b1 b2 merkle)
  then obtain j a w where h: "permissionless_accounts R inst account s = Ok (j, a)"
      "with_state account a (instance_warmup_witness X clock x w) s = Ok s'"
    by (auto simp: program_warmup_witness_def)
  have "account_change auths x s s'"
    using keys_messages(2) owner_messages(2) instance_step_ledger [OF in_warmup_witness] by (intro open_change_state [OF h]) blast
  then show ?thesis by blast
next
  case (ps_health clock inst account i committee position index)
  then obtain j a checks where h: "permissionless_accounts R inst account s = Ok (j, a)"
      "with_state account a (instance_health_check X clock x checks) s = Ok s'"
    by (auto simp: program_health_check_def)
  have "account_change auths x s s'"
    using keys_messages(3) owner_messages(3) instance_step_ledger [OF in_health] by (intro open_change_state [OF h]) blast
  then show ?thesis by blast
next
  case (ps_checkpoint clock inst account repo)
  then obtain j a where h: "permissionless_accounts R inst account s = Ok (j, a)"
      "with_state account a (instance_checkpoint X clock x repo) s = Ok s'"
    by (auto simp: program_checkpoint_def)
  have "account_change auths x s s'"
    using keys_messages(4) owner_messages(4) instance_step_ledger [OF in_checkpoint] by (intro open_change_state [OF h]) blast
  then show ?thesis by blast
qed blast

lemma program_wfI:
  assumes "\<And>inst i. prog_instances s inst = Some i \<Longrightarrow> \<exists>a. prog_accounts s (ci_coordinator_account i) = Some (Initialized a)"
    and "\<And>inst inst' i i'. prog_instances s inst = Some i \<Longrightarrow> prog_instances s inst' = Some i'
      \<Longrightarrow> ci_coordinator_account i = ci_coordinator_account i' \<Longrightarrow> inst = inst'"
    and "\<And>k a. prog_accounts s k = Some (Initialized a) \<Longrightarrow> ca_version a = VERSION
      \<and> (\<exists>inst i. prog_instances s inst = Some i \<and> ci_coordinator_account i = k)"
  shows "program_wf s"
  using assms unfolding program_wf_def by blast

lemma program_wfD:
  assumes "program_wf s"
  shows "prog_instances s inst = Some i \<Longrightarrow> \<exists>a. prog_accounts s (ci_coordinator_account i) = Some (Initialized a)"
    "prog_instances s inst = Some i \<Longrightarrow> prog_instances s inst' = Some i'
      \<Longrightarrow> ci_coordinator_account i = ci_coordinator_account i' \<Longrightarrow> inst = inst'"
    "prog_accounts s k = Some (Initialized a) \<Longrightarrow> ca_version a = VERSION
      \<and> (\<exists>inst i. prog_instances s inst = Some i \<and> ci_coordinator_account i = k)"
  using assms unfolding program_wf_def by blast+

lemma program_wf_step:
  assumes "program_step X R sz auths x s s'" "program_wf s"
  shows "program_wf s'"
  using program_step_cases [OF assms(1)]
proof (elim disjE exE conjE)
  fix k n assume h: "prog_accounts s k = None" "s' = s\<lparr>prog_accounts := (prog_accounts s)(k \<mapsto> Zeroed n)\<rparr>"
  then have "prog_instances s' = prog_instances s"
      "prog_accounts s' j = Some (Initialized a) \<longleftrightarrow> prog_accounts s j = Some (Initialized a)" for j a
    by auto
  then show ?thesis
    using assms(2) by (simp add: program_wf_def)
next
  fix inst i n a assume h: "prog_instances s inst = None" "prog_accounts s (ci_coordinator_account i) = Some (Zeroed n)" "ca_version a = VERSION"
    "s' = s\<lparr>prog_instances := (prog_instances s)(inst \<mapsto> i), prog_accounts := (prog_accounts s)(ci_coordinator_account i \<mapsto> Initialized a)\<rparr>"
  have new: "ci_coordinator_account j \<noteq> ci_coordinator_account i" if "prog_instances s m = Some j" for m j
    using program_wfD(1) [OF assms(2) that] h(2) by auto
  show ?thesis
  proof (rule program_wfI)
    fix m m' j j' assume "prog_instances s' m = Some j" "prog_instances s' m' = Some j'" "ci_coordinator_account j = ci_coordinator_account j'"
    then show "m = m'"
      using new program_wfD(2) [OF assms(2)] by (auto simp: h(4) split: if_splits)
  next
    fix k b assume "prog_accounts s' k = Some (Initialized b)"
    then show "ca_version b = VERSION \<and> (\<exists>m j. prog_instances s' m = Some j \<and> ci_coordinator_account j = k)"
    proof (cases "k = ci_coordinator_account i")
      case False
      then obtain m j where "prog_instances s m = Some j" "ci_coordinator_account j = k" "ca_version b = VERSION"
        using program_wfD(3) [OF assms(2), of k b] \<open>prog_accounts s' k = _\<close> by (auto simp: h(4))
      moreover have "prog_instances s' m = prog_instances s m"
        using \<open>prog_instances s m = Some j\<close> h(1) by (auto simp: h(4))
      ultimately show ?thesis by force
    qed (use \<open>prog_accounts s' k = _\<close> h(3) in \<open>auto simp: h(4)\<close>)
  qed (use program_wfD(1) [OF assms(2)] in \<open>auto simp: h(4) split: if_splits\<close>)
next
  fix inst i assume h: "prog_instances s inst = Some i"
    "s' = s\<lparr>prog_instances := (prog_instances s)(inst := None), prog_accounts := (prog_accounts s)(ci_coordinator_account i := None)\<rparr>"
  have other: "ci_coordinator_account j \<noteq> ci_coordinator_account i" if "prog_instances s m = Some j" "m \<noteq> inst" for m j
    using program_wfD(2) [OF assms(2) that(1) h(1)] that(2) by auto
  show ?thesis
  proof (rule program_wfI)
    fix k b assume "prog_accounts s' k = Some (Initialized b)"
    then show "ca_version b = VERSION \<and> (\<exists>m j. prog_instances s' m = Some j \<and> ci_coordinator_account j = k)"
    proof (cases "k = ci_coordinator_account i")
      case False
      then obtain m j where "prog_instances s m = Some j" "ci_coordinator_account j = k" "ca_version b = VERSION"
        using program_wfD(3) [OF assms(2), of k b] \<open>prog_accounts s' k = _\<close> by (auto simp: h(2))
      moreover have "prog_instances s' m = prog_instances s m"
        using \<open>prog_instances s m = Some j\<close> \<open>ci_coordinator_account j = k\<close> False h(1) by (auto simp: h(2))
      ultimately show ?thesis by force
    qed (use \<open>prog_accounts s' k = _\<close> in \<open>auto simp: h(2)\<close>)
  qed (use program_wfD(1,2) [OF assms(2)] other in \<open>auto simp: h(2) split: if_splits\<close>)
next
  assume "account_change auths x s s'"
  then obtain inst i a a' where h: "prog_instances s inst = Some i" "prog_accounts s (ci_coordinator_account i) = Some (Initialized a)"
      "ca_version a' = ca_version a" "s' = s\<lparr>prog_accounts := (prog_accounts s)(ci_coordinator_account i \<mapsto> Initialized a')\<rparr>"
    unfolding account_change_def by blast
  show ?thesis
  proof (rule program_wfI)
    fix k b assume "prog_accounts s' k = Some (Initialized b)"
    then show "ca_version b = VERSION \<and> (\<exists>m j. prog_instances s' m = Some j \<and> ci_coordinator_account j = k)"
      using program_wfD(3) [OF assms(2), of k] program_wfD(3) [OF assms(2) h(2)] h(1,3) by (auto simp: h(4) split: if_splits)
  qed (use program_wfD(1,2) [OF assms(2)] in \<open>auto simp: h(4)\<close>)
qed

lemma program_wf_steps:
  "(\<lambda>s s'. \<exists>auths x. program_step X R sz auths x s s')\<^sup>*\<^sup>* s s' \<Longrightarrow> program_wf s \<Longrightarrow> program_wf s'"
  by (induction rule: rtranclp_induct) (auto intro: program_wf_step)

lemma empty_program_wf: "program_wf empty_program"
  by (simp add: program_wf_def empty_program_def)

text \<open>
  (C15) Who may do what to a run. In every state reached from an empty program the account of a run
  belongs to exactly one instance. If one more instruction changes it, then either the main authority of
  that instance signed it, or the configuration, the run id, the metadata, the required client version
  and the rates for future epochs stay, the nonce counts the instruction, the ledger only grows, and a
  key joins the ledger only as the signer with an authorization of the join authority.
\<close>

theorem coordinator_program_access:
  assumes "(\<lambda>s s'. \<exists>auths x. program_step X R sz auths x s s')\<^sup>*\<^sup>* empty_program s"
    and "program_step X R sz auths x s s'" "prog_accounts s k = Some (Initialized a)"
  shows "\<exists>inst i. prog_instances s inst = Some i \<and> ci_coordinator_account i = k
     \<and> (\<forall>inst' i'. prog_instances s inst' = Some i' \<and> ci_coordinator_account i' = k \<longrightarrow> inst' = inst)
     \<and> (prog_accounts s' k = prog_accounts s k \<or> ci_main_authority i = x
        \<or> (\<exists>a'. prog_accounts s' k = Some (Initialized a') \<and> open_change auths x i a a'))"
proof -
  have wf: "program_wf s"
    using program_wf_steps [OF assms(1) empty_program_wf] .
  then obtain inst i where i: "prog_instances s inst = Some i" "ci_coordinator_account i = k"
      "\<And>inst' i'. prog_instances s inst' = Some i' \<Longrightarrow> ci_coordinator_account i' = k \<Longrightarrow> inst' = inst"
    using assms(3) unfolding program_wf_def by metis
  have "prog_accounts s' k = prog_accounts s k \<or> ci_main_authority i = x
      \<or> (\<exists>a'. prog_accounts s' k = Some (Initialized a') \<and> open_change auths x i a a')"
    using program_step_cases [OF assms(2)]
  proof (elim disjE exE conjE)
    fix inst' i' assume h: "prog_instances s inst' = Some i'" "ci_main_authority i' = x"
      "s' = s\<lparr>prog_instances := (prog_instances s)(inst' := None), prog_accounts := (prog_accounts s)(ci_coordinator_account i' := None)\<rparr>"
    show ?thesis
    proof (cases "ci_coordinator_account i' = k")
      case True
      then have "i' = i" using i h(1) by force
      then show ?thesis using h by simp
    qed (use h in simp)
  next
    assume "account_change auths x s s'"
    then obtain inst' i' b b' where h: "prog_instances s inst' = Some i'"
        "prog_accounts s (ci_coordinator_account i') = Some (Initialized b)"
        "s' = s\<lparr>prog_accounts := (prog_accounts s)(ci_coordinator_account i' \<mapsto> Initialized b')\<rparr>"
        "ci_main_authority i' = x \<or> open_change auths x i' b b'"
      unfolding account_change_def by blast
    show ?thesis
    proof (cases "ci_coordinator_account i' = k")
      case True
      then have "i' = i" "b = a" using i h(1,2) assms(3) by force+
      then show ?thesis using h True by simp
    qed (use h in simp)
  qed (use assms(3) in auto)
  then show ?thesis
    using i by blast
qed

text \<open>For the programs that rely on a run: its accounts stay, and its ledger grows, until the owner frees it.\<close>

definition keeps_run :: "pubkey \<Rightarrow> CoordinatorInstance \<Rightarrow> coordinator_program \<Rightarrow> coordinator_program \<Rightarrow> bool" where
  "keeps_run inst i s s' \<longleftrightarrow> prog_instances s' inst = Some i
     \<and> (\<forall>a. prog_accounts s (ci_coordinator_account i) = Some (Initialized a) \<longrightarrow>
          (\<exists>a'. prog_accounts s' (ci_coordinator_account i) = Some (Initialized a') \<and> ledger_step (ca_state a) (ca_state a')))"

lemma keeps_account_change:
  assumes "account_change auths x s s'" "prog_instances s inst = Some i"
  shows "keeps_run inst i s s'"
proof -
  obtain m j a a' where h: "prog_accounts s (ci_coordinator_account j) = Some (Initialized a)"
      "s' = s\<lparr>prog_accounts := (prog_accounts s)(ci_coordinator_account j \<mapsto> Initialized a')\<rparr>" "ledger_step (ca_state a) (ca_state a')"
      "prog_instances s m = Some j"
    using assms(1) unfolding account_change_def by blast
  show ?thesis
    using assms(2) h by (cases "ci_coordinator_account i = ci_coordinator_account j") (auto simp: keeps_run_def intro: ledger_step_refl)
qed

lemma keeps_init:
  assumes "init_coordinator R sz account main join run_id version s = Ok s'" "prog_instances s inst = Some i"
  shows "keeps_run inst i s s'"
proof -
  obtain inst' j n a where "prog_instances s inst' = None" "prog_accounts s (ci_coordinator_account j) = Some (Zeroed n)"
      "s' = s\<lparr>prog_instances := (prog_instances s)(inst' \<mapsto> j), prog_accounts := (prog_accounts s)(ci_coordinator_account j \<mapsto> Initialized a)\<rparr>"
    using init_coordinator_Ok [OF assms(1)] by blast
  then show ?thesis
    using assms(2) by (auto simp: keeps_run_def intro: ledger_step_refl)
qed

lemma keeps_program_step:
  assumes "program_step X R sz auths x s s'" "program_wf s" "prog_instances s inst = Some i" "ci_main_authority i \<noteq> x"
  shows "keeps_run inst i s s'"
  using program_step_cases [OF assms(1)]
proof (elim disjE exE conjE)
  fix k n assume "prog_accounts s k = None" "s' = s\<lparr>prog_accounts := (prog_accounts s)(k \<mapsto> Zeroed n)\<rparr>"
  then show ?thesis
    using assms(3) by (auto simp: keeps_run_def intro: ledger_step_refl)
next
  fix inst' j n a assume "prog_instances s inst' = None" "prog_accounts s (ci_coordinator_account j) = Some (Zeroed n)"
    "s' = s\<lparr>prog_instances := (prog_instances s)(inst' \<mapsto> j), prog_accounts := (prog_accounts s)(ci_coordinator_account j \<mapsto> Initialized a)\<rparr>"
  then show ?thesis
    using assms(3) by (auto simp: keeps_run_def intro: ledger_step_refl)
next
  fix inst' j assume h: "prog_instances s inst' = Some j" "ci_main_authority j = x"
    "s' = s\<lparr>prog_instances := (prog_instances s)(inst' := None), prog_accounts := (prog_accounts s)(ci_coordinator_account j := None)\<rparr>"
  then have "inst' \<noteq> inst"
    using assms(3,4) by auto
  then have "ci_coordinator_account i \<noteq> ci_coordinator_account j"
    using program_wfD(2) [OF assms(2,3) h(1)] by auto
  then show ?thesis
    using assms(3) h \<open>inst' \<noteq> inst\<close> by (auto simp: keeps_run_def intro: ledger_step_refl)
next
  assume "account_change auths x s s'"
  then show ?thesis
    using assms(3) by (rule keeps_account_change)
qed

text \<open>A run that is created by one key, configured, and joined by another.\<close>

definition demo_auths :: authorizations where
  "demo_auths = (\<lambda>_. Some \<lparr>au_bump = 0, au_grantor = [5], au_grantee = [2], au_scope = JOIN_RUN_AUTHORIZATION_SCOPE,
     au_active = True, au_delegates = [], au_grantor_update_unix_timestamp = 0\<rparr>)"

definition demo_instance_key :: pubkey where
  "demo_instance_key = concat (instance_seeds [7])"

definition demo_address_runtime :: runtime where
  "demo_address_runtime = demo_runtime\<lparr>create_program_address := \<lambda>p seeds. Some (concat (butlast seeds))\<rparr>"

definition demo_run :: CoordinatorInstance where
  "demo_run = \<lparr>ci_bump = 255, ci_main_authority = [1], ci_join_authority = [5], ci_coordinator_account = [9], ci_run_id = [7]\<rparr>"

definition demo_state :: "Coordinator \<Rightarrow> CoordinatorInstanceState" where
  "demo_state c = InstanceState_zeroed\<lparr>is_client_version := fs_from_str_truncated CLIENT_VERSION_LEN [], is_coordinator := c\<rparr>"

definition demo_program :: "Coordinator \<Rightarrow> nat \<Rightarrow> coordinator_program" where
  "demo_program c n = \<lparr>prog_instances = [demo_instance_key \<mapsto> demo_run],
     prog_accounts = [[9] \<mapsto> Initialized \<lparr>ca_version = VERSION, ca_state = demo_state c, ca_nonce = n\<rparr>]\<rparr>"

definition demo_created :: Coordinator where
  "demo_created = Coordinator_zeroed\<lparr>c_run_id := fs_from_str_truncated SOLANA_RUN_ID_MAX_LEN [7]\<rparr>"

lemma demo_init:
  "init_coordinator demo_address_runtime 100 [9] [1] [5] [7] [] (empty_program\<lparr>prog_accounts := [[9] \<mapsto> Zeroed 108]\<rparr>)
   = Ok (demo_program demo_created 0)"
  by (simp add: init_coordinator_def find_coordinator_instance_def demo_address_runtime_def demo_runtime_def empty_program_def
      demo_instance_key_def [symmetric] account_len_def space_with_discriminator_def SOLANA_RUN_ID_MAX_LEN_def
      demo_program_def demo_state_def demo_created_def demo_run_def rust_ctrl del: rbind_eq_Ok)

lemma demo_accounts:
  "permissionless_accounts demo_address_runtime demo_instance_key [9] (demo_program c n)
   = Ok (demo_run, \<lparr>ca_version = VERSION, ca_state = demo_state c, ca_nonce = n\<rparr>)"
  "owner_accounts demo_address_runtime [1] demo_instance_key [9] (demo_program c n)
   = Ok (demo_run, \<lparr>ca_version = VERSION, ca_state = demo_state c, ca_nonce = n\<rparr>)"
  by (simp_all add: permissionless_accounts_def owner_accounts_def load_instance_def load_account_def demo_program_def
      demo_address_runtime_def demo_run_def demo_instance_key_def instance_seeds_def rust_ctrl del: rbind_eq_Ok)

definition demo_configured :: Coordinator where
  "demo_configured = demo_created\<lparr>c_config := demo_config\<rparr>"

lemma demo_update:
  "program_update demo_address_runtime [1] demo_instance_key [9] None (Some demo_config) None None (demo_program demo_created 0)
   = Ok (demo_program demo_configured 1)"
proof -
  have "config_check demo_config"
    using demo_inv(1) by (simp add: coord_inv_def config_wf_def demo_coordinator_def)
  moreover have "check_cold_start_warmup_steps (demo_created\<lparr>c_config := demo_config\<rparr>) = (Ok True :: bool instance_res)"
    by (simp add: check_cold_start_warmup_steps_def demo_created_def Coordinator_zeroed_def lr_get_warmup_steps_def rust_ctrl)
  ultimately have "instance_update None (Some demo_config) None None (demo_state demo_created) = Ok (demo_state demo_configured)"
    by (simp add: instance_update_def demo_state_def demo_created_def Coordinator_zeroed_def halted_def set_coordinator_def
        demo_configured_def rust_ctrl del: rbind_eq_Ok)
  then show ?thesis
    unfolding program_update_def demo_accounts rbind.simps prod.case
    by (simp add: with_state_def increment_nonce_def demo_program_def u_add_def del: rbind_eq_Ok)
qed

definition demo_joined :: coordinator_program where
  "demo_joined = (demo_program demo_configured 2)\<lparr>prog_accounts := [[9] \<mapsto> Initialized \<lparr>ca_version = VERSION,
     ca_state = (let st = demo_state demo_configured in st\<lparr>is_clients_state := (is_clients_state st)\<lparr>cs_clients :=
       [\<lparr>sc_id = \<lparr>signer = [2], p2p_identity = []\<rparr>, sc_earned = 0, sc_slashed = 0, sc_active = 0\<rparr>]\<rparr>\<rparr>), ca_nonce = 2\<rparr>]\<rparr>"

lemma demo_join:
  "program_join_run X demo_address_runtime clock demo_auths [2] k demo_instance_key [9] \<lparr>signer = [2], p2p_identity = []\<rparr>
     (demo_program demo_configured 1) = Ok demo_joined"
proof -
  let ?st = "demo_state demo_configured"
  have st: "is_clients_state ?st = is_clients_state InstanceState_zeroed" "c_config (is_coordinator ?st) = demo_config"
      "halted (is_coordinator ?st)"
    by (simp_all add: demo_state_def demo_configured_def demo_created_def Coordinator_zeroed_def halted_def)
  have "cc_global_batch_size_end demo_config \<noteq> 0"
    by (simp add: demo_config_def)
  then have "instance_join_run X clock \<lparr>signer = [2], p2p_identity = []\<rparr> ?st
      = Ok (?st\<lparr>is_clients_state := (is_clients_state ?st)\<lparr>cs_clients :=
       [\<lparr>sc_id = \<lparr>signer = [2], p2p_identity = []\<rparr>, sc_earned = 0, sc_slashed = 0, sc_active = 0\<rparr>]\<rparr>\<rparr>)"
    using st(3)
    by (simp add: instance_join_run_def join_ledger_def tick_unless_halted_def st InstanceState_zeroed_def vec_push_def u_cast_def
        SOLANA_MAX_NUM_PENDING_CLIENTS_def SOLANA_MAX_NUM_CLIENTS_def set_clients_state_def rust_ctrl del: rbind_eq_Ok)
  then show ?thesis
    unfolding program_join_run_def demo_accounts rbind.simps prod.case
    by (simp add: with_state_def increment_nonce_def u_add_def demo_auths_def is_valid_for_def
        demo_run_def rust_ctrl demo_joined_def demo_program_def Let_def
        numeral_2_eq_2 [symmetric] del: rbind_eq_Ok)
qed

theorem coordinator_program_access_witness:
  "\<exists>i a a'. prog_instances (demo_program demo_configured 1) demo_instance_key = Some i \<and> ci_main_authority i \<noteq> [2]
     \<and> prog_accounts (demo_program demo_configured 1) [9] = Some (Initialized a) \<and> ledger_of (ca_state a) = []
     \<and> prog_accounts demo_joined [9] = Some (Initialized a') \<and> map key (ledger_of (ca_state a')) = [[2]]
     \<and> open_change demo_auths [2] i a a'"
proof -
  let ?X = "demo_X" and ?R = demo_address_runtime and ?t = "empty_program\<lparr>prog_accounts := [[9] \<mapsto> Zeroed 108]\<rparr>"
  let ?s = "demo_program demo_configured 1"
  define st where "st = (\<lambda>s s'. \<exists>auths x. program_step demo_X demo_address_runtime 100 auths x s s')"
  define a where "a = \<lparr>ca_version = VERSION, ca_state = demo_state demo_configured, ca_nonce = 1\<rparr>"
  have "st empty_program ?t"
    unfolding st_def using ps_allocate [of empty_program "[9]" ?X ?R 100 demo_auths "[1]" 108] by (auto simp: empty_program_def)
  moreover have "st ?t (demo_program demo_created 0)"
    unfolding st_def using ps_init [OF demo_init] by blast
  moreover have "st (demo_program demo_created 0) ?s"
    unfolding st_def using ps_update [OF demo_update] by blast
  ultimately have steps: "st\<^sup>*\<^sup>* empty_program ?s"
    by (meson rtranclp.rtrancl_into_rtrancl rtranclp.rtrancl_refl)
  have join: "program_step ?X ?R 100 demo_auths [2] ?s demo_joined"
    by (rule ps_join [OF demo_join])
  have acc: "prog_accounts ?s [9] = Some (Initialized a)"
    by (simp add: demo_program_def a_def)
  obtain a' where a': "prog_accounts demo_joined [9] = Some (Initialized a')" "map key (ledger_of (ca_state a')) = [[2]]"
    by (simp add: demo_joined_def Let_def)
  have led: "ledger_of (ca_state a) = []"
    by (simp add: a_def demo_state_def InstanceState_zeroed_def)
  have inst: "prog_instances ?s m = Some i \<Longrightarrow> m = demo_instance_key \<and> i = demo_run" for m i
    by (simp add: demo_program_def split: if_splits)
  have "prog_accounts demo_joined [9] \<noteq> prog_accounts ?s [9]" "ci_main_authority demo_run \<noteq> [2]"
    using a' acc led by (auto simp: demo_run_def)
  then have "open_change demo_auths [2] demo_run a a'"
    using coordinator_program_access [OF steps [unfolded st_def] join acc] a'(1) inst by (metis option.inject state_account.inject(2))
  moreover have "prog_instances ?s demo_instance_key = Some demo_run"
    by (simp add: demo_program_def)
  ultimately show ?thesis
    using acc led a' \<open>ci_main_authority demo_run \<noteq> [2]\<close>
    by (intro exI [of _ demo_run] exI [of _ a] exI [of _ a'] conjI)
qed

end
