(* ===== verification/Treasurer.thy ===== *)
theory Treasurer
  imports Coordinator_Program
begin

text \<open>
  The treasurer program (solana-treasurer): it owns the coordinator instance of a run and a vault of
  collateral, pays out what the coordinator's ledger says was earned, holds the bonds of participants,
  and turns verdicts of the verifier committee, with an appeal to the tie breakers, into slashes. Calls
  into the coordinator and authorizer programs are the instructions modelled in their theories, with
  the run's address as the signer. \<open>msg!\<close> logging is left out.
\<close>

section \<open>State\<close>

datatype TreasurerError =
    InvalidParameter
  | TreasurerRunIdInvalidLength
  | InsufficientBond
  | WithdrawDelayNotElapsed
  | MissingReporter
  | BondBelowMinimum
  | BondWindowRequired
  | VerifierNotInEpoch
  | VerifierNotAssigned
  | TargetMismatch
  | DuplicateVerdict
  | VerdictAlreadyResolved
  | VerdictVotersFull
  | BountyRecipientMismatch
  | VerdictNotPending
  | ChallengeWindowClosed
  | ChallengeWindowOpen
  | VerdictNotChallenged
  | NotTieBreaker
  | DuplicateAppealVerdict
  | AppealVotersFull
  | VerdictNotOverturned
  | AllLosersSettled
  | VerifierCommitteeTooSmall
  | QuorumExceedsVoterCapacity
  | PreviousVerdictUnsettled
  | EvidenceMismatch
  | AppellateVotedOnVerdict
  | AppealWindowOpen
  | InvalidBountyRecipient
  | AuditVerdictRequired
  | LoserNotSlashableYet

text \<open>An error of the treasurer, or of a program it calls.\<close>

datatype treasurer_failure =
    OfTreasurer TreasurerError
  | FromCoordinator "CoordinatorProgramError anchor_error"
  | FromAuthorizer "AuthorizerError anchor_error"

datatype VerdictStatus = Voting | SlashPending | Challenged | Upheld | Overturned

definition MAX_VERDICT_VOTERS :: nat where
  "MAX_VERDICT_VOTERS = 64"

definition MAX_APPEAL_VOTERS :: nat where
  "MAX_APPEAL_VOTERS = 64"

definition MIN_VERIFIER_COMMITTEE :: nat where
  "MIN_VERIFIER_COMMITTEE = 2"

definition MAX_SLASH_BOUNTY_BPS :: nat where
  "MAX_SLASH_BOUNTY_BPS = 10000"

record AuditVerdict =
  av_bump :: nat
  av_run :: pubkey
  av_target :: pubkey
  av_epoch :: nat
  av_round_height :: nat
  av_status :: VerdictStatus
  av_verdict_count :: nat
  av_committed_hash :: bytes
  av_replayed_hash :: bytes
  av_target_index :: nat
  av_batch_start :: nat
  av_batch_end :: nat
  av_pending_since_unix :: int
  av_challenged_since_unix :: int
  av_challenger :: pubkey
  av_overturn_count :: nat
  av_uphold_count :: nat
  av_settled_count :: nat
  av_voters :: "pubkey list"
  av_appeal_voters :: "pubkey list"

record Participant =
  pa_bump :: nat
  pa_claimed_collateral_amount :: nat
  pa_claimed_earned_points :: nat
  pa_bond_amount :: nat
  pa_bond_withdraw_pending_amount :: nat
  pa_bond_withdraw_requested_at :: int
  pa_bond_settled_slashed_points :: nat
  pa_bond_withdraw_delay_snapshot :: int

record Run =
  rn_bump :: nat
  rn_index :: nat
  rn_main_authority :: pubkey
  rn_join_authority :: pubkey
  rn_coordinator_account :: pubkey
  rn_coordinator_instance :: pubkey
  rn_collateral_mint :: pubkey
  rn_total_claimed_collateral_amount :: nat
  rn_total_claimed_earned_points :: nat
  rn_total_bonded_amount :: nat
  rn_bond_minimum_amount :: nat
  rn_bond_withdraw_delay_seconds :: int
  rn_slash_bounty_bps :: nat
  rn_challenge_window_seconds :: int
  rn_tie_breaker_committee_size :: nat
  rn_appeal_window_seconds :: int

text \<open>
  Participants and verdicts are derived from the run and a user, and keyed by them. The accounts of the
  programs the treasurer calls and of the token program are part of the state.
\<close>

record treasury =
  tr_runs :: "pubkey \<Rightarrow> Run option"
  tr_participants :: "pubkey \<times> pubkey \<Rightarrow> Participant option"
  tr_verdicts :: "pubkey \<times> pubkey \<Rightarrow> AuditVerdict option"
  tr_program :: coordinator_program
  tr_auths :: authorizations
  tr_ledger :: ledger

type_synonym 'a treasurer_res = "(treasurer_failure anchor_error, 'a) res"

definition tfail :: "bool \<Rightarrow> TreasurerError \<Rightarrow> unit treasurer_res" where
  "tfail bad e = fail_if bad (OfTreasurer e)"

definition tok_or :: "TreasurerError \<Rightarrow> 'a option \<Rightarrow> 'a treasurer_res" where
  "tok_or e = ok_or (ProgramError (OfTreasurer e))"

definition AuditVerdict_zeroed :: AuditVerdict where
  "AuditVerdict_zeroed = \<lparr>av_bump = 0, av_run = Pubkey_default, av_target = Pubkey_default, av_epoch = 0, av_round_height = 0,
     av_status = Voting, av_verdict_count = 0, av_committed_hash = replicate 32 0, av_replayed_hash = replicate 32 0,
     av_target_index = 0, av_batch_start = 0, av_batch_end = 0, av_pending_since_unix = 0, av_challenged_since_unix = 0,
     av_challenger = Pubkey_default, av_overturn_count = 0, av_uphold_count = 0, av_settled_count = 0, av_voters = [],
     av_appeal_voters = []\<rparr>"

definition is_settled :: "AuditVerdict \<Rightarrow> bool" where
  "is_settled v = (case av_status v of
       Voting \<Rightarrow> True
     | Upheld \<Rightarrow> True
     | Overturned \<Rightarrow> length (av_voters v) \<le> av_settled_count v
     | SlashPending \<Rightarrow> False
     | Challenged \<Rightarrow> False)"

definition reset_for_round :: "nat \<Rightarrow> nat \<Rightarrow> AuditVerdict \<Rightarrow> AuditVerdict" where
  "reset_for_round epoch round_height v = v\<lparr>av_epoch := epoch, av_round_height := round_height, av_status := Voting,
     av_verdict_count := 0, av_committed_hash := replicate 32 0, av_replayed_hash := replicate 32 0, av_target_index := 0,
     av_batch_start := 0, av_batch_end := 0, av_pending_since_unix := 0, av_challenged_since_unix := 0,
     av_challenger := Pubkey_default, av_overturn_count := 0, av_uphold_count := 0, av_settled_count := 0, av_voters := [],
     av_appeal_voters := []\<rparr>"

section \<open>Runs and participants\<close>

definition TREASURER_ID :: string where
  "TREASURER_ID = ''Fq1Mv8osXqHxiiXjm4yhvQGE5wgx9QMueK8n2qwbqovV''"

definition find_run :: "runtime \<Rightarrow> nat \<Rightarrow> pubkey \<times> nat" where
  "find_run R index = find_program_address R TREASURER_ID [str_bytes ''Run'', to_le_bytes 8 index]"

definition find_participant :: "runtime \<Rightarrow> pubkey \<Rightarrow> pubkey \<Rightarrow> pubkey \<times> nat" where
  "find_participant R run user = find_program_address R TREASURER_ID [str_bytes ''Participant'', run, user]"

definition find_audit_verdict :: "runtime \<Rightarrow> pubkey \<Rightarrow> pubkey \<Rightarrow> pubkey \<times> nat" where
  "find_audit_verdict R run target = find_program_address R TREASURER_ID [str_bytes ''AuditVerdict'', run, target]"

definition run_create ::
  "runtime \<Rightarrow> nat \<Rightarrow> pubkey \<Rightarrow> pubkey \<Rightarrow> pubkey \<Rightarrow> nat \<Rightarrow> bytes \<Rightarrow> bytes \<Rightarrow> pubkey \<Rightarrow> pubkey \<Rightarrow> treasury \<Rightarrow> treasury treasurer_res" where
  "run_create R size_of_account mint inst account index run_id client_version main_authority join_authority s =
     (let (run, bump) = find_run R index in
      rbind (init_account (tr_runs s) run) (\<lambda>_.
      rbind (init_associated_token R (tr_ledger s) mint run) (\<lambda>L.
      rbind (tfail (SOLANA_RUN_ID_MAX_LEN < length run_id) TreasurerRunIdInvalidLength) (\<lambda>_.
      rbind (require_constraint (fst (find_coordinator_instance R run_id) = inst)) (\<lambda>_.
      rbind (map_err (\<lambda>e. ProgramError (FromCoordinator e))
               (init_coordinator R size_of_account account run join_authority run_id client_version (tr_program s))) (\<lambda>prog.
        Ok (s\<lparr>tr_runs := (tr_runs s)(run \<mapsto>
               \<lparr>rn_bump = bump, rn_index = index, rn_main_authority = main_authority, rn_join_authority = join_authority,
                rn_coordinator_account = account, rn_coordinator_instance = inst, rn_collateral_mint = mint,
                rn_total_claimed_collateral_amount = 0, rn_total_claimed_earned_points = 0, rn_total_bonded_amount = 0,
                rn_bond_minimum_amount = 0, rn_bond_withdraw_delay_seconds = 0, rn_slash_bounty_bps = 0,
                rn_challenge_window_seconds = 0, rn_tie_breaker_committee_size = 0, rn_appeal_window_seconds = 0\<rparr>),
             tr_program := prog, tr_ledger := L\<rparr>)))))))"

definition participant_create :: "runtime \<Rightarrow> pubkey \<Rightarrow> pubkey \<Rightarrow> treasury \<Rightarrow> treasury treasurer_res" where
  "participant_create R user run s =
     rbind (load (tr_runs s) run) (\<lambda>_.
     rbind (init_account (tr_participants s) (run, user)) (\<lambda>_.
       Ok (s\<lparr>tr_participants := (tr_participants s)((run, user) \<mapsto>
              \<lparr>pa_bump = snd (find_participant R run user), pa_claimed_collateral_amount = 0, pa_claimed_earned_points = 0,
               pa_bond_amount = 0, pa_bond_withdraw_pending_amount = 0, pa_bond_withdraw_requested_at = 0,
               pa_bond_settled_slashed_points = 0, pa_bond_withdraw_delay_snapshot = 0\<rparr>)\<rparr>)))"

definition participant_authorize_join :: "runtime \<Rightarrow> Clock \<Rightarrow> pubkey \<Rightarrow> pubkey \<Rightarrow> treasury \<Rightarrow> treasury treasurer_res" where
  "participant_authorize_join R clock user run s =
     rbind (load (tr_runs s) run) (\<lambda>r.
     rbind (require_constraint (rn_join_authority r = run)) (\<lambda>_.
     rbind (load (tr_participants s) (run, user)) (\<lambda>p.
     rbind (tfail (pa_bond_amount p < rn_bond_minimum_amount r) BondBelowMinimum) (\<lambda>_.
     rbind (map_err (\<lambda>e. ProgramError (FromAuthorizer e))
              (authorization_create R run user JOIN_RUN_AUTHORIZATION_SCOPE (tr_auths s))) (\<lambda>auths.
     rbind (map_err (\<lambda>e. ProgramError (FromAuthorizer e))
              (authorization_grantor_update clock run (run, user, JOIN_RUN_AUTHORIZATION_SCOPE) True auths)) (\<lambda>auths'.
       Ok (s\<lparr>tr_auths := auths'\<rparr>)))))))"

definition participant_bond_deposit ::
  "runtime \<Rightarrow> pubkey \<Rightarrow> pubkey \<Rightarrow> pubkey \<Rightarrow> pubkey \<Rightarrow> nat \<Rightarrow> treasury \<Rightarrow> treasury treasurer_res" where
  "participant_bond_deposit R user user_collateral run run_collateral amount s =
     rbind (load (tr_runs s) run) (\<lambda>r.
     rbind (wallet_account (tr_ledger s) user_collateral (rn_collateral_mint r) user) (\<lambda>_.
     rbind (vault_account R (tr_ledger s) run_collateral (rn_collateral_mint r) run) (\<lambda>_.
     rbind (load (tr_participants s) (run, user)) (\<lambda>p.
     rbind (tfail (amount = 0) InvalidParameter) (\<lambda>_.
     rbind (transfer R (tr_ledger s) user_collateral run_collateral user amount) (\<lambda>L.
     rbind (u_add 64 (pa_bond_amount p) amount) (\<lambda>bond.
     rbind (u_add 64 (rn_total_bonded_amount r) amount) (\<lambda>total.
       Ok (s\<lparr>tr_participants := (tr_participants s)((run, user) \<mapsto> p\<lparr>pa_bond_amount := bond\<rparr>),
            tr_runs := (tr_runs s)(run \<mapsto> r\<lparr>rn_total_bonded_amount := total\<rparr>), tr_ledger := L\<rparr>)))))))))"

definition participant_bond_request_withdraw ::
  "Clock \<Rightarrow> pubkey \<Rightarrow> pubkey \<Rightarrow> nat \<Rightarrow> treasury \<Rightarrow> treasury treasurer_res" where
  "participant_bond_request_withdraw clock user run amount s =
     rbind (load (tr_runs s) run) (\<lambda>r.
     rbind (load (tr_participants s) (run, user)) (\<lambda>p.
     rbind (u_sub (pa_bond_amount p) (pa_bond_withdraw_pending_amount p)) (\<lambda>available.
     rbind (tfail (amount = 0 \<or> available < amount) InsufficientBond) (\<lambda>_.
     rbind (u_add 64 (pa_bond_withdraw_pending_amount p) amount) (\<lambda>pending.
       Ok (s\<lparr>tr_participants := (tr_participants s)((run, user) \<mapsto>
              p\<lparr>pa_bond_withdraw_pending_amount := pending, pa_bond_withdraw_requested_at := clk_unix_timestamp clock,
                 pa_bond_withdraw_delay_snapshot := rn_bond_withdraw_delay_seconds r\<rparr>)\<rparr>))))))"

text \<open>The loops that look a user up in the coordinator's ledger.\<close>

definition client_earned :: "pubkey \<Rightarrow> CoordinatorInstanceState \<Rightarrow> nat" where
  "client_earned user st =
     (case find (\<lambda>c. signer (sc_id c) = user) (cs_clients (is_clients_state st)) of Some c \<Rightarrow> sc_earned c | None \<Rightarrow> 0)"

definition client_slashed :: "pubkey \<Rightarrow> CoordinatorInstanceState \<Rightarrow> nat" where
  "client_slashed user st =
     (case find (\<lambda>c. signer (sc_id c) = user) (cs_clients (is_clients_state st)) of Some c \<Rightarrow> sc_slashed c | None \<Rightarrow> 0)"

text \<open>The account of the coordinator as the treasurer loads it.\<close>

definition coordinator_of :: "Run \<Rightarrow> pubkey \<Rightarrow> treasury \<Rightarrow> CoordinatorAccount treasurer_res" where
  "coordinator_of r account s =
     rbind (require_constraint (rn_coordinator_account r = account)) (\<lambda>_.
     rbind (map_err (\<lambda>e. ProgramError (FromCoordinator e)) (load_account (tr_program s) account)) (\<lambda>a. Ok a))"

definition participant_claim ::
  "runtime \<Rightarrow> pubkey \<Rightarrow> pubkey \<Rightarrow> pubkey \<Rightarrow> pubkey \<Rightarrow> pubkey \<Rightarrow> nat \<Rightarrow> treasury \<Rightarrow> treasury treasurer_res" where
  "participant_claim R user user_collateral run run_collateral account claim_earned_points s =
     rbind (load (tr_runs s) run) (\<lambda>r.
     rbind (wallet_account (tr_ledger s) user_collateral (rn_collateral_mint r) user) (\<lambda>_.
     rbind (vault_account R (tr_ledger s) run_collateral (rn_collateral_mint r) run) (\<lambda>_.
     rbind (coordinator_of r account s) (\<lambda>a.
     rbind (require_constraint (ca_version a = VERSION)) (\<lambda>_.
     rbind (load (tr_participants s) (run, user)) (\<lambda>p.
     rbind (tfail (pa_bond_amount p < rn_bond_minimum_amount r) BondBelowMinimum) (\<lambda>_.
     rbind (u_sub (client_earned user (ca_state a)) (pa_claimed_earned_points p)) (\<lambda>unclaimed.
     rbind (tfail (unclaimed < claim_earned_points) InvalidParameter) (\<lambda>_.
     rbind (u_add 64 (pa_claimed_collateral_amount p) claim_earned_points) (\<lambda>claimed_collateral.
     rbind (u_add 64 (pa_claimed_earned_points p) claim_earned_points) (\<lambda>claimed_points.
     rbind (u_add 64 (rn_total_claimed_collateral_amount r) claim_earned_points) (\<lambda>total_collateral.
     rbind (u_add 64 (rn_total_claimed_earned_points r) claim_earned_points) (\<lambda>total_points.
     rbind (transfer R (tr_ledger s) run_collateral user_collateral run claim_earned_points) (\<lambda>L.
       Ok (s\<lparr>tr_participants := (tr_participants s)((run, user) \<mapsto>
              p\<lparr>pa_claimed_collateral_amount := claimed_collateral, pa_claimed_earned_points := claimed_points\<rparr>),
            tr_runs := (tr_runs s)(run \<mapsto> r\<lparr>rn_total_claimed_collateral_amount := total_collateral,
              rn_total_claimed_earned_points := total_points\<rparr>), tr_ledger := L\<rparr>)))))))))))))))"

text \<open>Who gets the bounty of a forfeited bond.\<close>

definition bounty_voters ::
  "pubkey \<Rightarrow> pubkey \<Rightarrow> AuditVerdict option \<Rightarrow> AuditVerdict option \<Rightarrow> pubkey list treasurer_res" where
  "bounty_voters run user own_verdict appeal_verdict = (case own_verdict of
       Some v \<Rightarrow> Ok (if av_status v = Upheld \<and> av_appeal_voters v \<noteq> [] then av_appeal_voters v else av_voters v)
     | None \<Rightarrow> (case appeal_verdict of
         Some appeal \<Rightarrow>
           rbind (tfail (av_run appeal \<noteq> run) InvalidParameter) (\<lambda>_.
           rbind (tfail (av_status appeal \<noteq> Overturned) VerdictNotOverturned) (\<lambda>_.
           rbind (tfail (user \<notin> set (av_voters appeal)) InvalidParameter) (\<lambda>_. Ok (av_appeal_voters appeal))))
       | None \<Rightarrow> Ok []))"

fun pay_voters ::
  "runtime \<Rightarrow> pubkey \<Rightarrow> pubkey \<Rightarrow> pubkey \<Rightarrow> nat \<Rightarrow> pubkey list \<Rightarrow> pubkey list \<Rightarrow> ledger \<Rightarrow> ledger treasurer_res" where
  "pay_voters R run vault mint share [] remaining L = Ok L"
| "pay_voters R run vault mint share (v # vs) remaining L =
     (if share = 0 then Ok L
      else case remaining of
        [] \<Rightarrow> Panic
      | r # rs \<Rightarrow>
          rbind (tok_or BountyRecipientMismatch (L r)) (\<lambda>t.
          rbind (tfail (ta_owner t \<noteq> v \<or> ta_mint t \<noteq> mint) BountyRecipientMismatch) (\<lambda>_.
          rbind (transfer R L vault r run share) (pay_voters R run vault mint share vs rs))))"

definition pay_bounty ::
  "runtime \<Rightarrow> pubkey \<Rightarrow> pubkey \<Rightarrow> pubkey \<Rightarrow> pubkey \<Rightarrow> nat \<Rightarrow> pubkey list \<Rightarrow> pubkey list \<Rightarrow> ledger \<Rightarrow> ledger treasurer_res" where
  "pay_bounty R run user vault mint bounty voters remaining L =
     (if voters = [] then
        rbind (tok_or MissingReporter (if remaining = [] then None else Some (hd remaining))) (\<lambda>reporter.
        rbind (tok_or InvalidBountyRecipient (L reporter)) (\<lambda>t.
        rbind (tfail (ta_mint t \<noteq> mint \<or> ta_owner t = user) InvalidBountyRecipient) (\<lambda>_.
          transfer R L vault reporter run bounty)))
      else
        rbind (tfail (length remaining < length voters) MissingReporter) (\<lambda>_.
          pay_voters R run vault mint (bounty div length voters) voters remaining L))"

text \<open>The product of the bounty is computed in \<open>u128\<close> and fits \<open>u64\<close> again because the share is at most one.\<close>

definition bounty_amount :: "nat \<Rightarrow> nat \<Rightarrow> nat treasurer_res" where
  "bounty_amount forfeited bps =
     (if 0 < bps then rbind (u_mul 128 forfeited bps) (\<lambda>x. Ok (u_cast 64 (x div 10000))) else Ok 0)"

text \<open>
  The books of a withdrawal: slashed points that were not settled yet are forfeited first, then the
  pending amount is paid out of what is left of the bond.
\<close>

definition settle_bond :: "nat \<Rightarrow> Participant \<Rightarrow> Run \<Rightarrow> (Participant \<times> Run \<times> nat \<times> nat) treasurer_res" where
  "settle_bond slashed p r =
     (let forfeited = min (slashed - pa_bond_settled_slashed_points p) (pa_bond_amount p) in
      rbind (u_add 64 (pa_bond_settled_slashed_points p) forfeited) (\<lambda>settled_points.
      rbind (u_sub (pa_bond_amount p) forfeited) (\<lambda>bond.
        let payout = min (pa_bond_withdraw_pending_amount p) bond in
        rbind (u_sub bond payout) (\<lambda>bond'.
        rbind (u_add 64 forfeited payout) (\<lambda>gone.
        rbind (u_sub (rn_total_bonded_amount r) gone) (\<lambda>total.
          Ok (p\<lparr>pa_bond_settled_slashed_points := settled_points, pa_bond_amount := bond',
                pa_bond_withdraw_pending_amount := 0, pa_bond_withdraw_requested_at := 0\<rparr>,
              r\<lparr>rn_total_bonded_amount := total\<rparr>, forfeited, payout)))))))"

definition pay_withdrawal ::
  "runtime \<Rightarrow> pubkey \<Rightarrow> pubkey \<Rightarrow> pubkey \<Rightarrow> pubkey \<Rightarrow> Run \<Rightarrow> AuditVerdict option \<Rightarrow> AuditVerdict option \<Rightarrow> pubkey list
   \<Rightarrow> nat \<Rightarrow> nat \<Rightarrow> ledger \<Rightarrow> ledger treasurer_res" where
  "pay_withdrawal R run user user_collateral run_collateral r own_verdict appeal remaining forfeited payout L =
     rbind (bounty_amount forfeited (rn_slash_bounty_bps r)) (\<lambda>bounty.
     rbind (if 0 < bounty
            then rbind (bounty_voters run user own_verdict appeal) (\<lambda>voters.
                   pay_bounty R run user run_collateral (rn_collateral_mint r) bounty voters remaining L)
            else Ok L) (\<lambda>L1.
       if 0 < payout then transfer R L1 run_collateral user_collateral run payout else Ok L1))"

definition participant_bond_finalize_withdraw ::
  "runtime \<Rightarrow> Clock \<Rightarrow> pubkey \<Rightarrow> pubkey \<Rightarrow> pubkey \<Rightarrow> pubkey \<Rightarrow> pubkey \<Rightarrow> (pubkey \<times> pubkey) option \<Rightarrow> pubkey list
   \<Rightarrow> treasury \<Rightarrow> treasury treasurer_res" where
  "participant_bond_finalize_withdraw R clock user user_collateral run run_collateral account appeal_verdict remaining s =
     rbind (load (tr_runs s) run) (\<lambda>r.
     rbind (wallet_account (tr_ledger s) user_collateral (rn_collateral_mint r) user) (\<lambda>_.
     rbind (vault_account R (tr_ledger s) run_collateral (rn_collateral_mint r) run) (\<lambda>_.
     rbind (coordinator_of r account s) (\<lambda>a.
     rbind (require_constraint (ca_version a = VERSION)) (\<lambda>_.
     rbind (load (tr_participants s) (run, user)) (\<lambda>p.
     rbind (case appeal_verdict of None \<Rightarrow> Ok None | Some k \<Rightarrow> rbind (load (tr_verdicts s) k) (\<lambda>v. Ok (Some v))) (\<lambda>appeal.
     rbind (tfail (pa_bond_withdraw_pending_amount p = 0) InvalidParameter) (\<lambda>_.
     rbind (i64_add (pa_bond_withdraw_requested_at p) (pa_bond_withdraw_delay_snapshot p)) (\<lambda>unlock.
     rbind (tfail (clk_unix_timestamp clock < unlock) WithdrawDelayNotElapsed) (\<lambda>_.
     rbind (settle_bond (client_slashed user (ca_state a)) p r) (\<lambda>(p', r', forfeited, payout).
     rbind (pay_withdrawal R run user user_collateral run_collateral r (tr_verdicts s (run, user)) appeal remaining
              forfeited payout (tr_ledger s)) (\<lambda>L.
       Ok (s\<lparr>tr_participants := (tr_participants s)((run, user) \<mapsto> p'),
            tr_runs := (tr_runs s)(run \<mapsto> r'), tr_ledger := L\<rparr>)))))))))))))"

section \<open>Configuration\<close>

definition run_bond_config_update :: "pubkey \<Rightarrow> pubkey \<Rightarrow> nat \<Rightarrow> int \<Rightarrow> treasury \<Rightarrow> treasury treasurer_res" where
  "run_bond_config_update authority run minimum delay s =
     rbind (load (tr_runs s) run) (\<lambda>r.
     rbind (require_constraint (rn_main_authority r = authority)) (\<lambda>_.
     rbind (tfail (delay < 0) InvalidParameter) (\<lambda>_.
     rbind (tfail (0 < minimum \<and> delay = 0) BondWindowRequired) (\<lambda>_.
       Ok (s\<lparr>tr_runs := (tr_runs s)(run \<mapsto> r\<lparr>rn_bond_minimum_amount := minimum, rn_bond_withdraw_delay_seconds := delay\<rparr>)\<rparr>)))))"

definition run_set_challenge_config :: "pubkey \<Rightarrow> pubkey \<Rightarrow> int \<Rightarrow> nat \<Rightarrow> int \<Rightarrow> treasury \<Rightarrow> treasury treasurer_res" where
  "run_set_challenge_config authority run challenge_window tie_breakers appeal_window s =
     rbind (load (tr_runs s) run) (\<lambda>r.
     rbind (require_constraint (rn_main_authority r = authority)) (\<lambda>_.
     rbind (tfail (challenge_window < 0 \<or> appeal_window < 0) InvalidParameter) (\<lambda>_.
       Ok (s\<lparr>tr_runs := (tr_runs s)(run \<mapsto> r\<lparr>rn_challenge_window_seconds := challenge_window,
              rn_tie_breaker_committee_size := tie_breakers, rn_appeal_window_seconds := appeal_window\<rparr>)\<rparr>))))"

definition run_set_slash_bounty :: "pubkey \<Rightarrow> pubkey \<Rightarrow> nat \<Rightarrow> treasury \<Rightarrow> treasury treasurer_res" where
  "run_set_slash_bounty authority run bps s =
     rbind (load (tr_runs s) run) (\<lambda>r.
     rbind (require_constraint (rn_main_authority r = authority)) (\<lambda>_.
     rbind (tfail (MAX_SLASH_BOUNTY_BPS < bps) InvalidParameter) (\<lambda>_.
       Ok (s\<lparr>tr_runs := (tr_runs s)(run \<mapsto> r\<lparr>rn_slash_bounty_bps := bps\<rparr>)\<rparr>))))"

text \<open>The constraints that tie a run to the accounts of its coordinator, and calls signed by the run.\<close>

definition coordinator_context :: "Run \<Rightarrow> pubkey \<Rightarrow> pubkey \<Rightarrow> treasury \<Rightarrow> CoordinatorAccount treasurer_res" where
  "coordinator_context r inst account s =
     rbind (require_constraint (rn_coordinator_instance r = inst)) (\<lambda>_.
     rbind (load (prog_instances (tr_program s)) inst) (\<lambda>_. coordinator_of r account s))"

definition cpi :: "coordinator_program program_res \<Rightarrow> treasury \<Rightarrow> treasury treasurer_res" where
  "cpi call s = rbind (map_err (\<lambda>e. ProgramError (FromCoordinator e)) call) (\<lambda>prog. Ok (s\<lparr>tr_program := prog\<rparr>))"

definition run_slash ::
  "runtime \<Rightarrow> pubkey \<Rightarrow> pubkey \<Rightarrow> pubkey \<Rightarrow> pubkey \<Rightarrow> SlashClientParams \<Rightarrow> treasury \<Rightarrow> treasury treasurer_res" where
  "run_slash R authority run inst account params s =
     rbind (load (tr_runs s) run) (\<lambda>r.
     rbind (require_constraint (rn_main_authority r = authority)) (\<lambda>_.
     rbind (coordinator_context r inst account s) (\<lambda>_.
       cpi (slash_client R run inst account params (tr_program s)) s)))"

record RunUpdateParams =
  ru_metadata :: "RunMetadata option"
  ru_config :: "CoordinatorConfig option"
  ru_model :: "model option"
  ru_progress :: "CoordinatorProgress option"
  ru_epoch_earning_rate_total_shared :: "nat option"
  ru_epoch_slashing_rate_per_client :: "nat option"
  ru_paused :: "bool option"
  ru_client_version :: "bytes option"

definition run_update ::
  "externs \<Rightarrow> runtime \<Rightarrow> Clock \<Rightarrow> pubkey \<Rightarrow> pubkey \<Rightarrow> pubkey \<Rightarrow> pubkey \<Rightarrow> RunUpdateParams \<Rightarrow> treasury \<Rightarrow> treasury treasurer_res" where
  "run_update X R clock authority run inst account params s =
     rbind (load (tr_runs s) run) (\<lambda>r.
     rbind (require_constraint (rn_main_authority r = authority)) (\<lambda>_.
     rbind (coordinator_context r inst account s) (\<lambda>_.
     rbind (if ru_metadata params \<noteq> None \<or> ru_config params \<noteq> None \<or> ru_model params \<noteq> None \<or> ru_progress params \<noteq> None
            then cpi (program_update R run inst account (ru_metadata params) (ru_config params) (ru_model params)
                        (ru_progress params) (tr_program s)) s
            else Ok s) (\<lambda>s1.
     rbind (if ru_epoch_earning_rate_total_shared params \<noteq> None \<or> ru_epoch_slashing_rate_per_client params \<noteq> None
            then cpi (program_set_future_epoch_rates R run inst account (ru_epoch_earning_rate_total_shared params)
                        (ru_epoch_slashing_rate_per_client params) (tr_program s1)) s1
            else Ok s1) (\<lambda>s2.
     rbind (case ru_paused params of
              Some paused \<Rightarrow> cpi (program_set_paused X R clock run inst account paused (tr_program s2)) s2
            | None \<Rightarrow> Ok s2) (\<lambda>s3.
       case ru_client_version params of
         Some version \<Rightarrow> cpi (update_client_version R run inst account version (tr_program s3)) s3
       | None \<Rightarrow> Ok s3))))))"

section \<open>Verdicts\<close>

text \<open>\<open>div_ceil\<close> of two thirds of a committee.\<close>

definition two_thirds :: "nat \<Rightarrow> nat treasurer_res" where
  "two_thirds n = rbind (u_mul 64 2 n) (\<lambda>x. Ok ((x + 2) div 3))"

definition position_of :: "pubkey \<Rightarrow> Coordinator \<Rightarrow> nat option" where
  "position_of k c = find_position (\<lambda>x. signer (client_id x) = k) (es_clients (c_epoch_state c))"

definition check_target :: "pubkey \<Rightarrow> nat \<Rightarrow> Coordinator \<Rightarrow> unit treasurer_res" where
  "check_target target target_index c =
     rbind (tok_or TargetMismatch (slice_get (es_clients (c_epoch_state c)) target_index)) (\<lambda>client.
       tfail (signer (client_id client) \<noteq> target) TargetMismatch)"

text \<open>The seat of a verifier in the current round, with the quorum of its committee.\<close>

definition verifier_seat ::
  "externs \<Rightarrow> Coordinator \<Rightarrow> nat \<Rightarrow> pubkey \<Rightarrow> pubkey \<Rightarrow> nat \<Rightarrow> (nat \<times> nat \<times> nat) treasurer_res" where
  "verifier_seat X c tie_breaker_size verifier target target_index =
     rbind (tok_or VerifierNotInEpoch (position_of verifier c)) (\<lambda>verifier_index.
     rbind (map_err (\<lambda>_. ProgramError (OfTreasurer VerifierNotAssigned))
              (cs_from_coordinator_with_tie_breakers X c 0 tie_breaker_size)) (\<lambda>selection.
     rbind (get_committee X selection verifier_index) (\<lambda>seat.
     rbind (tfail (cp_committee seat \<noteq> Verifier) VerifierNotAssigned) (\<lambda>_.
     rbind (check_target target target_index c) (\<lambda>_.
     rbind (tfail (get_num_verifier_nodes selection < MIN_VERIFIER_COMMITTEE) VerifierCommitteeTooSmall) (\<lambda>_.
     rbind (two_thirds (get_num_verifier_nodes selection)) (\<lambda>x.
       let quorum = max x 2 in
       rbind (tfail (MAX_VERDICT_VOTERS < quorum) QuorumExceedsVoterCapacity) (\<lambda>_.
       rbind (tok_or VerifierNotAssigned (current_round c)) (\<lambda>r.
         Ok (pr_epoch (c_progress c), rd_height r, quorum))))))))))"

record VerdictParams =
  vp_target :: pubkey
  vp_target_index :: nat
  vp_batch_start :: nat
  vp_batch_end :: nat
  vp_committed_hash :: bytes
  vp_replayed_hash :: bytes

definition same_evidence :: "VerdictParams \<Rightarrow> AuditVerdict \<Rightarrow> bool" where
  "same_evidence params v \<longleftrightarrow> av_committed_hash v = vp_committed_hash params \<and> av_replayed_hash v = vp_replayed_hash params
     \<and> av_target_index v = vp_target_index params \<and> av_batch_start v = vp_batch_start params
     \<and> av_batch_end v = vp_batch_end params"

text \<open>The account taken over for the current round, if the last dispute is finished.\<close>

definition open_verdict ::
  "runtime \<Rightarrow> pubkey \<Rightarrow> pubkey \<Rightarrow> nat \<Rightarrow> nat \<Rightarrow> AuditVerdict \<Rightarrow> AuditVerdict treasurer_res" where
  "open_verdict R run target epoch height v =
     (if av_run v = Pubkey_default then
        Ok (reset_for_round epoch height
             (v\<lparr>av_bump := snd (find_audit_verdict R run target), av_run := run, av_target := target\<rparr>))
      else if av_epoch v \<noteq> epoch \<or> av_round_height v \<noteq> height then
        rbind (tfail (\<not> is_settled v) PreviousVerdictUnsettled) (\<lambda>_. Ok (reset_for_round epoch height v))
      else Ok v)"

definition cast_vote :: "Clock \<Rightarrow> int \<Rightarrow> nat \<Rightarrow> pubkey \<Rightarrow> VerdictParams \<Rightarrow> AuditVerdict \<Rightarrow> (AuditVerdict \<times> bool) treasurer_res" where
  "cast_vote clock challenge_window quorum verifier params v =
     rbind (tfail (av_status v \<noteq> Voting) VerdictAlreadyResolved) (\<lambda>_.
     rbind (tfail (verifier \<in> set (av_voters v)) DuplicateVerdict) (\<lambda>_.
     rbind (tfail (MAX_VERDICT_VOTERS \<le> length (av_voters v)) VerdictVotersFull) (\<lambda>_.
     rbind (if av_voters v = []
            then Ok (v\<lparr>av_committed_hash := vp_committed_hash params, av_replayed_hash := vp_replayed_hash params,
                       av_target_index := vp_target_index params, av_batch_start := vp_batch_start params,
                       av_batch_end := vp_batch_end params\<rparr>)
            else rbind (tfail (\<not> same_evidence params v) EvidenceMismatch) (\<lambda>_. Ok v)) (\<lambda>v1.
     rbind (u_add 16 (av_verdict_count v1) 1) (\<lambda>count.
       let v2 = v1\<lparr>av_voters := av_voters v1 @ [verifier], av_verdict_count := count\<rparr> in
       if quorum \<le> count then
         if 0 < challenge_window
         then Ok (v2\<lparr>av_status := SlashPending, av_pending_since_unix := clk_unix_timestamp clock\<rparr>, False)
         else Ok (v2\<lparr>av_status := Upheld\<rparr>, True)
       else Ok (v2, False))))))"

definition set_verdict :: "pubkey \<times> pubkey \<Rightarrow> AuditVerdict \<Rightarrow> treasury \<Rightarrow> treasury" where
  "set_verdict k v s = s\<lparr>tr_verdicts := (tr_verdicts s)(k \<mapsto> v)\<rparr>"

definition slash_params :: "nat \<Rightarrow> AuditVerdict \<Rightarrow> SlashClientParams" where
  "slash_params index v = \<lparr>sl_index = index, sl_batch_start = av_batch_start v, sl_batch_end = av_batch_end v,
     sl_committed_hash = av_committed_hash v, sl_replayed_hash = av_replayed_hash v\<rparr>"

definition run_submit_audit_verdict ::
  "externs \<Rightarrow> runtime \<Rightarrow> Clock \<Rightarrow> pubkey \<Rightarrow> pubkey \<Rightarrow> pubkey \<Rightarrow> pubkey \<Rightarrow> VerdictParams \<Rightarrow> treasury \<Rightarrow> treasury treasurer_res" where
  "run_submit_audit_verdict X R clock verifier run inst account params s =
     rbind (load (tr_runs s) run) (\<lambda>r.
     rbind (load (tr_participants s) (run, verifier)) (\<lambda>p.
     rbind (coordinator_context r inst account s) (\<lambda>a.
       let k = (run, vp_target params);
           v = (case tr_verdicts s k of None \<Rightarrow> AuditVerdict_zeroed | Some v \<Rightarrow> v) in
       rbind (tfail (pa_bond_amount p < rn_bond_minimum_amount r) BondBelowMinimum) (\<lambda>_.
       rbind (verifier_seat X (is_coordinator (ca_state a)) (rn_tie_breaker_committee_size r) verifier
                (vp_target params) (vp_target_index params)) (\<lambda>(epoch, height, quorum).
       rbind (open_verdict R run (vp_target params) epoch height v) (\<lambda>v1.
       rbind (cast_vote clock (rn_challenge_window_seconds r) quorum verifier params v1) (\<lambda>(v2, should_slash).
         if should_slash
         then cpi (slash_client R run inst account (slash_params (vp_target_index params) v2) (tr_program s)) (set_verdict k v2 s)
         else Ok (set_verdict k v2 s))))))))"

definition run_open_challenge :: "Clock \<Rightarrow> pubkey \<Rightarrow> pubkey \<Rightarrow> treasury \<Rightarrow> treasury treasurer_res" where
  "run_open_challenge clock challenger run s =
     rbind (load (tr_runs s) run) (\<lambda>r.
     rbind (load (tr_participants s) (run, challenger)) (\<lambda>p.
     rbind (load (tr_verdicts s) (run, challenger)) (\<lambda>v.
     rbind (tfail (pa_bond_amount p < rn_bond_minimum_amount r) BondBelowMinimum) (\<lambda>_.
     rbind (tfail (av_status v \<noteq> SlashPending) VerdictNotPending) (\<lambda>_.
     rbind (i64_add (av_pending_since_unix v) (rn_challenge_window_seconds r)) (\<lambda>closes.
     rbind (tfail (closes \<le> clk_unix_timestamp clock) ChallengeWindowClosed) (\<lambda>_.
       Ok (set_verdict (run, challenger) (v\<lparr>av_status := Challenged, av_challenged_since_unix := clk_unix_timestamp clock,
         av_challenger := challenger, av_overturn_count := 0, av_uphold_count := 0, av_appeal_voters := []\<rparr>) s))))))))"

definition check_windows :: "Clock \<Rightarrow> Run \<Rightarrow> AuditVerdict \<Rightarrow> unit treasurer_res" where
  "check_windows clock r v = (case av_status v of
       SlashPending \<Rightarrow>
         rbind (i64_add (av_pending_since_unix v) (rn_challenge_window_seconds r)) (\<lambda>closes.
           tfail (clk_unix_timestamp clock < closes) ChallengeWindowOpen)
     | Challenged \<Rightarrow>
         if rn_appeal_window_seconds r = 0 then Err (ProgramError (OfTreasurer AppealWindowOpen))
         else rbind (i64_add (av_challenged_since_unix v) (rn_appeal_window_seconds r)) (\<lambda>closes.
                tfail (clk_unix_timestamp clock < closes) AppealWindowOpen)
     | _ \<Rightarrow> Err (ProgramError (OfTreasurer VerdictNotPending)))"

definition run_finalize_slash ::
  "runtime \<Rightarrow> Clock \<Rightarrow> pubkey \<Rightarrow> pubkey \<Rightarrow> pubkey \<Rightarrow> pubkey \<Rightarrow> nat \<Rightarrow> treasury \<Rightarrow> treasury treasurer_res" where
  "run_finalize_slash R clock run inst account target target_index s =
     rbind (load (tr_runs s) run) (\<lambda>r.
     rbind (coordinator_context r inst account s) (\<lambda>a.
     rbind (load (tr_verdicts s) (run, target)) (\<lambda>v.
     rbind (check_windows clock r v) (\<lambda>_.
     rbind (check_target (av_target v) target_index (is_coordinator (ca_state a))) (\<lambda>_.
       cpi (slash_client R run inst account (slash_params target_index v) (tr_program s))
         (set_verdict (run, target) (v\<lparr>av_status := Upheld\<rparr>) s))))))"

text \<open>A vote of a tie breaker.\<close>

definition appeal_quorum ::
  "externs \<Rightarrow> Coordinator \<Rightarrow> nat \<Rightarrow> pubkey \<Rightarrow> pubkey \<Rightarrow> nat \<Rightarrow> nat treasurer_res" where
  "appeal_quorum X c tie_breaker_size appellate target target_index =
     rbind (tok_or VerifierNotInEpoch (position_of appellate c)) (\<lambda>appellate_index.
     rbind (map_err (\<lambda>_. ProgramError (OfTreasurer NotTieBreaker))
              (cs_from_coordinator_with_tie_breakers X c 0 tie_breaker_size)) (\<lambda>selection.
     rbind (get_committee X selection appellate_index) (\<lambda>seat.
     rbind (tfail (cp_committee seat \<noteq> TieBreaker) NotTieBreaker) (\<lambda>_.
     rbind (check_target target target_index c) (\<lambda>_.
     rbind (two_thirds (get_num_tie_breaker_nodes selection)) (\<lambda>x. Ok (max x 1)))))))"

definition cast_appeal :: "nat \<Rightarrow> pubkey \<Rightarrow> pubkey \<Rightarrow> bool \<Rightarrow> AuditVerdict \<Rightarrow> (AuditVerdict \<times> bool) treasurer_res" where
  "cast_appeal quorum appellate target overturn v =
     rbind (tfail (av_target v \<noteq> target) TargetMismatch) (\<lambda>_.
     rbind (tfail (av_status v \<noteq> Challenged) VerdictNotChallenged) (\<lambda>_.
     rbind (tfail (appellate \<in> set (av_appeal_voters v)) DuplicateAppealVerdict) (\<lambda>_.
     rbind (tfail (appellate \<in> set (av_voters v)) AppellateVotedOnVerdict) (\<lambda>_.
     rbind (tfail (MAX_APPEAL_VOTERS \<le> length (av_appeal_voters v)) AppealVotersFull) (\<lambda>_.
       let v1 = v\<lparr>av_appeal_voters := av_appeal_voters v @ [appellate]\<rparr> in
       rbind (if overturn then rbind (u_add 16 (av_overturn_count v1) 1) (\<lambda>n. Ok (v1\<lparr>av_overturn_count := n\<rparr>))
              else rbind (u_add 16 (av_uphold_count v1) 1) (\<lambda>n. Ok (v1\<lparr>av_uphold_count := n\<rparr>))) (\<lambda>v2.
         if quorum \<le> av_overturn_count v2 then Ok (v2\<lparr>av_status := Overturned\<rparr>, False)
         else if quorum \<le> av_uphold_count v2 then Ok (v2\<lparr>av_status := Upheld\<rparr>, True)
         else Ok (v2, False)))))))"

definition run_submit_appeal_verdict ::
  "externs \<Rightarrow> runtime \<Rightarrow> pubkey \<Rightarrow> pubkey \<Rightarrow> pubkey \<Rightarrow> pubkey \<Rightarrow> pubkey \<Rightarrow> nat \<Rightarrow> bool \<Rightarrow> treasury \<Rightarrow> treasury treasurer_res" where
  "run_submit_appeal_verdict X R appellate run inst account target target_index overturn s =
     rbind (load (tr_runs s) run) (\<lambda>r.
     rbind (load (tr_participants s) (run, appellate)) (\<lambda>p.
     rbind (coordinator_context r inst account s) (\<lambda>a.
     rbind (load (tr_verdicts s) (run, target)) (\<lambda>v.
     rbind (tfail (pa_bond_amount p < rn_bond_minimum_amount r) BondBelowMinimum) (\<lambda>_.
     rbind (appeal_quorum X (is_coordinator (ca_state a)) (rn_tie_breaker_committee_size r) appellate target target_index) (\<lambda>quorum.
     rbind (cast_appeal quorum appellate target overturn v) (\<lambda>(v1, should_slash).
       if should_slash
       then cpi (slash_client R run inst account (slash_params target_index v1) (tr_program s)) (set_verdict (run, target) v1 s)
       else Ok (set_verdict (run, target) v1 s))))))))"

definition losing_verifier :: "nat \<Rightarrow> AuditVerdict \<Rightarrow> pubkey treasurer_res" where
  "losing_verifier voter_position v =
     rbind (tfail (av_status v \<noteq> Overturned) VerdictNotOverturned) (\<lambda>_.
     rbind (tfail (length (av_voters v) \<le> av_settled_count v) AllLosersSettled) (\<lambda>_.
     rbind (tfail (voter_position \<noteq> av_settled_count v) InvalidParameter) (\<lambda>_.
       slice_index (av_voters v) (av_settled_count v))))"

definition slashable_index :: "pubkey \<Rightarrow> Coordinator \<Rightarrow> nat treasurer_res" where
  "slashable_index loser c =
     (case position_of loser c of
        Some i \<Rightarrow>
          rbind (slice_index (es_clients (c_epoch_state c)) i) (\<lambda>client.
            if client_state client = Healthy \<or> client_state client = Dropped then Ok i
            else Err (ProgramError (OfTreasurer LoserNotSlashableYet)))
      | None \<Rightarrow> Err (ProgramError (OfTreasurer LoserNotSlashableYet)))"

definition run_slash_losing_verifier ::
  "runtime \<Rightarrow> pubkey \<Rightarrow> pubkey \<Rightarrow> pubkey \<Rightarrow> pubkey \<Rightarrow> nat \<Rightarrow> treasury \<Rightarrow> treasury treasurer_res" where
  "run_slash_losing_verifier R run inst account target voter_position s =
     rbind (load (tr_runs s) run) (\<lambda>r.
     rbind (coordinator_context r inst account s) (\<lambda>a.
     rbind (load (tr_verdicts s) (run, target)) (\<lambda>v.
     rbind (losing_verifier voter_position v) (\<lambda>loser.
     rbind (slashable_index loser (is_coordinator (ca_state a))) (\<lambda>index.
     rbind (u_add 16 (av_settled_count v) 1) (\<lambda>n.
       cpi (slash_client R run inst account (slash_params index v) (tr_program s))
         (set_verdict (run, target) (v\<lparr>av_settled_count := n\<rparr>) s)))))))"

end
