(* ===== verification/Treasurer_Props.thy ===== *)
theory Treasurer_Props
  imports Treasurer
begin

text \<open>
  The treasury as a transition system: every instruction of the treasurer, and whatever the other
  programs and token holders do in between. The books of bonds and claims, what backs the bonds, what a
  claim rests on, and the life of a verdict.
\<close>

section \<open>Instructions that succeed\<close>

lemma tfail_eq_Ok [simp]: "tfail b e = Ok u \<longleftrightarrow> \<not> b"
  by (simp add: tfail_def)

lemma tok_or_eq_Ok [simp]: "tok_or e x = Ok a \<longleftrightarrow> x = Some a"
  by (simp add: tok_or_def ok_or_def split: option.splits)

lemma coordinator_of_eq_Ok [simp]:
  "coordinator_of r account s = Ok a \<longleftrightarrow>
     rn_coordinator_account r = account \<and> prog_accounts (tr_program s) account = Some (Initialized a)"
  by (auto simp: coordinator_of_def)

lemma coordinator_context_eq_Ok [simp]:
  "coordinator_context r inst account s = Ok a \<longleftrightarrow> rn_coordinator_instance r = inst
     \<and> (\<exists>i. prog_instances (tr_program s) inst = Some i) \<and> rn_coordinator_account r = account
     \<and> prog_accounts (tr_program s) account = Some (Initialized a)"
  by (auto simp: coordinator_context_def)

lemma cpi_eq_Ok [simp]: "cpi call s = Ok s' \<longleftrightarrow> (\<exists>prog. call = Ok prog \<and> s' = s\<lparr>tr_program := prog\<rparr>)"
  by (auto simp: cpi_def)

lemma set_verdict_fields [simp]:
  "tr_runs (set_verdict k v s) = tr_runs s" "tr_participants (set_verdict k v s) = tr_participants s"
  "tr_program (set_verdict k v s) = tr_program s" "tr_auths (set_verdict k v s) = tr_auths s"
  "tr_ledger (set_verdict k v s) = tr_ledger s" "tr_verdicts (set_verdict k v s) = (tr_verdicts s)(k \<mapsto> v)"
  by (simp_all add: set_verdict_def)

lemma run_create_Ok:
  assumes "run_create R sz mint inst account index run_id version main join s = Ok s'"
  obtains run r L prog where "tr_runs s run = None" "init_associated_token R (tr_ledger s) mint run = (Ok L :: ledger treasurer_res)"
    "init_coordinator R sz account run join run_id version (tr_program s) = Ok prog"
    "fst (find_coordinator_instance R run_id) = inst"
    "rn_coordinator_account r = account" "rn_coordinator_instance r = inst" "rn_collateral_mint r = mint"
    "rn_total_bonded_amount r = 0" "rn_total_claimed_earned_points r = 0" "rn_total_claimed_collateral_amount r = 0" "rn_slash_bounty_bps r = 0"
    "s' = s\<lparr>tr_runs := (tr_runs s)(run \<mapsto> r), tr_program := prog, tr_ledger := L\<rparr>"
proof -
  obtain run bump where k: "find_run R index = (run, bump)"
    by fastforce
  define r where "r = \<lparr>rn_bump = bump, rn_index = index, rn_main_authority = main, rn_join_authority = join,
    rn_coordinator_account = account, rn_coordinator_instance = inst, rn_collateral_mint = mint,
    rn_total_claimed_collateral_amount = 0, rn_total_claimed_earned_points = 0, rn_total_bonded_amount = 0,
    rn_bond_minimum_amount = 0, rn_bond_withdraw_delay_seconds = 0, rn_slash_bounty_bps = 0,
    rn_challenge_window_seconds = 0, rn_tie_breaker_committee_size = 0, rn_appeal_window_seconds = 0\<rparr>"
  obtain L prog where "tr_runs s run = None" "init_associated_token R (tr_ledger s) mint run = (Ok L :: ledger treasurer_res)"
      "init_coordinator R sz account run join run_id version (tr_program s) = Ok prog"
      "fst (find_coordinator_instance R run_id) = inst"
      "s' = s\<lparr>tr_runs := (tr_runs s)(run \<mapsto> r), tr_program := prog, tr_ledger := L\<rparr>"
    using assms unfolding run_create_def k Let_def prod.case r_def [symmetric] by auto
  then show thesis
    by (intro that [of run L prog r]) (simp_all add: r_def)
qed

lemma participant_create_Ok:
  assumes "participant_create R user run s = Ok s'"
  obtains r p where "tr_runs s run = Some r" "tr_participants s (run, user) = None"
    "pa_bond_amount p = 0" "pa_claimed_earned_points p = 0" "pa_claimed_collateral_amount p = 0"
    "pa_bond_withdraw_pending_amount p = 0"
    "s' = s\<lparr>tr_participants := (tr_participants s)((run, user) \<mapsto> p)\<rparr>"
proof -
  define p where "p = \<lparr>pa_bump = snd (find_participant R run user), pa_claimed_collateral_amount = 0, pa_claimed_earned_points = 0,
    pa_bond_amount = 0, pa_bond_withdraw_pending_amount = 0, pa_bond_withdraw_requested_at = 0,
    pa_bond_settled_slashed_points = 0, pa_bond_withdraw_delay_snapshot = 0\<rparr>"
  obtain r where "tr_runs s run = Some r" "tr_participants s (run, user) = None"
      "s' = s\<lparr>tr_participants := (tr_participants s)((run, user) \<mapsto> p)\<rparr>"
    using assms unfolding participant_create_def p_def [symmetric] by auto
  then show thesis
    by (intro that [of r p]) (simp_all add: p_def)
qed

lemma participant_bond_deposit_Ok:
  assumes "participant_bond_deposit R user wallet run vault n s = Ok s'"
  obtains r p t L where "tr_runs s run = Some r" "tr_participants s (run, user) = Some p"
    "tr_ledger s wallet = Some t" "ta_owner t = user"
    "vault = associated_token R (rn_collateral_mint r) run"
    "token_transfer R (tr_ledger s) wallet vault user n = Some L"
    "s' = s\<lparr>tr_participants := (tr_participants s)((run, user) \<mapsto> p\<lparr>pa_bond_amount := pa_bond_amount p + n\<rparr>),
       tr_runs := (tr_runs s)(run \<mapsto> r\<lparr>rn_total_bonded_amount := rn_total_bonded_amount r + n\<rparr>), tr_ledger := L\<rparr>"
  using assms by (auto simp: participant_bond_deposit_def)

lemma participant_bond_request_withdraw_Ok:
  assumes "participant_bond_request_withdraw clock user run n s = Ok s'"
  obtains r p where "tr_runs s run = Some r" "tr_participants s (run, user) = Some p" "0 < n"
    "pa_bond_withdraw_pending_amount p + n \<le> pa_bond_amount p"
    "s' = s\<lparr>tr_participants := (tr_participants s)((run, user) \<mapsto>
       p\<lparr>pa_bond_withdraw_pending_amount := pa_bond_withdraw_pending_amount p + n,
         pa_bond_withdraw_requested_at := clk_unix_timestamp clock,
         pa_bond_withdraw_delay_snapshot := rn_bond_withdraw_delay_seconds r\<rparr>)\<rparr>"
  using assms by (auto simp: participant_bond_request_withdraw_def not_less)

lemma participant_claim_Ok:
  assumes "participant_claim R user wallet run vault account n s = Ok s'"
  obtains r p a L where "tr_runs s run = Some r" "tr_participants s (run, user) = Some p"
    "rn_coordinator_account r = account" "prog_accounts (tr_program s) account = Some (Initialized a)"
    "rn_bond_minimum_amount r \<le> pa_bond_amount p"
    "pa_claimed_earned_points p + n \<le> client_earned user (ca_state a)"
    "vault = associated_token R (rn_collateral_mint r) run"
    "token_transfer R (tr_ledger s) vault wallet run n = Some L"
    "s' = s\<lparr>tr_participants := (tr_participants s)((run, user) \<mapsto>
         p\<lparr>pa_claimed_collateral_amount := pa_claimed_collateral_amount p + n,
           pa_claimed_earned_points := pa_claimed_earned_points p + n\<rparr>),
       tr_runs := (tr_runs s)(run \<mapsto> r\<lparr>rn_total_claimed_collateral_amount := rn_total_claimed_collateral_amount r + n,
         rn_total_claimed_earned_points := rn_total_claimed_earned_points r + n\<rparr>), tr_ledger := L\<rparr>"
  using assms by (auto simp: participant_claim_def not_less)

lemma settle_bond_Ok:
  assumes "settle_bond slashed p r = Ok (p', r', f, y)"
  shows "f = min (slashed - pa_bond_settled_slashed_points p) (pa_bond_amount p)"
    "y = min (pa_bond_withdraw_pending_amount p) (pa_bond_amount p - f)"
    "p' = p\<lparr>pa_bond_settled_slashed_points := pa_bond_settled_slashed_points p + f, pa_bond_amount := pa_bond_amount p - f - y,
       pa_bond_withdraw_pending_amount := 0, pa_bond_withdraw_requested_at := 0\<rparr>"
    "r' = r\<lparr>rn_total_bonded_amount := rn_total_bonded_amount r - (f + y)\<rparr>"
    "f + y \<le> rn_total_bonded_amount r" "f + y < 2 ^ 64" "f + y \<le> pa_bond_amount p"
proof -
  define f0 where "f0 = min (slashed - pa_bond_settled_slashed_points p) (pa_bond_amount p)"
  define y0 where "y0 = min (pa_bond_withdraw_pending_amount p) (pa_bond_amount p - f0)"
  have le: "f0 \<le> pa_bond_amount p" "y0 \<le> pa_bond_amount p - f0"
    by (simp_all add: f0_def y0_def)
  have "u_sub (pa_bond_amount p) f0 = (Ok (pa_bond_amount p - f0) :: nat treasurer_res)"
      "u_sub (pa_bond_amount p - f0) y0 = (Ok (pa_bond_amount p - f0 - y0) :: nat treasurer_res)"
    using le by (simp_all only: u_sub_def if_True)
  then have h: "f = f0" "y = y0"
    "p' = p\<lparr>pa_bond_settled_slashed_points := pa_bond_settled_slashed_points p + f0, pa_bond_amount := pa_bond_amount p - f0 - y0,
       pa_bond_withdraw_pending_amount := 0, pa_bond_withdraw_requested_at := 0\<rparr>"
    "r' = r\<lparr>rn_total_bonded_amount := rn_total_bonded_amount r - (f0 + y0)\<rparr>"
    "f0 + y0 \<le> rn_total_bonded_amount r" "f0 + y0 < 2 ^ 64"
    using assms unfolding settle_bond_def Let_def f0_def [symmetric] rbind.simps y0_def [symmetric]
    by (auto simp: y0_def [symmetric])
  show "f = min (slashed - pa_bond_settled_slashed_points p) (pa_bond_amount p)"
    by (simp only: h(1) f0_def)
  show "y = min (pa_bond_withdraw_pending_amount p) (pa_bond_amount p - f)"
    by (simp only: h(1,2) y0_def)
  show "p' = p\<lparr>pa_bond_settled_slashed_points := pa_bond_settled_slashed_points p + f, pa_bond_amount := pa_bond_amount p - f - y,
       pa_bond_withdraw_pending_amount := 0, pa_bond_withdraw_requested_at := 0\<rparr>"
    "r' = r\<lparr>rn_total_bonded_amount := rn_total_bonded_amount r - (f + y)\<rparr>"
    "f + y \<le> rn_total_bonded_amount r" "f + y < 2 ^ 64"
    unfolding h(1,2) by (rule h(3) h(4) h(5) h(6))+
  show "f + y \<le> pa_bond_amount p"
    unfolding h(1,2) using le by linarith
qed

lemma bounty_amount_Ok:
  assumes "bounty_amount f bps = Ok b" "bps \<le> 10000" "f < 2 ^ 64"
  shows "b = f * bps div 10000" "b \<le> f"
proof -
  have "f * bps \<le> f * 10000"
    using assms(2) by (intro mult_le_mono2)
  then have le: "f * bps div 10000 \<le> f"
    using div_le_mono [of "f * bps" "f * 10000" 10000] by simp
  then show "b = f * bps div 10000" "b \<le> f"
    using assms(1,3) by (auto simp: bounty_amount_def u_cast_def split: if_splits)
qed

text \<open>What leaves an account, with every other account no worse off and no owner changed.\<close>

definition pays_at_most :: "ledger \<Rightarrow> ledger \<Rightarrow> pubkey \<Rightarrow> nat \<Rightarrow> bool" where
  "pays_at_most L L' v n \<longleftrightarrow> balance L v \<le> balance L' v + n \<and> (\<forall>k. k \<noteq> v \<longrightarrow> balance L k \<le> balance L' k)
     \<and> (\<forall>k. map_option ta_owner (L' k) = map_option ta_owner (L k))"

lemma pays_refl [simp]: "pays_at_most L L v n"
  by (simp add: pays_at_most_def)

lemma pays_trans: "pays_at_most L L1 v n \<Longrightarrow> pays_at_most L1 L2 v m \<Longrightarrow> pays_at_most L L2 v (n + m)"
  by (force simp: pays_at_most_def intro: order_trans)

lemma pays_mono: "pays_at_most L L' v n \<Longrightarrow> n \<le> m \<Longrightarrow> pays_at_most L L' v m"
  by (force simp: pays_at_most_def)

lemma transfer_pays:
  assumes "token_laws R" "token_transfer R L src dst auth n = Some L'"
  shows "pays_at_most L L' src n"
proof -
  have "balance L k \<le> balance L' k" if "k \<noteq> src" for k
    using transfer_moves(2,3,5) [OF assms] that by (cases "k = dst"; cases "src = dst") auto
  then show ?thesis
    using transfer_moves(6,9) [OF assms] by (simp add: pays_at_most_def)
qed

lemma pay_voters_pays:
  "token_laws R \<Longrightarrow> pay_voters R run vault mint share vs rs L = Ok L' \<Longrightarrow> pays_at_most L L' vault (share * length vs)"
proof (induction R run vault mint share vs rs L rule: pay_voters.induct)
  case (2 R run vault mint share v vs remaining L)
  show ?case
  proof (cases "share = 0 \<or> remaining = []")
    case True
    then have "L' = L" using "2.prems"(2) by (auto split: if_splits)
    then show ?thesis by simp
  next
    case False
    then obtain r rs where rs: "remaining = r # rs" "share \<noteq> 0"
      by (cases remaining) auto
    then obtain L1 where L1: "token_transfer R L vault r run share = Some L1" "pay_voters R run vault mint share vs rs L1 = Ok L'"
      using "2.prems"(2) by auto
    have "pays_at_most L1 L' vault (share * length vs)"
      using 2 rs L1 by force
    then show ?thesis
      using pays_trans [OF transfer_pays [OF "2.prems"(1) L1(1)]] by simp
  qed
qed simp

lemma pay_bounty_pays:
  assumes "token_laws R" "pay_bounty R run user vault mint bounty voters rs L = Ok L'"
  shows "pays_at_most L L' vault bounty"
proof (cases "voters = []")
  case True
  then show ?thesis
    using assms by (auto simp: pay_bounty_def intro: transfer_pays)
next
  case False
  then have "pays_at_most L L' vault (bounty div length voters * length voters)"
    using assms pay_voters_pays by (auto simp: pay_bounty_def)
  then show ?thesis
    by (rule pays_mono) simp
qed

lemma pay_withdrawal_pays:
  assumes "token_laws R" "pay_withdrawal R run user wallet vault r own appeal rs f y L = Ok L'"
    "rn_slash_bounty_bps r \<le> 10000" "f < 2 ^ 64"
  shows "pays_at_most L L' vault (f + y)"
proof -
  obtain b L1 where b: "bounty_amount f (rn_slash_bounty_bps r) = (Ok b :: nat treasurer_res)"
      "(if 0 < b then rbind (bounty_voters run user own appeal) (\<lambda>voters.
          pay_bounty R run user vault (rn_collateral_mint r) b voters rs L) else Ok L) = Ok L1"
      "(if 0 < y then transfer R L1 vault wallet run y else Ok L1) = (Ok L' :: ledger treasurer_res)"
    using assms(2) by (auto simp: pay_withdrawal_def)
  have "pays_at_most L L1 vault b"
    using b(2) by (auto intro: pay_bounty_pays [OF assms(1)] split: if_splits)
  then have "pays_at_most L L1 vault f"
    using bounty_amount_Ok(2) [OF b(1) assms(3,4)] by (rule pays_mono)
  moreover have "pays_at_most L1 L' vault y"
    using b(3) by (auto intro: transfer_pays [OF assms(1)] split: if_splits)
  ultimately show ?thesis
    by (rule pays_trans)
qed

lemma participant_bond_finalize_withdraw_Ok:
  assumes "participant_bond_finalize_withdraw R clock user wallet run vault account appeal rs s = Ok s'"
  obtains r p a ap p' r' f y L where "tr_runs s run = Some r" "tr_participants s (run, user) = Some p"
    "rn_coordinator_account r = account" "prog_accounts (tr_program s) account = Some (Initialized a)"
    "vault = associated_token R (rn_collateral_mint r) run"
    "pa_bond_withdraw_pending_amount p \<noteq> 0"
    "pa_bond_withdraw_requested_at p + pa_bond_withdraw_delay_snapshot p \<le> clk_unix_timestamp clock"
    "settle_bond (client_slashed user (ca_state a)) p r = Ok (p', r', f, y)"
    "pay_withdrawal R run user wallet vault r (tr_verdicts s (run, user)) ap rs f y (tr_ledger s) = Ok L"
    "s' = s\<lparr>tr_participants := (tr_participants s)((run, user) \<mapsto> p'), tr_runs := (tr_runs s)(run \<mapsto> r'), tr_ledger := L\<rparr>"
  using assms by (auto simp: participant_bond_finalize_withdraw_def not_less)

section \<open>The transition system\<close>

definition vault_of :: "runtime \<Rightarrow> pubkey \<Rightarrow> Run \<Rightarrow> pubkey" where
  "vault_of R k r = associated_token R (rn_collateral_mint r) k"

text \<open>
  One instruction with arbitrary accounts and parameters. The address of a run is derived by the program
  and has no private key, so it never signs a transaction: the premise \<open>tr_runs s x = None\<close> of the steps
  somebody signs. In between, the coordinator and authorizer programs run for others, and token accounts
  change, except that only the treasurer can take from a vault or change its owner.
\<close>

inductive treasury_step :: "externs \<Rightarrow> runtime \<Rightarrow> nat \<Rightarrow> treasury \<Rightarrow> treasury \<Rightarrow> bool" for X R sz where
  ts_run_create: "run_create R sz mint inst account index run_id version main join s = Ok s' \<Longrightarrow> treasury_step X R sz s s'"
| ts_create: "tr_runs s user = None \<Longrightarrow> participant_create R user run s = Ok s' \<Longrightarrow> treasury_step X R sz s s'"
| ts_authorize: "participant_authorize_join R clock user run s = Ok s' \<Longrightarrow> treasury_step X R sz s s'"
| ts_deposit: "tr_runs s user = None \<Longrightarrow> participant_bond_deposit R user wallet run vault n s = Ok s' \<Longrightarrow> treasury_step X R sz s s'"
| ts_request: "tr_runs s user = None \<Longrightarrow> participant_bond_request_withdraw clock user run n s = Ok s' \<Longrightarrow> treasury_step X R sz s s'"
| ts_claim: "tr_runs s user = None \<Longrightarrow> participant_claim R user wallet run vault account n s = Ok s' \<Longrightarrow> treasury_step X R sz s s'"
| ts_finalize: "tr_runs s user = None
    \<Longrightarrow> participant_bond_finalize_withdraw R clock user wallet run vault account appeal rs s = Ok s' \<Longrightarrow> treasury_step X R sz s s'"
| ts_bond_config: "run_bond_config_update x run minimum delay s = Ok s' \<Longrightarrow> treasury_step X R sz s s'"
| ts_challenge_config: "run_set_challenge_config x run window n window' s = Ok s' \<Longrightarrow> treasury_step X R sz s s'"
| ts_bounty: "run_set_slash_bounty x run bps s = Ok s' \<Longrightarrow> treasury_step X R sz s s'"
| ts_slash: "run_slash R x run inst account params s = Ok s' \<Longrightarrow> treasury_step X R sz s s'"
| ts_update: "run_update X R clock x run inst account rparams s = Ok s' \<Longrightarrow> treasury_step X R sz s s'"
| ts_verdict: "tr_runs s x = None
    \<Longrightarrow> run_submit_audit_verdict X R clock x run inst account vparams s = Ok s' \<Longrightarrow> treasury_step X R sz s s'"
| ts_challenge: "tr_runs s x = None \<Longrightarrow> run_open_challenge clock x run s = Ok s' \<Longrightarrow> treasury_step X R sz s s'"
| ts_finalize_slash: "run_finalize_slash R clock run inst account target index s = Ok s' \<Longrightarrow> treasury_step X R sz s s'"
| ts_appeal: "tr_runs s x = None
    \<Longrightarrow> run_submit_appeal_verdict X R x run inst account target index overturn s = Ok s' \<Longrightarrow> treasury_step X R sz s s'"
| ts_loser: "run_slash_losing_verifier R run inst account target position s = Ok s' \<Longrightarrow> treasury_step X R sz s s'"
| ts_program: "tr_runs s x = None \<Longrightarrow> program_step X R sz (tr_auths s) x (tr_program s) prog
    \<Longrightarrow> treasury_step X R sz s (s\<lparr>tr_program := prog\<rparr>)"
| ts_auths: "tr_runs s x = None \<Longrightarrow> authorizer_step R x (tr_auths s) auths \<Longrightarrow> treasury_step X R sz s (s\<lparr>tr_auths := auths\<rparr>)"
| ts_tokens: "(\<And>k r. tr_runs s k = Some r \<Longrightarrow> balance (tr_ledger s) (vault_of R k r) \<le> balance L (vault_of R k r)
      \<and> map_option ta_owner (L (vault_of R k r)) = map_option ta_owner (tr_ledger s (vault_of R k r)))
    \<Longrightarrow> treasury_step X R sz s (s\<lparr>tr_ledger := L\<rparr>)"

definition empty_treasury :: "ledger \<Rightarrow> authorizations \<Rightarrow> treasury" where
  "empty_treasury L auths = \<lparr>tr_runs = (\<lambda>_. None), tr_participants = (\<lambda>_. None), tr_verdicts = (\<lambda>_. None),
     tr_program = empty_program, tr_auths = auths, tr_ledger = L\<rparr>"

text \<open>Instructions that leave participants, tokens and the books of the runs alone.\<close>

definition same_books :: "Run \<Rightarrow> Run \<Rightarrow> bool" where
  "same_books r r' \<longleftrightarrow> rn_total_bonded_amount r' = rn_total_bonded_amount r
     \<and> rn_total_claimed_earned_points r' = rn_total_claimed_earned_points r
     \<and> rn_total_claimed_collateral_amount r' = rn_total_claimed_collateral_amount r
     \<and> rn_coordinator_account r' = rn_coordinator_account r \<and> rn_coordinator_instance r' = rn_coordinator_instance r
     \<and> rn_collateral_mint r' = rn_collateral_mint r
     \<and> (rn_slash_bounty_bps r \<le> 10000 \<longrightarrow> rn_slash_bounty_bps r' \<le> 10000)"

lemma same_books_refl [simp]: "same_books r r"
  by (simp add: same_books_def)

definition quiet :: "treasury \<Rightarrow> treasury \<Rightarrow> bool" where
  "quiet s s' \<longleftrightarrow> tr_participants s' = tr_participants s \<and> tr_ledger s' = tr_ledger s
     \<and> (\<forall>k. rel_option same_books (tr_runs s k) (tr_runs s' k))"

lemma quiet_runs: "tr_participants s' = tr_participants s \<Longrightarrow> tr_ledger s' = tr_ledger s \<Longrightarrow> tr_runs s' = tr_runs s \<Longrightarrow> quiet s s'"
  by (simp add: quiet_def option.rel_refl)

lemma quiet_run:
  "tr_participants s' = tr_participants s \<Longrightarrow> tr_ledger s' = tr_ledger s \<Longrightarrow> tr_runs s k = Some r
   \<Longrightarrow> tr_runs s' = (tr_runs s)(k \<mapsto> r') \<Longrightarrow> same_books r r' \<Longrightarrow> quiet s s'"
  by (auto simp: quiet_def option.rel_refl)

lemma quiet_instructions:
  "participant_authorize_join R clock user run s = Ok s' \<Longrightarrow> quiet s s'"
  "run_slash R x run inst account params s = Ok s' \<Longrightarrow> quiet s s'"
  "run_submit_audit_verdict X R clock x run inst account vparams s = Ok s' \<Longrightarrow> quiet s s'"
  "run_open_challenge clock x run s = Ok s' \<Longrightarrow> quiet s s'"
  "run_finalize_slash R clock run inst account target index s = Ok s' \<Longrightarrow> quiet s s'"
  "run_submit_appeal_verdict X R x run inst account target index overturn s = Ok s' \<Longrightarrow> quiet s s'"
  "run_slash_losing_verifier R run inst account target position s = Ok s' \<Longrightarrow> quiet s s'"
  by (auto simp: participant_authorize_join_def run_slash_def run_submit_audit_verdict_def run_open_challenge_def
      run_finalize_slash_def run_submit_appeal_verdict_def run_slash_losing_verifier_def Let_def intro: quiet_runs split: if_splits)

lemma quiet_config:
  "run_bond_config_update x run minimum delay s = Ok s' \<Longrightarrow> quiet s s'"
  "run_set_challenge_config x run window n window' s = Ok s' \<Longrightarrow> quiet s s'"
  "run_set_slash_bounty x run bps s = Ok s' \<Longrightarrow> quiet s s'"
  by (auto simp: run_bond_config_update_def run_set_challenge_config_def run_set_slash_bounty_def same_books_def
      MAX_SLASH_BOUNTY_BPS_def intro!: quiet_run)

lemma quiet_update: "run_update X R clock x run inst account params s = Ok s' \<Longrightarrow> quiet s s'"
  by (auto simp: run_update_def intro!: quiet_runs split: if_splits option.splits)

lemma quiet_steps:
  "quiet s (s\<lparr>tr_program := prog\<rparr>)" "quiet s (s\<lparr>tr_auths := auths\<rparr>)"
  by (simp_all add: quiet_runs)

text \<open>What happens to the coordinator program: the accounts of runs stay, and their ledgers grow.\<close>

definition guarded :: "treasury \<Rightarrow> treasury \<Rightarrow> bool" where
  "guarded s s' \<longleftrightarrow> (program_wf (tr_program s) \<longrightarrow> program_wf (tr_program s')
     \<and> (\<forall>inst i. prog_instances (tr_program s) inst = Some i \<and> tr_runs s (ci_main_authority i) \<noteq> None
          \<longrightarrow> keeps_run inst i (tr_program s) (tr_program s')))"

lemma keeps_refl: "prog_instances s inst = Some i \<Longrightarrow> keeps_run inst i s s"
  by (simp add: keeps_run_def ledger_step_refl)

lemma keeps_trans: "keeps_run inst i s t \<Longrightarrow> keeps_run inst i t u \<Longrightarrow> keeps_run inst i s u"
  unfolding keeps_run_def by (meson ledger_step_trans)

lemma guarded_same: "tr_program s' = tr_program s \<Longrightarrow> guarded s s'"
  by (simp add: guarded_def keeps_refl)

lemma guarded_trans: "guarded s t \<Longrightarrow> guarded t u \<Longrightarrow> tr_runs t = tr_runs s \<Longrightarrow> guarded s u"
  unfolding guarded_def by (metis keeps_run_def keeps_trans)

lemma guarded_call:
  assumes "program_step X R sz auths x (tr_program s) prog" "account_change auths x (tr_program s) prog" "tr_program s' = prog"
  shows "guarded s s'"
  using program_wf_step [OF assms(1)] keeps_account_change [OF assms(2)] assms(3) by (simp add: guarded_def)

lemma guarded_slash: "slash_client R x inst account params (tr_program s) = Ok prog \<Longrightarrow> tr_program s' = prog \<Longrightarrow> guarded s s'"
  by (rule guarded_call [OF ps_slash owner_instruction_change(5)])

lemma guarded_calls:
  "program_update R x inst account metadata config mdl progress (tr_program s) = Ok prog \<Longrightarrow> guarded s (s\<lparr>tr_program := prog\<rparr>)"
  "program_set_future_epoch_rates R x inst account earning slashing (tr_program s) = Ok prog \<Longrightarrow> guarded s (s\<lparr>tr_program := prog\<rparr>)"
  "program_set_paused X R clock x inst account paused (tr_program s) = Ok prog \<Longrightarrow> guarded s (s\<lparr>tr_program := prog\<rparr>)"
  "update_client_version R x inst account version (tr_program s) = Ok prog \<Longrightarrow> guarded s (s\<lparr>tr_program := prog\<rparr>)"
  by (auto intro: guarded_call [OF ps_update owner_instruction_change(1)] guarded_call [OF ps_rates owner_instruction_change(3)]
      guarded_call [OF ps_paused owner_instruction_change(4)] guarded_call [OF ps_version owner_instruction_change(2)])

lemma guarded_update:
  assumes "run_update X R clock x run inst account params s = Ok s'"
  shows "guarded s s'"
proof -
  obtain s1 s2 s3 where h:
      "(if ru_metadata params \<noteq> None \<or> ru_config params \<noteq> None \<or> ru_model params \<noteq> None \<or> ru_progress params \<noteq> None
        then cpi (program_update R run inst account (ru_metadata params) (ru_config params) (ru_model params)
                    (ru_progress params) (tr_program s)) s
        else Ok s) = Ok s1"
      "(if ru_epoch_earning_rate_total_shared params \<noteq> None \<or> ru_epoch_slashing_rate_per_client params \<noteq> None
        then cpi (program_set_future_epoch_rates R run inst account (ru_epoch_earning_rate_total_shared params)
                    (ru_epoch_slashing_rate_per_client params) (tr_program s1)) s1
        else Ok s1) = Ok s2"
      "(case ru_paused params of Some paused \<Rightarrow> cpi (program_set_paused X R clock run inst account paused (tr_program s2)) s2
        | None \<Rightarrow> Ok s2) = Ok s3"
      "(case ru_client_version params of Some version \<Rightarrow> cpi (update_client_version R run inst account version (tr_program s3)) s3
        | None \<Rightarrow> Ok s3) = Ok s'"
    using assms unfolding run_update_def rbind_eq_Ok by blast
  have "guarded s s1" "tr_runs s1 = tr_runs s"
    using h(1) guarded_calls(1) by (auto intro: guarded_same split: if_splits)
  moreover have "guarded s1 s2" "tr_runs s2 = tr_runs s1"
    using h(2) guarded_calls(2) by (auto intro: guarded_same split: if_splits)
  moreover have "guarded s2 s3" "tr_runs s3 = tr_runs s2"
    using h(3) guarded_calls(3) by (auto intro: guarded_same split: option.splits)
  moreover have "guarded s3 s'"
    using h(4) guarded_calls(4) by (auto intro: guarded_same split: option.splits)
  ultimately show ?thesis
    by (metis guarded_trans)
qed

lemma guarded_verdicts:
  "run_slash R x run inst account params s = Ok s' \<Longrightarrow> guarded s s'"
  "run_submit_audit_verdict X R clock x run inst account vparams s = Ok s' \<Longrightarrow> guarded s s'"
  "run_open_challenge clock x run s = Ok s' \<Longrightarrow> guarded s s'"
  "run_finalize_slash R clock run inst account target index s = Ok s' \<Longrightarrow> guarded s s'"
  "run_submit_appeal_verdict X R x run inst account target index overturn s = Ok s' \<Longrightarrow> guarded s s'"
  "run_slash_losing_verifier R run inst account target position s = Ok s' \<Longrightarrow> guarded s s'"
  by (auto simp: run_slash_def run_submit_audit_verdict_def run_open_challenge_def
      run_finalize_slash_def run_submit_appeal_verdict_def run_slash_losing_verifier_def Let_def
      intro: guarded_same elim: guarded_slash split: if_splits)

lemma treasury_step_kinds:
  assumes "treasury_step X R sz s s'"
  obtains (quiet) "quiet s s'"
  | (run_create) mint inst account index run_id version main join where
      "run_create R sz mint inst account index run_id version main join s = Ok s'"
  | (create) user run where "participant_create R user run s = Ok s'"
  | (deposit) user wallet run vault n where "tr_runs s user = None" "participant_bond_deposit R user wallet run vault n s = Ok s'"
  | (request) clock user run n where "participant_bond_request_withdraw clock user run n s = Ok s'"
  | (claim) user wallet run vault account n where "tr_runs s user = None"
      "participant_claim R user wallet run vault account n s = Ok s'"
  | (finalize) clock user wallet run vault account appeal rs where "tr_runs s user = None"
      "participant_bond_finalize_withdraw R clock user wallet run vault account appeal rs s = Ok s'"
  | (tokens) L where "s' = s\<lparr>tr_ledger := L\<rparr>"
      "\<And>k r. tr_runs s k = Some r \<Longrightarrow> balance (tr_ledger s) (vault_of R k r) \<le> balance L (vault_of R k r)
         \<and> map_option ta_owner (L (vault_of R k r)) = map_option ta_owner (tr_ledger s (vault_of R k r))"
  using assms
proof (cases rule: treasury_step.cases)
  case (ts_tokens L)
  then show thesis using tokens by blast
qed (auto intro: that quiet_instructions quiet_config quiet_update quiet_steps)

section \<open>The books\<close>

definition bond_total :: "pubkey \<Rightarrow> treasury \<Rightarrow> nat" where
  "bond_total k s = (case tr_runs s k of None \<Rightarrow> 0 | Some r \<Rightarrow> rn_total_bonded_amount r)"

definition point_total :: "pubkey \<Rightarrow> treasury \<Rightarrow> nat" where
  "point_total k s = (case tr_runs s k of None \<Rightarrow> 0 | Some r \<Rightarrow> rn_total_claimed_earned_points r)"

definition bond :: "pubkey \<Rightarrow> treasury \<Rightarrow> pubkey \<Rightarrow> nat" where
  "bond k s u = (case tr_participants s (k, u) of None \<Rightarrow> 0 | Some p \<Rightarrow> pa_bond_amount p)"

definition points :: "pubkey \<Rightarrow> treasury \<Rightarrow> pubkey \<Rightarrow> nat" where
  "points k s u = (case tr_participants s (k, u) of None \<Rightarrow> 0 | Some p \<Rightarrow> pa_claimed_earned_points p)"

lemmas books = bond_total_def point_total_def bond_def points_def

lemma quiet_books:
  assumes "quiet s s'"
  shows "bond_total k s' = bond_total k s" "point_total k s' = point_total k s" "bond k s' = bond k s" "points k s' = points k s"
proof -
  have "rel_option same_books (tr_runs s k) (tr_runs s' k)"
    using assms by (simp add: quiet_def)
  then show "bond_total k s' = bond_total k s" "point_total k s' = point_total k s"
    by (cases rule: option.rel_cases; simp add: books same_books_def)+
  show "bond k s' = bond k s" "points k s' = points k s"
    using assms by (simp_all add: quiet_def books fun_eq_iff)
qed

lemma run_create_books:
  assumes "run_create R sz mint inst account index run_id version main join s = Ok s'"
  shows "bond_total k s' = bond_total k s" "point_total k s' = point_total k s" "bond k s' = bond k s" "points k s' = points k s"
  using assms by (elim run_create_Ok; simp add: books fun_eq_iff)+

lemma participant_create_books:
  assumes "participant_create R user run s = Ok s'"
  shows "bond_total k s' = bond_total k s" "point_total k s' = point_total k s" "bond k s' = bond k s" "points k s' = points k s"
  using assms by (elim participant_create_Ok; simp add: books fun_eq_iff)+

lemma request_books:
  assumes "participant_bond_request_withdraw clock user run n s = Ok s'"
  shows "bond_total k s' = bond_total k s" "point_total k s' = point_total k s" "bond k s' = bond k s" "points k s' = points k s"
  using assms by (elim participant_bond_request_withdraw_Ok; simp add: books fun_eq_iff)+

lemma deposit_books:
  assumes "participant_bond_deposit R user wallet run vault n s = Ok s'"
  shows "point_total k s' = point_total k s" "points k s' = points k s" "v \<noteq> user \<Longrightarrow> bond k s' v = bond k s v"
    "bond_total k s' + bond k s user = bond_total k s + bond k s' user"
  using assms by (elim participant_bond_deposit_Ok; cases "k = run"; simp add: books fun_eq_iff)+

lemma claim_books:
  assumes "participant_claim R user wallet run vault account n s = Ok s'"
  shows "bond_total k s' = bond_total k s" "bond k s' = bond k s" "v \<noteq> user \<Longrightarrow> points k s' v = points k s v"
    "point_total k s' + points k s user = point_total k s + points k s' user"
  using assms by (elim participant_claim_Ok; cases "k = run"; simp add: books fun_eq_iff)+

lemma finalize_books:
  assumes "participant_bond_finalize_withdraw R clock user wallet run vault account appeal rs s = Ok s'"
  shows "point_total k s' = point_total k s" "points k s' = points k s" "v \<noteq> user \<Longrightarrow> bond k s' v = bond k s v"
    "bond_total k s' + bond k s user = bond_total k s + bond k s' user"
proof -
  obtain r p p' r' f y L slashed where h: "tr_runs s run = Some r" "tr_participants s (run, user) = Some p"
      "settle_bond slashed p r = Ok (p', r', f, y)"
      "s' = s\<lparr>tr_participants := (tr_participants s)((run, user) \<mapsto> p'), tr_runs := (tr_runs s)(run \<mapsto> r'), tr_ledger := L\<rparr>"
    using assms by (elim participant_bond_finalize_withdraw_Ok) blast
  note sb = settle_bond_Ok [OF h(3)]
  show "point_total k s' = point_total k s" "points k s' = points k s" "v \<noteq> user \<Longrightarrow> bond k s' v = bond k s v"
    "bond_total k s' + bond k s user = bond_total k s + bond k s' user"
    using h sb(5,7) unfolding sb(3,4) by (cases "k = run"; simp add: books fun_eq_iff)+
qed

lemma tokens_books [simp]:
  "bond_total k (s\<lparr>tr_ledger := L\<rparr>) = bond_total k s" "point_total k (s\<lparr>tr_ledger := L\<rparr>) = point_total k s"
  "bond k (s\<lparr>tr_ledger := L\<rparr>) = bond k s" "points k (s\<lparr>tr_ledger := L\<rparr>) = points k s"
  by (simp_all add: books fun_eq_iff)

lemma treasury_bond_part:
  assumes "treasury_step X R sz s s'"
  shows "\<exists>u. (\<forall>v. v \<noteq> u \<longrightarrow> bond k s' v = bond k s v) \<and> bond_total k s' + bond k s u = bond_total k s + bond k s' u"
  using assms
proof (cases rule: treasury_step_kinds)
  case (deposit user wallet run vault n)
  then show ?thesis by (intro exI [of _ user]) (simp add: deposit_books)
next
  case (finalize clock user wallet run vault account appeal rs)
  then show ?thesis by (intro exI [of _ user]) (simp add: finalize_books)
qed (simp_all add: quiet_books run_create_books participant_create_books request_books claim_books)

lemma treasury_point_part:
  assumes "treasury_step X R sz s s'"
  shows "\<exists>u. (\<forall>v. v \<noteq> u \<longrightarrow> points k s' v = points k s v) \<and> point_total k s' + points k s u = point_total k s + points k s' u"
  using assms
proof (cases rule: treasury_step_kinds)
  case (claim user wallet run vault account n)
  then show ?thesis by (intro exI [of _ user]) (simp add: claim_books)
qed (simp_all add: quiet_books run_create_books participant_create_books request_books deposit_books finalize_books)

interpretation bonds: ledger_total "treasury_step X R sz" "bond_total k" "bond k" for X R sz k
  using treasury_bond_part by unfold_locales blast

interpretation earned: ledger_total "treasury_step X R sz" "point_total k" "points k" for X R sz k
  using treasury_point_part by unfold_locales blast

text \<open>
  (C20) The books of a run balance. Along every sequence of instructions, the bonds the treasurer
  counts are the sum of the bonds of the run's participants, and the points it counts as claimed are
  the sum of what they claimed.
\<close>

theorem treasury_totals:
  assumes "(treasury_step X R sz)\<^sup>*\<^sup>* (empty_treasury L auths) s"
  shows "bond_total k s = (\<Sum>u | bond k s u \<noteq> 0. bond k s u) \<and> point_total k s = (\<Sum>u | points k s u \<noteq> 0. points k s u)"
proof -
  have "bonds.balanced k (empty_treasury L auths)" "earned.balanced k (empty_treasury L auths)"
    by (simp_all add: bonds.balanced_def earned.balanced_def books empty_treasury_def)
  then show ?thesis
    using bonds.balanced_steps [OF assms] earned.balanced_steps [OF assms] by (simp add: bonds.balanced_def earned.balanced_def)
qed

section \<open>What backs the bonds\<close>

definition backed :: "runtime \<Rightarrow> treasury \<Rightarrow> bool" where
  "backed R s \<longleftrightarrow> (\<forall>k r. tr_runs s k = Some r \<longrightarrow> map_option ta_owner (tr_ledger s (vault_of R k r)) = Some k
     \<and> rn_slash_bounty_bps r \<le> 10000
     \<and> rn_total_bonded_amount r \<le> balance (tr_ledger s) (vault_of R k r) + rn_total_claimed_collateral_amount r)"

lemma backedD:
  assumes "backed R s" "tr_runs s k = Some r"
  shows "map_option ta_owner (tr_ledger s (vault_of R k r)) = Some k" "rn_slash_bounty_bps r \<le> 10000"
    "rn_total_bonded_amount r \<le> balance (tr_ledger s) (vault_of R k r) + rn_total_claimed_collateral_amount r"
  using assms by (simp_all add: backed_def)

lemma vaults_differ:
  assumes "backed R s" "tr_runs s k = Some r" "tr_runs s k' = Some r'" "k' \<noteq> k"
  shows "vault_of R k' r' \<noteq> vault_of R k r"
  using backedD(1) [OF assms(1,2)] backedD(1) [OF assms(1,3)] assms(4) by auto

lemma quiet_backed:
  assumes "quiet s s'" "backed R s"
  shows "backed R s'"
  unfolding backed_def
proof (intro allI impI)
  fix k r' assume r': "tr_runs s' k = Some r'"
  have "rel_option same_books (tr_runs s k) (tr_runs s' k)"
    using assms(1) by (simp add: quiet_def)
  then obtain r where "tr_runs s k = Some r" "same_books r r'"
    using r' by (auto simp: option_rel_Some2)
  then show "map_option ta_owner (tr_ledger s' (vault_of R k r')) = Some k \<and> rn_slash_bounty_bps r' \<le> 10000
     \<and> rn_total_bonded_amount r' \<le> balance (tr_ledger s') (vault_of R k r') + rn_total_claimed_collateral_amount r'"
    using backedD [OF assms(2)] assms(1) by (auto simp: quiet_def same_books_def vault_of_def)
qed

lemma backed_pay:
  assumes "backed R s" "tr_runs s k = Some r" "pays_at_most (tr_ledger s) L (vault_of R k r) n"
    and "tr_runs s' = (tr_runs s)(k \<mapsto> r')" "tr_ledger s' = L" "rn_collateral_mint r' = rn_collateral_mint r"
      "rn_slash_bounty_bps r' = rn_slash_bounty_bps r"
      "rn_total_bonded_amount r' + rn_total_claimed_collateral_amount r + n \<le> rn_total_bonded_amount r + rn_total_claimed_collateral_amount r'"
  shows "backed R s'"
  unfolding backed_def
proof (intro allI impI)
  fix k2 r2 assume r2: "tr_runs s' k2 = Some r2"
  show "map_option ta_owner (tr_ledger s' (vault_of R k2 r2)) = Some k2 \<and> rn_slash_bounty_bps r2 \<le> 10000
     \<and> rn_total_bonded_amount r2 \<le> balance (tr_ledger s') (vault_of R k2 r2) + rn_total_claimed_collateral_amount r2"
  proof (cases "k2 = k")
    case True
    then have "r2 = r'" "vault_of R k2 r2 = vault_of R k r"
      using r2 assms(4,6) by (simp_all add: vault_of_def)
    then show ?thesis
      using backedD [OF assms(1,2)] assms(3,5,7,8) True by (simp add: pays_at_most_def)
  next
    case False
    then have o: "tr_runs s k2 = Some r2"
      using r2 assms(4) by simp
    from vaults_differ [OF assms(1,2) o False] show ?thesis
      using backedD [OF assms(1) o] assms(3,5) by (auto simp: pays_at_most_def intro: order_trans)
  qed
qed

lemma backed_deposit:
  assumes "token_laws R" "backed R s" "participant_bond_deposit R user wallet run vault n s = Ok s'" "tr_runs s user = None"
  shows "backed R s'"
proof -
  obtain r p t L where h: "tr_runs s run = Some r" "tr_ledger s wallet = Some t" "ta_owner t = user"
      "vault = vault_of R run r" "token_transfer R (tr_ledger s) wallet vault user n = Some L"
      "tr_runs s' = (tr_runs s)(run \<mapsto> r\<lparr>rn_total_bonded_amount := rn_total_bonded_amount r + n\<rparr>)" "tr_ledger s' = L"
    using assms(3) by (elim participant_bond_deposit_Ok) (auto simp: vault_of_def)
  have w: "wallet \<noteq> vault_of R k2 r2" if "tr_runs s k2 = Some r2" for k2 r2
    using backedD(1) [OF assms(2) that] h(2,3) assms(4) that by auto
  show ?thesis
    unfolding backed_def
  proof (intro allI impI)
    fix k2 r2 assume "tr_runs s' k2 = Some r2"
    then obtain r0 where r0: "tr_runs s k2 = Some r0" "vault_of R k2 r2 = vault_of R k2 r0"
        "rn_slash_bounty_bps r2 = rn_slash_bounty_bps r0"
        "rn_total_claimed_collateral_amount r2 = rn_total_claimed_collateral_amount r0"
        "rn_total_bonded_amount r2 = rn_total_bonded_amount r0 + (if k2 = run then n else 0)"
      using h(1,6) by (auto simp: vault_of_def split: if_splits)
    have "balance (tr_ledger s) (vault_of R k2 r0) + (if k2 = run then n else 0) \<le> balance L (vault_of R k2 r0)"
    proof (cases "k2 = run")
      case True
      then have "vault_of R k2 r0 = vault" "wallet \<noteq> vault"
        using r0(1) h(1,4) w by auto
      then show ?thesis
        using transfer_moves(2) [OF assms(1) h(5)] True by simp
    next
      case False
      then have "vault_of R k2 r0 \<noteq> vault" "wallet \<noteq> vault_of R k2 r0"
        using vaults_differ [OF assms(2) h(1) r0(1)] h(4) w [OF r0(1)] by auto
      then show ?thesis
        using transfer_moves(3) [OF assms(1) h(5)] False by simp
    qed
    then show "map_option ta_owner (tr_ledger s' (vault_of R k2 r2)) = Some k2 \<and> rn_slash_bounty_bps r2 \<le> 10000
       \<and> rn_total_bonded_amount r2 \<le> balance (tr_ledger s') (vault_of R k2 r2) + rn_total_claimed_collateral_amount r2"
      using backedD [OF assms(2) r0(1)] r0 h(7) transfer_moves(6) [OF assms(1) h(5)] by simp
  qed
qed

lemma backed_create:
  assumes "token_laws R" "backed R s" "run_create R sz mint inst account index run_id version main join s = Ok s'"
  shows "backed R s'"
proof -
  obtain run r where h: "tr_runs s run = None" "rn_collateral_mint r = mint" "rn_total_bonded_amount r = 0" "rn_slash_bounty_bps r = 0"
      "init_associated_token R (tr_ledger s) mint run = (Ok (tr_ledger s') :: ledger treasurer_res)" "tr_runs s' = (tr_runs s)(run \<mapsto> r)"
    using assms(3) by (elim run_create_Ok) auto
  note a = init_associated_token_Ok [OF assms(1) h(5)]
  have v: "vault_of R run r = associated_token R mint run"
    by (simp add: vault_of_def h(2))
  have "vault_of R k2 r2 \<noteq> associated_token R mint run" if "tr_runs s k2 = Some r2" for k2 r2
    using backedD(1) [OF assms(2) that] a(1) by auto
  then show ?thesis
    using assms(2) h(3,4) by (auto simp: backed_def a(2) v h(6) balance_def)
qed

lemma backed_step:
  assumes "token_laws R" "treasury_step X R sz s s'" "backed R s"
  shows "backed R s'"
  using assms(2)
proof (cases rule: treasury_step_kinds)
  case (create user run)
  then show ?thesis using assms(3) by (elim participant_create_Ok) (simp add: backed_def)
next
  case (request clock user run n)
  then show ?thesis using assms(3) by (elim participant_bond_request_withdraw_Ok) (simp add: backed_def)
next
  case (claim user wallet run vault account n)
  from claim(2) show ?thesis
  proof (elim participant_claim_Ok)
    fix r p a L assume h: "tr_runs s run = Some r" "vault = associated_token R (rn_collateral_mint r) run"
      "token_transfer R (tr_ledger s) vault wallet run n = Some L"
      "s' = s\<lparr>tr_participants := (tr_participants s)((run, user) \<mapsto>
           p\<lparr>pa_claimed_collateral_amount := pa_claimed_collateral_amount p + n,
             pa_claimed_earned_points := pa_claimed_earned_points p + n\<rparr>),
         tr_runs := (tr_runs s)(run \<mapsto> r\<lparr>rn_total_claimed_collateral_amount := rn_total_claimed_collateral_amount r + n,
           rn_total_claimed_earned_points := rn_total_claimed_earned_points r + n\<rparr>), tr_ledger := L\<rparr>"
    then show ?thesis
      using transfer_pays [OF assms(1) h(3)] by (intro backed_pay [OF assms(3) h(1), where n = n and r' = "r\<lparr>rn_total_claimed_collateral_amount := rn_total_claimed_collateral_amount r + n,
           rn_total_claimed_earned_points := rn_total_claimed_earned_points r + n\<rparr>"]) (simp_all add: vault_of_def)
  qed
next
  case (finalize clock user wallet run vault account appeal rs)
  obtain r p ap p' r' f y L slashed where h: "tr_runs s run = Some r" "vault = vault_of R run r" "settle_bond slashed p r = Ok (p', r', f, y)"
      "pay_withdrawal R run user wallet vault r (tr_verdicts s (run, user)) ap rs f y (tr_ledger s) = Ok L"
      "tr_runs s' = (tr_runs s)(run \<mapsto> r')" "tr_ledger s' = L"
    using finalize(2) by (elim participant_bond_finalize_withdraw_Ok) (auto simp: vault_of_def)
  note sb = settle_bond_Ok [OF h(3)]
  have "pays_at_most (tr_ledger s) L (vault_of R run r) (f + y)"
    using pay_withdrawal_pays [OF assms(1) h(4) backedD(2) [OF assms(3) h(1)]] sb(6) h(2) by simp
  from backed_pay [OF assms(3) h(1) this h(5,6)] show ?thesis
    using sb(4,5) by simp
next
  case (tokens L)
  then show ?thesis using assms(3) by (fastforce simp: backed_def)
qed (use assms in \<open>auto intro: quiet_backed backed_create backed_deposit\<close>)

lemma backed_steps: "token_laws R \<Longrightarrow> (treasury_step X R sz)\<^sup>*\<^sup>* s s' \<Longrightarrow> backed R s \<Longrightarrow> backed R s'"
  by (rotate_tac 1, induction rule: rtranclp_induct) (auto intro: backed_step)

text \<open>
  (C16) The bonds are there. Starting from an empty treasury and along every sequence of instructions,
  what the vault of a run holds, together with what was paid to claimants out of it, covers the bonds of
  the run: a withdrawal and a forfeited bond never pay out more than the bond. A run from which nothing was
  claimed can repay all its bonds.
\<close>

theorem bonds_backed:
  assumes "token_laws R" "(treasury_step X R sz)\<^sup>*\<^sup>* (empty_treasury L auths) s" "tr_runs s k = Some r"
  shows "rn_total_bonded_amount r \<le> balance (tr_ledger s) (vault_of R k r) + rn_total_claimed_collateral_amount r
     \<and> map_option ta_owner (tr_ledger s (vault_of R k r)) = Some k"
proof -
  have "backed R (empty_treasury L auths)"
    by (simp add: backed_def empty_treasury_def)
  then show ?thesis
    using backedD [OF backed_steps [OF assms(1,2)] assms(3)] by simp
qed

section \<open>What a claim rests on\<close>

lemma init_coordinator_creates:
  assumes "init_coordinator R sz account main join run_id version s = Ok s'"
  shows "\<exists>i a. ci_main_authority i = main \<and> ci_coordinator_account i = account \<and> ledger_of (ca_state a) = []
     \<and> prog_instances s' (fst (find_coordinator_instance R run_id)) = Some i \<and> prog_accounts s' account = Some (Initialized a)"
proof -
  define a where "a = \<lparr>ca_version = VERSION,
     ca_state = InstanceState_zeroed\<lparr>is_client_version := fs_from_str_truncated CLIENT_VERSION_LEN version,
       is_coordinator := Coordinator_zeroed\<lparr>c_run_id := fs_from_str_truncated SOLANA_RUN_ID_MAX_LEN run_id\<rparr>\<rparr>, ca_nonce = 0\<rparr>"
  obtain inst bump where k: "find_coordinator_instance R run_id = (inst, bump)"
    by fastforce
  define i where "i = \<lparr>ci_bump = bump, ci_main_authority = main, ci_join_authority = join,
     ci_coordinator_account = account, ci_run_id = run_id\<rparr>"
  have "s' = s\<lparr>prog_instances := (prog_instances s)(inst \<mapsto> i), prog_accounts := (prog_accounts s)(account \<mapsto> Initialized a)\<rparr>"
    using assms unfolding init_coordinator_def k Let_def prod.case a_def [symmetric] i_def [symmetric]
    by (auto split: option.splits state_account.splits)
  moreover have "ci_coordinator_account i = account" "ci_main_authority i = main" "ledger_of (ca_state a) = []"
    by (simp_all add: i_def a_def InstanceState_zeroed_def)
  ultimately show ?thesis
    by (simp add: k)
qed

lemma treasury_step_guarded:
  assumes "treasury_step X R sz s s'"
  shows "guarded s s'"
  using assms
proof (cases rule: treasury_step.cases)
  case (ts_run_create mint inst account index run_id version main join)
  then obtain run r prog where h: "init_coordinator R sz account run join run_id version (tr_program s) = Ok prog" "tr_program s' = prog"
    by (elim run_create_Ok) simp
  then show ?thesis
    using program_wf_step [OF ps_init [OF h(1)]] keeps_init [OF h(1)] by (simp add: guarded_def)
next
  case (ts_program x prog)
  then have "keeps_run inst i (tr_program s) prog"
    if "program_wf (tr_program s)" "prog_instances (tr_program s) inst = Some i" "tr_runs s (ci_main_authority i) \<noteq> None" for inst i
    using keeps_program_step [OF ts_program(3) that(1,2)] that(3) ts_program(2) by (cases "ci_main_authority i = x") auto
  then show ?thesis
    using ts_program program_wf_step [OF ts_program(3)] by (simp add: guarded_def)
next
  case (ts_finalize user clock wallet run vault account appeal rs)
  then show ?thesis by (elim participant_bond_finalize_withdraw_Ok) (simp add: guarded_same)
next
  case (ts_claim user wallet run vault account n)
  then show ?thesis by (elim participant_claim_Ok) (simp add: guarded_same)
next
  case (ts_deposit user wallet run vault n)
  then show ?thesis by (elim participant_bond_deposit_Ok) (simp add: guarded_same)
next
  case (ts_request user clock run n)
  then show ?thesis by (elim participant_bond_request_withdraw_Ok) (simp add: guarded_same)
next
  case (ts_create user run)
  then show ?thesis by (elim participant_create_Ok) (simp add: guarded_same)
next
  case (ts_authorize clock user run)
  then show ?thesis by (auto simp: participant_authorize_join_def intro: guarded_same)
next
  case (ts_bond_config x run minimum delay)
  then show ?thesis by (auto simp: run_bond_config_update_def intro: guarded_same)
next
  case (ts_challenge_config x run window n window')
  then show ?thesis by (auto simp: run_set_challenge_config_def intro: guarded_same)
next
  case (ts_bounty x run bps)
  then show ?thesis by (auto simp: run_set_slash_bounty_def intro: guarded_same)
qed (auto intro: guarded_same guarded_update guarded_verdicts)

text \<open>
  The run owns a coordinator instance with a ledger, and no participant has claimed more points than
  the ledger credits.
\<close>

definition earned_by :: "treasury \<Rightarrow> pubkey \<Rightarrow> Run \<Rightarrow> bool" where
  "earned_by s k r \<longleftrightarrow> (\<exists>i a. prog_instances (tr_program s) (rn_coordinator_instance r) = Some i \<and> ci_main_authority i = k
     \<and> ci_coordinator_account i = rn_coordinator_account r
     \<and> prog_accounts (tr_program s) (rn_coordinator_account r) = Some (Initialized a) \<and> ledger_wf (ca_state a)
     \<and> (\<forall>u. points k s u \<le> client_earned u (ca_state a)))"

definition linked :: "treasury \<Rightarrow> bool" where
  "linked s \<longleftrightarrow> program_wf (tr_program s) \<and> (\<forall>k u. tr_participants s (k, u) \<noteq> None \<longrightarrow> tr_runs s k \<noteq> None)
     \<and> (\<forall>k r. tr_runs s k = Some r \<longrightarrow> earned_by s k r)"

lemma linkedD:
  assumes "linked s"
  shows "program_wf (tr_program s)" "tr_participants s (k, u) = Some p \<Longrightarrow> tr_runs s k \<noteq> None"
    "tr_runs s k = Some r \<Longrightarrow> earned_by s k r"
  using assms by (auto simp: linked_def)

lemma ledger_step_earned:
  assumes "ledger_step st st'" "ledger_wf st"
  shows "client_earned u st \<le> client_earned u st'"
  using grown_lookup(1) [of "ledger_of st" "ledger_of st'" u] assms
  by (simp add: ledger_step_def ledger_wf_def client_earned_def)

lemma earned_kept:
  assumes "guarded s s'" "linked s" "tr_runs s k = Some r"
    "rn_coordinator_account r' = rn_coordinator_account r" "rn_coordinator_instance r' = rn_coordinator_instance r" "points k s' = points k s"
  shows "earned_by s' k r'"
proof -
  obtain i a where h: "prog_instances (tr_program s) (rn_coordinator_instance r) = Some i" "ci_main_authority i = k"
      "ci_coordinator_account i = rn_coordinator_account r" "ledger_wf (ca_state a)"
      "prog_accounts (tr_program s) (rn_coordinator_account r) = Some (Initialized a)" "\<And>u. points k s u \<le> client_earned u (ca_state a)"
    using linkedD(3) [OF assms(2,3)] unfolding earned_by_def by blast
  have "keeps_run (rn_coordinator_instance r) i (tr_program s) (tr_program s')"
    using assms(1) linkedD(1) [OF assms(2)] h(1,2) assms(3) by (simp add: guarded_def)
  then obtain a' where a': "prog_accounts (tr_program s') (rn_coordinator_account r) = Some (Initialized a')"
      "ledger_step (ca_state a) (ca_state a')" "prog_instances (tr_program s') (rn_coordinator_instance r) = Some i"
    using h(3,5) by (auto simp: keeps_run_def)
  have "points k s' u \<le> client_earned u (ca_state a')" for u
    using ledger_step_earned [OF a'(2) h(4)] h(6) assms(6) by (metis order_trans)
  moreover have "ledger_wf (ca_state a')"
    using a'(2) h(4) by (simp add: ledger_step_def)
  ultimately show ?thesis
    unfolding earned_by_def assms(4,5) using a' h(2,3) by blast
qed

lemma linked_kept:
  assumes "guarded s s'" "linked s"
    "\<And>k r'. tr_runs s' k = Some r' \<Longrightarrow> \<exists>r. tr_runs s k = Some r \<and> rn_coordinator_account r' = rn_coordinator_account r
       \<and> rn_coordinator_instance r' = rn_coordinator_instance r"
    "\<And>k. tr_runs s k \<noteq> None \<Longrightarrow> tr_runs s' k \<noteq> None"
    "\<And>k u. tr_participants s' (k, u) \<noteq> None \<Longrightarrow> tr_participants s (k, u) \<noteq> None \<or> tr_runs s k \<noteq> None"
    "\<And>k. points k s' = points k s"
  shows "linked s'"
  unfolding linked_def
proof (intro conjI allI impI)
  show "program_wf (tr_program s')"
    using assms(1) linkedD(1) [OF assms(2)] by (simp add: guarded_def)
  show "tr_runs s' k \<noteq> None" if "tr_participants s' (k, u) \<noteq> None" for k u
    using assms(4,5) [of k] that linkedD(2) [OF assms(2)] by blast
  show "earned_by s' k r'" if "tr_runs s' k = Some r'" for k r'
    using assms(3) [OF that] earned_kept [OF assms(1,2) _ _ _ assms(6)] by blast
qed

lemma linked_quiet:
  assumes "guarded s s'" "linked s" "quiet s s'"
  shows "linked s'"
proof (rule linked_kept [OF assms(1,2)])
  have r: "rel_option same_books (tr_runs s k) (tr_runs s' k)" for k
    using assms(3) by (simp add: quiet_def)
  show "\<exists>r. tr_runs s k = Some r \<and> rn_coordinator_account r' = rn_coordinator_account r
       \<and> rn_coordinator_instance r' = rn_coordinator_instance r" if "tr_runs s' k = Some r'" for k r'
    using r [of k] that by (auto simp: option_rel_Some2 same_books_def)
  show "tr_runs s' k \<noteq> None" if "tr_runs s k \<noteq> None" for k
    using r [of k] that by (auto simp: option_rel_Some1)
qed (use assms(3) in \<open>auto simp: quiet_books quiet_def\<close>)

lemma linked_create:
  assumes "guarded s s'" "linked s" "run_create R sz mint inst account index run_id version main join s = Ok s'"
  shows "linked s'"
proof -
  obtain run r where h: "tr_runs s run = None" "init_coordinator R sz account run join run_id version (tr_program s) = Ok (tr_program s')"
      "rn_coordinator_account r = account" "rn_coordinator_instance r = fst (find_coordinator_instance R run_id)"
      "tr_runs s' = (tr_runs s)(run \<mapsto> r)" "tr_participants s' = tr_participants s"
    using assms(3) by (elim run_create_Ok) auto
  have "tr_participants s (run, u) = None" for u
    using linkedD(2) [OF assms(2), of run u] h(1) by (cases "tr_participants s (run, u)") auto
  then have p: "points run s' u = 0" for u
    by (simp add: points_def h(6))
  obtain i a where "ci_main_authority i = run" "ci_coordinator_account i = account" "ledger_of (ca_state a) = []"
      "prog_instances (tr_program s') (rn_coordinator_instance r) = Some i" "prog_accounts (tr_program s') account = Some (Initialized a)"
    using init_coordinator_creates [OF h(2)] h(4) by auto
  then have new: "earned_by s' run r"
    unfolding earned_by_def h(3) by (intro exI [of _ i] exI [of _ a]) (simp add: p ledger_wf_def)
  have "points k s' = points k s" for k
    by (simp add: points_def h(6) fun_eq_iff)
  then have "earned_by s' k r'" if "tr_runs s k = Some r'" for k r'
    using earned_kept [OF assms(1,2) that] by simp
  then show ?thesis
    using new linkedD(2) [OF assms(2)] assms(1) linkedD(1) [OF assms(2)] h(5,6)
    by (auto simp: linked_def guarded_def)
qed

lemma linked_claim:
  assumes "linked s" "participant_claim R user wallet run vault account n s = Ok s'"
  shows "linked s'"
proof -
  obtain r p a L where c: "tr_runs s run = Some r" "tr_participants s (run, user) = Some p"
      "rn_coordinator_account r = account" "prog_accounts (tr_program s) account = Some (Initialized a)"
      "pa_claimed_earned_points p + n \<le> client_earned user (ca_state a)"
      "s' = s\<lparr>tr_participants := (tr_participants s)((run, user) \<mapsto>
           p\<lparr>pa_claimed_collateral_amount := pa_claimed_collateral_amount p + n,
             pa_claimed_earned_points := pa_claimed_earned_points p + n\<rparr>),
         tr_runs := (tr_runs s)(run \<mapsto> r\<lparr>rn_total_claimed_collateral_amount := rn_total_claimed_collateral_amount r + n,
           rn_total_claimed_earned_points := rn_total_claimed_earned_points r + n\<rparr>), tr_ledger := L\<rparr>"
    using assms(2) by (elim participant_claim_Ok) blast
  define r' where "r' = r\<lparr>rn_total_claimed_collateral_amount := rn_total_claimed_collateral_amount r + n,
           rn_total_claimed_earned_points := rn_total_claimed_earned_points r + n\<rparr>"
  define p' where "p' = p\<lparr>pa_claimed_collateral_amount := pa_claimed_collateral_amount p + n,
             pa_claimed_earned_points := pa_claimed_earned_points p + n\<rparr>"
  have h: "tr_runs s run = Some r" "tr_participants s (run, user) = Some p"
      "prog_accounts (tr_program s) (rn_coordinator_account r) = Some (Initialized a)"
      "pa_claimed_earned_points p' \<le> client_earned user (ca_state a)"
      "rn_coordinator_account r' = rn_coordinator_account r" "rn_coordinator_instance r' = rn_coordinator_instance r"
      "tr_runs s' = (tr_runs s)(run \<mapsto> r')" "tr_participants s' = (tr_participants s)((run, user) \<mapsto> p')" "tr_program s' = tr_program s"
    using c by (simp_all add: r'_def p'_def)
  have pts: "points k s' u = (if k = run \<and> u = user then pa_claimed_earned_points p' else points k s u)" for k u
    by (simp add: points_def h(8))
  have "earned_by s' k r2" if "tr_runs s' k = Some r2" for k r2
  proof (cases "k = run")
    case True
    then have "r2 = r'" using that h(7) by simp
    then show ?thesis
      using linkedD(3) [OF assms(1) h(1)] h(3,4) True by (auto simp: earned_by_def pts h(5,6,9))
  next
    case False
    then have "earned_by s k r2" using linkedD(3) [OF assms(1)] that h(7) by simp
    then show ?thesis using False by (simp add: earned_by_def pts h(9))
  qed
  then show ?thesis
    using linkedD(1,2) [OF assms(1)] h(1,7,8,9) by (auto simp: linked_def)
qed

lemma linked_step:
  assumes "treasury_step X R sz s s'" "linked s"
  shows "linked s'"
  using assms(1)
proof (cases rule: treasury_step_kinds)
  case quiet
  then show ?thesis by (rule linked_quiet [OF treasury_step_guarded [OF assms(1)] assms(2)])
next
  case (run_create mint inst account index run_id version main join)
  then show ?thesis by (rule linked_create [OF treasury_step_guarded [OF assms(1)] assms(2)])
next
  case (create user run)
  then have "points k s' = points k s" for k by (rule participant_create_books)
  with create show ?thesis
    by (intro linked_kept [OF treasury_step_guarded [OF assms(1)] assms(2)]) (auto elim!: participant_create_Ok split: if_splits)
next
  case (deposit user wallet run vault n)
  from deposit(2) have "points k s' = points k s" for k by (rule deposit_books(2))
  with deposit(2) show ?thesis
    by (intro linked_kept [OF treasury_step_guarded [OF assms(1)] assms(2)]) (auto elim!: participant_bond_deposit_Ok split: if_splits)
next
  case (request clock user run n)
  then have "points k s' = points k s" for k by (rule request_books)
  with request show ?thesis
    by (intro linked_kept [OF treasury_step_guarded [OF assms(1)] assms(2)])
      (auto elim!: participant_bond_request_withdraw_Ok split: if_splits)
next
  case (claim user wallet run vault account n)
  then show ?thesis using linked_claim [OF assms(2)] by blast
next
  case (finalize clock user wallet run vault account appeal rs)
  from finalize(2) have pts: "points k s' = points k s" for k by (rule finalize_books(2))
  obtain r r' p p' f y slashed where h: "tr_runs s run = Some r" "settle_bond slashed p r = Ok (p', r', f, y)"
      "tr_runs s' = (tr_runs s)(run \<mapsto> r')" "tr_participants s' = (tr_participants s)((run, user) \<mapsto> p')"
    using finalize(2) by (elim participant_bond_finalize_withdraw_Ok) auto
  show ?thesis
    using h settle_bond_Ok(4) [OF h(2)]
    by (intro linked_kept [OF treasury_step_guarded [OF assms(1)] assms(2) _ _ _ pts]) (auto split: if_splits)
next
  case (tokens L)
  then show ?thesis
    by (intro linked_kept [OF treasury_step_guarded [OF assms(1)] assms(2)]) auto
qed

lemma linked_steps: "(treasury_step X R sz)\<^sup>*\<^sup>* s s' \<Longrightarrow> linked s \<Longrightarrow> linked s'"
  by (induction rule: rtranclp_induct) (auto intro: linked_step)

lemma empty_treasury_linked: "linked (empty_treasury L auths)"
  using empty_program_wf by (simp add: linked_def empty_treasury_def)

text \<open>
  (C17) Only what the coordinator credited can be claimed. Along every sequence of instructions of the
  treasurer, and of the coordinator program by anybody else in between, the run keeps its coordinator
  account, and the points a participant has claimed are at most what that account's ledger says the
  participant earned. The hypothesis holds in an empty treasury.
\<close>

theorem claims_earned:
  "linked (empty_treasury L auths)
   \<and> ((treasury_step X R sz)\<^sup>*\<^sup>* t s \<longrightarrow> linked t \<longrightarrow> tr_participants s (k, u) = Some p \<longrightarrow>
       (\<exists>r a. tr_runs s k = Some r \<and> prog_accounts (tr_program s) (rn_coordinator_account r) = Some (Initialized a)
          \<and> pa_claimed_earned_points p \<le> client_earned u (ca_state a)))"
proof (intro conjI impI)
  assume h: "(treasury_step X R sz)\<^sup>*\<^sup>* t s" "linked t" and p: "tr_participants s (k, u) = Some p"
  note l = linked_steps [OF h]
  obtain r where r: "tr_runs s k = Some r"
    using linkedD(2) [OF l p] by auto
  obtain a where "prog_accounts (tr_program s) (rn_coordinator_account r) = Some (Initialized a)" "points k s u \<le> client_earned u (ca_state a)"
    using linkedD(3) [OF l r] unfolding earned_by_def by blast
  then show "\<exists>r a. tr_runs s k = Some r \<and> prog_accounts (tr_program s) (rn_coordinator_account r) = Some (Initialized a)
          \<and> pa_claimed_earned_points p \<le> client_earned u (ca_state a)"
    using r p by (auto simp: points_def)
qed (rule empty_treasury_linked)

section \<open>Concrete runs\<close>

definition demo_run_key :: pubkey where
  "demo_run_key = str_bytes ''Run'' @ to_le_bytes 8 0"

definition demo_wallet :: "pubkey \<Rightarrow> nat \<Rightarrow> TokenAccount" where
  "demo_wallet owner n = \<lparr>ta_mint = [4], ta_owner = owner, ta_delegate = None, ta_amount = n\<rparr>"

lemma demo_run_key_not [simp]: "demo_run_key \<noteq> [1]" "[1] \<noteq> demo_run_key" "length demo_run_key = 11"
  by (simp_all add: demo_run_key_def str_bytes_def)

lemma demo_runtime_fields:
  "token_transfer demo_runtime = demo_transfer" "associated_token demo_runtime mint owner = 7 # mint @ owner"
  "create_associated_token demo_runtime L mint owner = (if L (7 # mint @ owner) = None
     then Some (L(7 # mint @ owner \<mapsto> \<lparr>ta_mint = mint, ta_owner = owner, ta_delegate = None, ta_amount = 0\<rparr>)) else None)"
  by (simp_all add: demo_runtime_def)

lemma demo_bonded:
  "\<exists>s r. (treasury_step X demo_runtime 100)\<^sup>*\<^sup>* (empty_treasury [[11] \<mapsto> demo_wallet [1] 100] auths) s
     \<and> tr_runs s demo_run_key = Some r \<and> rn_total_bonded_amount r = 50 \<and> rn_total_claimed_collateral_amount r = 0
     \<and> rn_collateral_mint r = [4] \<and> bond demo_run_key s [1] = 50"
proof -
  let ?R = demo_runtime and ?k = demo_run_key
  define t where "t = empty_treasury [[11] \<mapsto> demo_wallet [1] 100] auths"
  define t1 where "t1 = t\<lparr>tr_program := (tr_program t)\<lparr>prog_accounts := (prog_accounts (tr_program t))([9] \<mapsto> Zeroed 108)\<rparr>\<rparr>"
  have e1: "treasury_step X ?R 100 t t1"
    unfolding t1_def
    by (rule ts_program [of _ "[1]"], simp add: t_def empty_treasury_def, rule ps_allocate)
      (simp_all add: t_def empty_treasury_def empty_program_def)
  have "\<exists>prog. init_coordinator ?R 100 [9] ?k [5] [7] [] (tr_program t1) = Ok prog"
    by (simp add: init_coordinator_def find_coordinator_instance_def demo_runtime_def t1_def t_def empty_treasury_def empty_program_def
        account_len_def space_with_discriminator_def SOLANA_RUN_ID_MAX_LEN_def tfail_def rust_ctrl del: rbind_eq_Ok)
  then obtain prog where prog: "init_coordinator ?R 100 [9] ?k [5] [7] [] (tr_program t1) = Ok prog" ..
  have k: "find_run ?R 0 = (?k, 255)"
    by (simp add: find_run_def demo_runtime_def demo_run_key_def)
  let ?v = "7 # 4 # ?k"
  have f: "tr_runs t1 = Map.empty" "tr_participants t1 = Map.empty" "tr_ledger t1 = [[11] \<mapsto> demo_wallet [1] 100]"
    by (simp_all add: t1_def t_def empty_treasury_def)
  obtain t2 r where t2: "run_create ?R 100 [4] (fst (find_coordinator_instance ?R [7])) [9] 0 [7] [] [1] [5] t1 = Ok t2"
      "tr_runs t2 = [?k \<mapsto> r]" "rn_total_bonded_amount r = 0" "rn_total_claimed_collateral_amount r = 0" "rn_collateral_mint r = [4]"
      "tr_participants t2 = Map.empty" "tr_ledger t2 = [[11] \<mapsto> demo_wallet [1] 100, ?v \<mapsto> demo_wallet ?k 0]"
    by (simp add: run_create_def k prog init_associated_token_def SOLANA_RUN_ID_MAX_LEN_def f
        demo_runtime_fields demo_wallet_def tfail_def rust_ctrl del: rbind_eq_Ok)
  obtain t3 p where t3: "participant_create ?R [1] ?k t2 = Ok t3" "tr_runs t3 = tr_runs t2" "tr_ledger t3 = tr_ledger t2"
      "tr_participants t3 = [(?k, [1]) \<mapsto> p]" "pa_bond_amount p = 0"
    by (simp add: participant_create_def t2 tfail_def rust_ctrl del: rbind_eq_Ok)
  obtain t4 r' where t4: "participant_bond_deposit ?R [1] [11] ?k ?v 50 t3 = Ok t4" "tr_runs t4 ?k = Some r'" "rn_total_bonded_amount r' = 50"
      "rn_total_claimed_collateral_amount r' = 0" "rn_collateral_mint r' = [4]" "bond ?k t4 [1] = 50"
    by (simp add: participant_bond_deposit_def t2 t3 demo_runtime_fields demo_transfer_def wallet_account_def vault_account_def demo_wallet_def
        bond_def tfail_def rust_ctrl rust_arith del: rbind_eq_Ok)
  have "treasury_step X ?R 100 t1 t2"
    by (rule ts_run_create [OF t2(1)])
  moreover have "treasury_step X ?R 100 t2 t3"
    by (rule ts_create [OF _ t3(1)]) (simp add: t2)
  moreover have "treasury_step X ?R 100 t3 t4"
    by (rule ts_deposit [OF _ t4(1)]) (simp add: t2 t3)
  ultimately have "(treasury_step X ?R 100)\<^sup>*\<^sup>* t t4"
    using e1 by (meson converse_rtranclp_into_rtranclp rtranclp.rtrancl_refl)
  then show ?thesis
    using t4 unfolding t_def by blast
qed

theorem treasury_totals_witness:
  "\<exists>s. bond demo_run_key s [1] = 50 \<and> bond_total demo_run_key s = 50
     \<and> (\<Sum>u | bond demo_run_key s u \<noteq> 0. bond demo_run_key s u) = 50"
proof -
  obtain s r where s: "(treasury_step demo_X demo_runtime 100)\<^sup>*\<^sup>* (empty_treasury [[11] \<mapsto> demo_wallet [1] 100] demo_auths) s"
      "tr_runs s demo_run_key = Some r" "rn_total_bonded_amount r = 50" "bond demo_run_key s [1] = 50"
    using demo_bonded by blast
  then have "bond_total demo_run_key s = 50"
    by (simp add: bond_total_def)
  then show ?thesis
    using treasury_totals [OF s(1), of demo_run_key] s(4) by auto
qed

theorem bonds_backed_witness:
  "\<exists>(s :: treasury) r. tr_runs s demo_run_key = Some r \<and> rn_total_bonded_amount r = 50 \<and> rn_total_claimed_collateral_amount r = 0
     \<and> 50 \<le> balance (tr_ledger s) (vault_of demo_runtime demo_run_key r)"
proof -
  obtain s r where s: "(treasury_step demo_X demo_runtime 100)\<^sup>*\<^sup>* (empty_treasury [[11] \<mapsto> demo_wallet [1] 100] demo_auths) s"
      "tr_runs s demo_run_key = Some r" "rn_total_bonded_amount r = 50" "rn_total_claimed_collateral_amount r = 0"
    using demo_bonded by blast
  then show ?thesis
    using bonds_backed [OF demo_token_laws s(1,2)] by (intro exI [of _ s] exI [of _ r]) auto
qed

text \<open>A run with one bond of 100 in its vault and a participant the coordinator credits with 60 points.\<close>

definition demo_ledger_state :: CoordinatorInstanceState where
  "demo_ledger_state = InstanceState_zeroed\<lparr>is_clients_state := (is_clients_state InstanceState_zeroed)\<lparr>cs_clients :=
     [\<lparr>sc_id = \<lparr>signer = [2], p2p_identity = []\<rparr>, sc_earned = 60, sc_slashed = 0, sc_active = 0\<rparr>]\<rparr>\<rparr>"

definition demo_participant :: "nat \<Rightarrow> Participant" where
  "demo_participant n = \<lparr>pa_bump = 255, pa_claimed_collateral_amount = 0, pa_claimed_earned_points = 0, pa_bond_amount = n,
     pa_bond_withdraw_pending_amount = 0, pa_bond_withdraw_requested_at = 0, pa_bond_settled_slashed_points = 0,
     pa_bond_withdraw_delay_snapshot = 0\<rparr>"

definition demo_funded_run :: Run where
  "demo_funded_run = \<lparr>rn_bump = 255, rn_index = 0, rn_main_authority = [3], rn_join_authority = [3], rn_coordinator_account = [9],
     rn_coordinator_instance = [6], rn_collateral_mint = [4], rn_total_claimed_collateral_amount = 0, rn_total_claimed_earned_points = 0,
     rn_total_bonded_amount = 100, rn_bond_minimum_amount = 0, rn_bond_withdraw_delay_seconds = 60, rn_slash_bounty_bps = 0,
     rn_challenge_window_seconds = 0, rn_tie_breaker_committee_size = 0, rn_appeal_window_seconds = 0\<rparr>"

definition demo_funded :: treasury where
  "demo_funded = \<lparr>tr_runs = [[8] \<mapsto> demo_funded_run],
     tr_participants = [([8], [1]) \<mapsto> demo_participant 100, ([8], [2]) \<mapsto> demo_participant 0], tr_verdicts = Map.empty,
     tr_program = \<lparr>prog_instances = [[6] \<mapsto> \<lparr>ci_bump = 255, ci_main_authority = [8], ci_join_authority = [3],
         ci_coordinator_account = [9], ci_run_id = [7]\<rparr>],
       prog_accounts = [[9] \<mapsto> Initialized \<lparr>ca_version = VERSION, ca_state = demo_ledger_state, ca_nonce = 0\<rparr>]\<rparr>,
     tr_auths = demo_auths,
     tr_ledger = [[11] \<mapsto> demo_wallet [1] 0, [12] \<mapsto> demo_wallet [2] 0, [7, 4, 8] \<mapsto> demo_wallet [8] 100]\<rparr>"

lemma demo_ledger_state_earned: "client_earned u demo_ledger_state = (if u = [2] then 60 else 0)" "client_slashed u demo_ledger_state = 0"
  by (simp_all add: client_earned_def client_slashed_def demo_ledger_state_def)

lemma demo_funded_linked: "linked demo_funded"
  by (auto simp: linked_def demo_funded_def program_wf_def earned_by_def demo_funded_run_def points_def demo_participant_def
      ledger_wf_def demo_ledger_state_def demo_ledger_state_earned split: if_splits)

lemmas demo_funded_eval = demo_funded_def demo_funded_run_def demo_participant_def demo_wallet_def demo_runtime_fields demo_transfer_def
  wallet_account_def vault_account_def coordinator_of_def load_account_def demo_ledger_state_earned tfail_def tok_or_def

lemma demo_claim:
  "\<exists>s p. participant_claim demo_runtime [2] [12] [8] [7, 4, 8] [9] 60 demo_funded = Ok s
     \<and> tr_participants s ([8], [2]) = Some p \<and> pa_claimed_earned_points p = 60 \<and> tr_program s = tr_program demo_funded"
  by (simp add: participant_claim_def demo_funded_eval rust_ctrl rust_arith del: rbind_eq_Ok)

theorem claims_earned_witness:
  "\<exists>s p a. participant_claim demo_runtime [2] [12] [8] [7, 4, 8] [9] 60 demo_funded = Ok s
     \<and> tr_participants s ([8], [2]) = Some p \<and> pa_claimed_earned_points p = 60
     \<and> prog_accounts (tr_program s) [9] = Some (Initialized a) \<and> 60 \<le> client_earned [2] (ca_state a)"
proof -
  obtain s p where s: "participant_claim demo_runtime [2] [12] [8] [7, 4, 8] [9] 60 demo_funded = Ok s"
      "tr_participants s ([8], [2]) = Some p" "pa_claimed_earned_points p = 60"
    using demo_claim by blast
  have "(treasury_step demo_X demo_runtime 100)\<^sup>*\<^sup>* demo_funded s"
    by (rule r_into_rtranclp, rule ts_claim [OF _ s(1)]) (simp add: demo_funded_def)
  then obtain r a where r: "tr_runs s [8] = Some r" "prog_accounts (tr_program s) (rn_coordinator_account r) = Some (Initialized a)"
      "pa_claimed_earned_points p \<le> client_earned [2] (ca_state a)"
    using claims_earned [of Map.empty demo_auths demo_X demo_runtime 100 demo_funded s "[8]" "[2]" p] s(2) demo_funded_linked by blast
  have "rn_coordinator_account r = [9]"
    using s(1) r(1) by (elim participant_claim_Ok) (auto simp: demo_funded_def demo_funded_run_def)
  then show ?thesis
    using s r by auto
qed


end
