(* ===== verification/Treasurer_Verdicts.thy ===== *)
theory Treasurer_Verdicts
  imports Treasurer_Props "HOL-Library.Sublist"
begin

text \<open>
  The life of an audit verdict: what its account holds in every reachable state, which way its status can
  move, and that a verdict is upheld, or an overturned one settled, only together with a slash of the
  coordinator.
\<close>

section \<open>The account of a verdict\<close>

definition AuditVerdict_space_with_discriminator :: nat where
  "AuditVerdict_space_with_discriminator = 8 + 1 + 32 + 32 + 2 + 4 + 1 + 2 + 32 + 32 + 8 + 8 + 8 + 8 + 8 + 32 + 2 + 2 + 2
     + 4 + MAX_VERDICT_VOTERS * 32 + 4 + MAX_APPEAL_VOTERS * 32"

text \<open>The length of the serialised account: fixed fields, and two vectors with their lengths.\<close>

definition verdict_size :: "AuditVerdict \<Rightarrow> nat" where
  "verdict_size v = 8 + 1 + 32 + 32 + 2 + 4 + 1 + 2 + 32 + 32 + 8 + 8 + 8 + 8 + 8 + 32 + 2 + 2 + 2
     + 4 + length (av_voters v) * 32 + 4 + length (av_appeal_voters v) * 32"

definition verdict_wf :: "pubkey \<Rightarrow> pubkey \<Rightarrow> AuditVerdict \<Rightarrow> bool" where
  "verdict_wf k t v \<longleftrightarrow> av_run v = k \<and> av_target v = t
     \<and> distinct (av_voters v @ av_appeal_voters v) \<and> av_voters v \<noteq> []
     \<and> length (av_voters v) \<le> MAX_VERDICT_VOTERS \<and> length (av_appeal_voters v) \<le> MAX_APPEAL_VOTERS
     \<and> av_verdict_count v = length (av_voters v)
     \<and> av_overturn_count v + av_uphold_count v = length (av_appeal_voters v)
     \<and> av_settled_count v \<le> length (av_voters v)
     \<and> (av_status v \<noteq> Overturned \<longrightarrow> av_settled_count v = 0)
     \<and> (av_status v = Voting \<or> av_status v = SlashPending \<longrightarrow> av_appeal_voters v = [])
     \<and> (av_status v \<noteq> Voting \<longrightarrow> 2 \<le> length (av_voters v))"

definition evidence :: "AuditVerdict \<Rightarrow> bytes \<times> bytes \<times> nat \<times> nat \<times> nat" where
  "evidence v = (av_committed_hash v, av_replayed_hash v, av_target_index v, av_batch_start v, av_batch_end v)"

definition dispute :: "AuditVerdict \<Rightarrow> nat \<times> nat" where
  "dispute v = (av_epoch v, av_round_height v)"

text \<open>The moves of a dispute, and the start of the next one over a finished one.\<close>

definition status_move :: "VerdictStatus \<Rightarrow> VerdictStatus \<Rightarrow> bool" where
  "status_move x y \<longleftrightarrow> x = y \<or> (x, y) \<in> {(Voting, SlashPending), (Voting, Upheld), (SlashPending, Challenged),
     (SlashPending, Upheld), (Challenged, Upheld), (Challenged, Overturned)}"

definition same_dispute :: "AuditVerdict \<Rightarrow> AuditVerdict \<Rightarrow> bool" where
  "same_dispute v v' \<longleftrightarrow> dispute v' = dispute v \<and> evidence v' = evidence v \<and> status_move (av_status v) (av_status v')
     \<and> prefix (av_voters v) (av_voters v') \<and> (av_status v \<noteq> Voting \<longrightarrow> av_voters v' = av_voters v)
     \<and> prefix (av_appeal_voters v) (av_appeal_voters v') \<and> (av_status v \<noteq> Challenged \<longrightarrow> av_appeal_voters v' = av_appeal_voters v)
     \<and> (av_settled_count v' = av_settled_count v \<or> av_settled_count v' = av_settled_count v + 1 \<and> av_status v = Overturned)"

definition next_dispute :: "AuditVerdict \<Rightarrow> AuditVerdict \<Rightarrow> bool" where
  "next_dispute v v' \<longleftrightarrow> is_settled v \<and> dispute v' \<noteq> dispute v \<and> av_status v' = Voting \<and> length (av_voters v') = 1
     \<and> av_appeal_voters v' = []"

text \<open>The coordinator of run \<open>k\<close> ejects the client of \<open>t\<close>, and does nothing else to the clients of the epoch.\<close>

definition epoch_clients :: "CoordinatorAccount \<Rightarrow> Client list" where
  "epoch_clients a = es_clients (c_epoch_state (is_coordinator (ca_state a)))"

definition ejects :: "pubkey \<Rightarrow> pubkey \<Rightarrow> treasury \<Rightarrow> treasury \<Rightarrow> bool" where
  "ejects k t s s' \<longleftrightarrow> (\<exists>r a a' i. tr_runs s k = Some r
     \<and> prog_accounts (tr_program s) (rn_coordinator_account r) = Some (Initialized a)
     \<and> prog_accounts (tr_program s') (rn_coordinator_account r) = Some (Initialized a')
     \<and> i < length (epoch_clients a) \<and> signer (client_id (epoch_clients a ! i)) = t
     \<and> client_state (epoch_clients a ! i) \<in> {Healthy, Dropped}
     \<and> epoch_clients a' = (epoch_clients a)[i := (epoch_clients a ! i)\<lparr>client_state := Ejected\<rparr>])"

lemma slash_client_ejects:
  assumes "slash_client R k inst account params (tr_program s) = Ok prog" "tr_program s' = prog" "tr_runs s k = Some r"
    "rn_coordinator_account r = account" "prog_accounts (tr_program s) account = Some (Initialized a)"
    "sl_index params < length (epoch_clients a)" "signer (client_id (epoch_clients a ! sl_index params)) = t"
  shows "ejects k t s s'"
proof -
  let ?c = "is_coordinator (ca_state a)" and ?i = "sl_index params"
  obtain st where st: "instance_slash ?i (ca_state a) = Ok st"
      "\<exists>a1. ca_state a1 = st \<and> prog_accounts prog account = Some (Initialized a1)"
    using assms(1,5) by (auto simp: slash_client_def owner_accounts_def load_account_def with_state_def increment_nonce_def)
  have "client_state (epoch_clients a ! ?i) \<in> {Healthy, Dropped}"
    "es_clients (c_epoch_state (is_coordinator st)) = (epoch_clients a)[?i := (epoch_clients a ! ?i)\<lparr>client_state := Ejected\<rparr>]"
    using st(1) assms(6)
    by (auto simp: instance_slash_def eject_def slice_get_def epoch_clients_def set_coordinator_def set_client_state_def
        set_epoch_state_def update_at_def split: if_splits)
  then show ?thesis
    using st(2) assms(2-7) unfolding ejects_def epoch_clients_def by auto
qed

section \<open>What the instructions do to a verdict\<close>

lemma two_thirds_eq_Ok [simp]: "two_thirds n = Ok q \<longleftrightarrow> 2 * n < 2 ^ 64 \<and> q = (2 * n + 2) div 3"
  by (auto simp: two_thirds_def)

lemma open_verdict_Ok:
  assumes "open_verdict R k t epoch height v0 = Ok v1" "k \<noteq> Pubkey_default"
  shows "dispute v1 = (epoch, height)"
    "v0 = AuditVerdict_zeroed \<Longrightarrow> av_run v1 = k \<and> av_target v1 = t \<and> av_voters v1 = [] \<and> av_appeal_voters v1 = [] \<and> av_verdict_count v1 = 0
       \<and> av_overturn_count v1 = 0 \<and> av_uphold_count v1 = 0 \<and> av_settled_count v1 = 0 \<and> av_status v1 = Voting"
    "av_run v0 = k \<Longrightarrow> v1 = v0 \<or> is_settled v0 \<and> dispute v0 \<noteq> (epoch, height) \<and> v1 = reset_for_round epoch height v0"
  using assms by (auto simp: open_verdict_def dispute_def reset_for_round_def AuditVerdict_zeroed_def split: if_splits)

lemma cast_vote_Ok:
  assumes "cast_vote clock window quorum x params v = Ok (v', slash)"
  shows "av_status v = Voting" "x \<notin> set (av_voters v)" "length (av_voters v) < MAX_VERDICT_VOTERS"
    "av_voters v' = av_voters v @ [x]" "av_verdict_count v' = Suc (av_verdict_count v)"
    "dispute v' = dispute v" "av_run v' = av_run v" "av_target v' = av_target v" "av_appeal_voters v' = av_appeal_voters v"
    "av_overturn_count v' = av_overturn_count v" "av_uphold_count v' = av_uphold_count v" "av_settled_count v' = av_settled_count v"
    "av_voters v \<noteq> [] \<Longrightarrow> evidence v' = evidence v"
    "av_status v' = (if av_verdict_count v' < quorum then Voting else if 0 < window then SlashPending else Upheld)"
    "slash \<longleftrightarrow> av_status v' = Upheld" "av_target_index v' = vp_target_index params"
  using assms by (auto simp: cast_vote_def Let_def evidence_def dispute_def same_evidence_def not_le split: if_splits)

lemma cast_appeal_Ok:
  assumes "cast_appeal quorum x t overturn v = Ok (v', slash)"
  shows "av_status v = Challenged" "x \<notin> set (av_voters v)" "x \<notin> set (av_appeal_voters v)"
    "length (av_appeal_voters v) < MAX_APPEAL_VOTERS" "av_appeal_voters v' = av_appeal_voters v @ [x]"
    "av_voters v' = av_voters v" "av_verdict_count v' = av_verdict_count v" "dispute v' = dispute v" "evidence v' = evidence v"
    "av_run v' = av_run v" "av_target v' = av_target v" "av_settled_count v' = av_settled_count v"
    "av_overturn_count v' + av_uphold_count v' = Suc (av_overturn_count v + av_uphold_count v)"
    "av_status v' = (if quorum \<le> av_overturn_count v' then Overturned else if quorum \<le> av_uphold_count v' then Upheld else Challenged)"
    "slash \<longleftrightarrow> av_status v' = Upheld"
  using assms by (auto simp: cast_appeal_def Let_def evidence_def dispute_def not_le split: if_splits)

lemma check_target_Ok:
  "check_target t i c = Ok u \<longleftrightarrow> i < length (es_clients (c_epoch_state c)) \<and> signer (client_id (es_clients (c_epoch_state c) ! i)) = t"
  by (auto simp: check_target_def slice_get_def)

lemma verifier_seat_Ok:
  assumes "verifier_seat X c n x t i = Ok (epoch, height, quorum)"
  shows "2 \<le> quorum" "i < length (es_clients (c_epoch_state c))" "signer (client_id (es_clients (c_epoch_state c) ! i)) = t"
  using assms by (auto simp: verifier_seat_def Let_def check_target_Ok)

definition verdicts_ok :: "treasury \<Rightarrow> bool" where
  "verdicts_ok s \<longleftrightarrow> tr_runs s Pubkey_default = None \<and> (\<forall>k t v. tr_verdicts s (k, t) = Some v \<longrightarrow> verdict_wf k t v)"

lemma verdicts_okD:
  assumes "verdicts_ok s"
  shows "tr_runs s k = Some r \<Longrightarrow> k \<noteq> Pubkey_default" "tr_verdicts s (k, t) = Some v \<Longrightarrow> verdict_wf k t v"
  using assms by (auto simp: verdicts_ok_def)

text \<open>One instruction on the verdict about \<open>t\<close>.\<close>

definition advances :: "pubkey \<Rightarrow> pubkey \<Rightarrow> treasury \<Rightarrow> treasury \<Rightarrow> AuditVerdict \<Rightarrow> AuditVerdict \<Rightarrow> bool" where
  "advances k t s s' v v' \<longleftrightarrow> next_dispute v v'
     \<or> same_dispute v v' \<and> (av_status v' = Upheld \<and> av_status v \<noteq> Upheld \<longrightarrow> ejects k t s s')
       \<and> (av_settled_count v' \<noteq> av_settled_count v \<longrightarrow> ejects k (av_voters v ! av_settled_count v) s s')"

definition writes_verdict :: "treasury \<Rightarrow> treasury \<Rightarrow> bool" where
  "writes_verdict s s' \<longleftrightarrow> tr_runs s' = tr_runs s \<and> (\<exists>k t v'. tr_verdicts s' = (tr_verdicts s)((k, t) \<mapsto> v') \<and> verdict_wf k t v'
     \<and> (case tr_verdicts s (k, t) of None \<Rightarrow> av_status v' = Voting | Some v \<Rightarrow> advances k t s s' v v'))"

lemma writes_first_verdictI:
  "tr_runs s' = tr_runs s \<Longrightarrow> tr_verdicts s' = (tr_verdicts s)((k, t) \<mapsto> v') \<Longrightarrow> verdict_wf k t v'
   \<Longrightarrow> tr_verdicts s (k, t) = None \<Longrightarrow> av_status v' = Voting \<Longrightarrow> writes_verdict s s'"
  unfolding writes_verdict_def by (intro conjI exI [of _ k] exI [of _ t] exI [of _ v']) simp_all

lemma writes_verdictI:
  "tr_runs s' = tr_runs s \<Longrightarrow> tr_verdicts s' = (tr_verdicts s)((k, t) \<mapsto> v') \<Longrightarrow> verdict_wf k t v'
   \<Longrightarrow> tr_verdicts s (k, t) = Some v \<Longrightarrow> advances k t s s' v v' \<Longrightarrow> writes_verdict s s'"
  unfolding writes_verdict_def by (intro conjI exI [of _ k] exI [of _ t] exI [of _ v']) simp_all

lemma same_dispute_refl: "same_dispute v v"
  by (simp add: same_dispute_def status_move_def)

lemma vote_wf:
  assumes "verdict_wf k t v \<or> av_run v = k \<and> av_target v = t \<and> av_voters v = [] \<and> av_appeal_voters v = [] \<and> av_verdict_count v = 0
       \<and> av_overturn_count v = 0 \<and> av_uphold_count v = 0 \<and> av_settled_count v = 0 \<and> av_status v = Voting"
    and "cast_vote clock window quorum x params v = Ok (v', slash)" "2 \<le> quorum"
  shows "verdict_wf k t v'"
proof -
  note c = cast_vote_Ok [OF assms(2)]
  have "av_appeal_voters v = []" "av_verdict_count v = length (av_voters v)" "distinct (av_voters v)" "av_run v = k" "av_target v = t"
      "av_overturn_count v = 0" "av_uphold_count v = 0" "av_settled_count v = 0"
    using assms(1) c(1) by (auto simp: verdict_wf_def)
  then show ?thesis
    using c(2-12,14) assms(3) by (auto simp: verdict_wf_def)
qed

lemma vote_writes:
  assumes "run_submit_audit_verdict X R clock x k inst account params s = Ok s'" "verdicts_ok s"
  shows "writes_verdict s s'"
proof -
  let ?t = "vp_target params"
  let ?v0 = "case tr_verdicts s (k, ?t) of None \<Rightarrow> AuditVerdict_zeroed | Some v \<Rightarrow> v"
  obtain r a epoch height quorum v1 v2 slash where h: "tr_runs s k = Some r" "rn_coordinator_account r = account"
      "prog_accounts (tr_program s) account = Some (Initialized a)"
      "verifier_seat X (is_coordinator (ca_state a)) (rn_tie_breaker_committee_size r) x ?t (vp_target_index params) = Ok (epoch, height, quorum)"
      "open_verdict R k ?t epoch height ?v0 = Ok v1"
      "cast_vote clock (rn_challenge_window_seconds r) quorum x params v1 = Ok (v2, slash)"
      "(if slash then cpi (slash_client R k inst account (slash_params (vp_target_index params) v2) (tr_program s)) (set_verdict (k, ?t) v2 s)
        else Ok (set_verdict (k, ?t) v2 s)) = Ok s'"
    using assms(1) unfolding run_submit_audit_verdict_def Let_def rbind_eq_Ok by auto
  note seat = verifier_seat_Ok [OF h(4)] and c = cast_vote_Ok [OF h(6)]
  note o = open_verdict_Ok [OF h(5) verdicts_okD(1) [OF assms(2) h(1)]]
  have s': "tr_runs s' = tr_runs s" "tr_verdicts s' = (tr_verdicts s)((k, ?t) \<mapsto> v2)"
    using h(7) by (auto split: if_splits)
  have ej: "ejects k ?t s s'" if up: "av_status v2 = Upheld"
  proof -
    obtain prog where pr: "slash_client R k inst account (slash_params (vp_target_index params) v2) (tr_program s) = Ok prog" "tr_program s' = prog"
      using h(7) c(15) up by auto
    from slash_client_ejects [OF pr h(1-3)] seat(2,3) show ?thesis
      by (simp add: slash_params_def epoch_clients_def)
  qed
  show ?thesis
  proof (cases "tr_verdicts s (k, ?t)")
    case None
    then have wf: "verdict_wf k ?t v2"
      using vote_wf [OF _ h(6) seat(1)] o(2) by simp
    moreover have "av_status v2 = Voting"
      using None o(2) c(5,14) seat(1) by simp
    ultimately show ?thesis
      by (intro writes_first_verdictI [OF s' _ None])
  next
    case (Some v)
    then have v: "verdict_wf k ?t v"
      using assms(2) by (rule verdicts_okD(2) [rotated])
    then have "v1 = v \<or> is_settled v \<and> dispute v \<noteq> (epoch, height) \<and> v1 = reset_for_round epoch height v"
      using o(3) Some by (simp add: verdict_wf_def)
    then show ?thesis
    proof (elim disjE conjE)
      assume [simp]: "v1 = v"
      have "same_dispute v v2"
        using c v by (auto simp: same_dispute_def status_move_def verdict_wf_def)
      then show ?thesis
        using vote_wf [OF _ h(6) seat(1)] v ej c(12) by (intro writes_verdictI [OF s' _ Some]) (auto simp: advances_def)
    next
      assume n: "is_settled v" "dispute v \<noteq> (epoch, height)" "v1 = reset_for_round epoch height v"
      then have "next_dispute v v2"
        using c(4,5,6,9,14) o(1) seat(1) by (auto simp: next_dispute_def reset_for_round_def)
      moreover have "verdict_wf k ?t v2"
        using vote_wf [OF _ h(6) seat(1)] v n(3) by (simp add: verdict_wf_def reset_for_round_def)
      ultimately show ?thesis
        by (intro writes_verdictI [OF s' _ Some]) (auto simp: advances_def)
    qed
  qed
qed

lemma challenge_writes:
  assumes "run_open_challenge clock x k s = Ok s'" "verdicts_ok s"
  shows "writes_verdict s s'"
proof -
  obtain v v' where h: "tr_verdicts s (k, x) = Some v" "av_status v = SlashPending"
      "v' = v\<lparr>av_status := Challenged, av_challenged_since_unix := clk_unix_timestamp clock, av_challenger := x,
         av_overturn_count := 0, av_uphold_count := 0, av_appeal_voters := []\<rparr>" "s' = set_verdict (k, x) v' s"
    using assms(1) by (auto simp: run_open_challenge_def)
  have v: "verdict_wf k x v"
    using assms(2) h(1) by (rule verdicts_okD)
  have "same_dispute v v'" "verdict_wf k x v'"
    using v h(2) by (auto simp: h(3) same_dispute_def status_move_def dispute_def evidence_def verdict_wf_def)
  then show ?thesis
    using h(2) by (intro writes_verdictI [OF _ _ _ h(1), where v' = v']) (simp_all add: h(3,4) advances_def)
qed

lemma finalize_writes:
  assumes "run_finalize_slash R clock k inst account t i s = Ok s'" "verdicts_ok s"
  shows "writes_verdict s s'"
proof -
  obtain r a v prog where h: "tr_runs s k = Some r" "rn_coordinator_account r = account" "prog_accounts (tr_program s) account = Some (Initialized a)"
      "tr_verdicts s (k, t) = Some v" "check_windows clock r v = Ok ()" "check_target (av_target v) i (is_coordinator (ca_state a)) = Ok ()"
      "slash_client R k inst account (slash_params i v) (tr_program s) = Ok prog"
      "s' = (set_verdict (k, t) (v\<lparr>av_status := Upheld\<rparr>) s)\<lparr>tr_program := prog\<rparr>"
    using assms(1) by (auto simp: run_finalize_slash_def)
  have v: "verdict_wf k t v"
    using assms(2) h(4) by (rule verdicts_okD)
  have st: "av_status v = SlashPending \<or> av_status v = Challenged"
    using h(5) by (auto simp: check_windows_def split: VerdictStatus.splits)
  have "tr_program s' = prog"
    by (simp add: h(8))
  from slash_client_ejects [OF h(7) this h(1-3)] h(6) v have "ejects k t s s'"
    by (simp add: check_target_Ok slash_params_def epoch_clients_def verdict_wf_def)
  moreover have "same_dispute v (v\<lparr>av_status := Upheld\<rparr>)" "verdict_wf k t (v\<lparr>av_status := Upheld\<rparr>)"
    using v st by (auto simp: same_dispute_def status_move_def dispute_def evidence_def verdict_wf_def)
  ultimately show ?thesis
    by (intro writes_verdictI [OF _ _ _ h(4), where v' = "v\<lparr>av_status := Upheld\<rparr>"]) (simp_all add: h(8) advances_def)
qed

lemma appeal_writes:
  assumes "run_submit_appeal_verdict X R x k inst account t i overturn s = Ok s'" "verdicts_ok s"
  shows "writes_verdict s s'"
proof -
  obtain r a v quorum v2 slash where h: "tr_runs s k = Some r" "rn_coordinator_account r = account"
      "prog_accounts (tr_program s) account = Some (Initialized a)" "tr_verdicts s (k, t) = Some v"
      "appeal_quorum X (is_coordinator (ca_state a)) (rn_tie_breaker_committee_size r) x t i = Ok quorum"
      "cast_appeal quorum x t overturn v = Ok (v2, slash)"
      "(if slash then cpi (slash_client R k inst account (slash_params i v2) (tr_program s)) (set_verdict (k, t) v2 s)
        else Ok (set_verdict (k, t) v2 s)) = Ok s'"
    using assms(1) unfolding run_submit_appeal_verdict_def Let_def rbind_eq_Ok by auto
  note c = cast_appeal_Ok [OF h(6)]
  have v: "verdict_wf k t v"
    using assms(2) h(4) by (rule verdicts_okD)
  have s': "tr_runs s' = tr_runs s" "tr_verdicts s' = (tr_verdicts s)((k, t) \<mapsto> v2)"
    using h(7) by (auto split: if_splits)
  have ej: "ejects k t s s'" if up: "av_status v2 = Upheld"
  proof -
    obtain prog where pr: "slash_client R k inst account (slash_params i v2) (tr_program s) = Ok prog" "tr_program s' = prog"
      using h(7) c(15) up by auto
    have "check_target t i (is_coordinator (ca_state a)) = Ok ()"
      using h(5) by (auto simp: appeal_quorum_def)
    with slash_client_ejects [OF pr h(1-3)] show ?thesis
      by (simp add: slash_params_def epoch_clients_def check_target_Ok)
  qed
  have "same_dispute v v2"
    using c by (auto simp: same_dispute_def status_move_def)
  moreover have "verdict_wf k t v2"
    using v c by (auto simp: verdict_wf_def)
  ultimately show ?thesis
    using ej c(12) by (intro writes_verdictI [OF s' _ h(4)]) (auto simp: advances_def)
qed

lemma loser_writes:
  assumes "run_slash_losing_verifier R k inst account t pos s = Ok s'" "verdicts_ok s"
  shows "writes_verdict s s'"
proof -
  obtain r a v loser i prog where h: "tr_runs s k = Some r" "rn_coordinator_account r = account"
      "prog_accounts (tr_program s) account = Some (Initialized a)" "tr_verdicts s (k, t) = Some v" "losing_verifier pos v = Ok loser"
      "slashable_index loser (is_coordinator (ca_state a)) = Ok i"
      "slash_client R k inst account (slash_params i v) (tr_program s) = Ok prog"
      "s' = (set_verdict (k, t) (v\<lparr>av_settled_count := av_settled_count v + 1\<rparr>) s)\<lparr>tr_program := prog\<rparr>"
    using assms(1) by (auto simp: run_slash_losing_verifier_def)
  have v: "verdict_wf k t v"
    using assms(2) h(4) by (rule verdicts_okD)
  have l: "av_status v = Overturned" "av_settled_count v < length (av_voters v)" "loser = av_voters v ! av_settled_count v"
    using h(5) by (auto simp: losing_verifier_def slice_index_def not_le split: if_splits)
  have "tr_program s' = prog"
    by (simp add: h(8))
  moreover have "i < length (epoch_clients a) \<and> signer (client_id (epoch_clients a ! i)) = loser"
    using h(6) by (auto simp: slashable_index_def position_of_def epoch_clients_def dest: find_position_SomeD split: option.splits if_splits)
  ultimately have "ejects k loser s s'"
    using slash_client_ejects [OF h(7) _ h(1-3)] by (simp add: slash_params_def)
  moreover have "same_dispute v (v\<lparr>av_settled_count := av_settled_count v + 1\<rparr>)" "verdict_wf k t (v\<lparr>av_settled_count := av_settled_count v + 1\<rparr>)"
    using v l by (auto simp: same_dispute_def status_move_def dispute_def evidence_def verdict_wf_def)
  ultimately show ?thesis
    using l by (intro writes_verdictI [OF _ _ _ h(4), where v' = "v\<lparr>av_settled_count := av_settled_count v + 1\<rparr>"]) (simp_all add: h(8) advances_def)
qed

text \<open>
  Addresses a program derives lie off the curve, and the default key, all zeros, is a point of it: the
  treasurer relies on this to tell an account it has just created from one in use.
\<close>

definition run_addresses :: "runtime \<Rightarrow> bool" where
  "run_addresses R \<longleftrightarrow> (\<forall>i. fst (find_run R i) \<noteq> Pubkey_default)"

lemma cpi_verdicts:
  "cpi call s = Ok s' \<Longrightarrow> tr_verdicts s' = tr_verdicts s \<and> tr_runs s' = tr_runs s"
  by auto

lemma update_verdicts:
  "run_update X R clock x run inst account params s = Ok s' \<Longrightarrow> tr_verdicts s' = tr_verdicts s \<and> tr_runs s' = tr_runs s"
  by (auto simp: run_update_def split: if_splits option.splits)

lemma slash_verdicts:
  "run_slash R x run inst account params s = Ok s' \<Longrightarrow> tr_verdicts s' = tr_verdicts s \<and> tr_runs s' = tr_runs s"
  by (auto simp: run_slash_def)

definition same_verdicts :: "treasury \<Rightarrow> treasury \<Rightarrow> bool" where
  "same_verdicts s s' \<longleftrightarrow> tr_verdicts s' = tr_verdicts s \<and> (\<forall>k. tr_runs s' k \<noteq> None \<longrightarrow> tr_runs s k \<noteq> None)"

lemma config_verdicts:
  "participant_authorize_join R clock user run s = Ok s' \<Longrightarrow> same_verdicts s s'"
  "run_bond_config_update x run minimum delay s = Ok s' \<Longrightarrow> same_verdicts s s'"
  "run_set_challenge_config x run window n window' s = Ok s' \<Longrightarrow> same_verdicts s s'"
  "run_set_slash_bounty x run bps s = Ok s' \<Longrightarrow> same_verdicts s s'"
  by (auto simp: same_verdicts_def participant_authorize_join_def run_bond_config_update_def run_set_challenge_config_def
      run_set_slash_bounty_def split: if_splits)

lemma participant_verdicts:
  "participant_create R user run s = Ok s' \<Longrightarrow> same_verdicts s s'"
  "participant_bond_deposit R user wallet run vault n s = Ok s' \<Longrightarrow> same_verdicts s s'"
  "participant_bond_request_withdraw clock user run n s = Ok s' \<Longrightarrow> same_verdicts s s'"
  "participant_claim R user wallet run vault account n s = Ok s' \<Longrightarrow> same_verdicts s s'"
  "participant_bond_finalize_withdraw R clock user wallet run vault account appeal rs s = Ok s' \<Longrightarrow> same_verdicts s s'"
  by (auto simp: same_verdicts_def elim!: participant_create_Ok participant_bond_deposit_Ok participant_bond_request_withdraw_Ok
      participant_claim_Ok participant_bond_finalize_withdraw_Ok split: if_splits)

lemma treasury_step_verdicts:
  assumes "treasury_step X R sz s s'" "verdicts_ok s" "run_addresses R"
  shows "writes_verdict s s' \<or> tr_verdicts s' = tr_verdicts s \<and> tr_runs s' Pubkey_default = None"
proof -
  have d: "tr_runs s Pubkey_default = None"
    using assms(2) by (simp add: verdicts_ok_def)
  then have same: "same_verdicts s s' \<Longrightarrow> ?thesis"
    by (auto simp: same_verdicts_def)
  from assms(1) show ?thesis
  proof (cases rule: treasury_step.cases)
    case (ts_run_create mint inst account index run_id version main join)
    obtain run bump where k: "find_run R index = (run, bump)" "run \<noteq> Pubkey_default"
      using assms(3) unfolding run_addresses_def by (metis prod.collapse)
    have "tr_verdicts s' = tr_verdicts s \<and> tr_runs s' Pubkey_default = None"
      using d ts_run_create k(2) unfolding run_create_def k(1) Let_def prod.case by auto
    then show ?thesis ..
  qed (auto simp: d dest!: config_verdicts participant_verdicts dest: same vote_writes [OF _ assms(2)] challenge_writes [OF _ assms(2)] finalize_writes [OF _ assms(2)] appeal_writes [OF _ assms(2)]
        loser_writes [OF _ assms(2)] update_verdicts slash_verdicts)
qed

lemma verdicts_ok_step:
  assumes "treasury_step X R sz s s'" "verdicts_ok s" "run_addresses R"
  shows "verdicts_ok s'"
  using treasury_step_verdicts [OF assms] assms(2) by (auto simp: writes_verdict_def verdicts_ok_def split: if_splits)

lemma verdicts_ok_steps: "(treasury_step X R sz)\<^sup>*\<^sup>* s s' \<Longrightarrow> run_addresses R \<Longrightarrow> verdicts_ok s \<Longrightarrow> verdicts_ok s'"
  by (induction rule: rtranclp_induct) (auto intro: verdicts_ok_step)

lemma verdict_advances:
  assumes "treasury_step X R sz s s'" "verdicts_ok s" "run_addresses R" "tr_verdicts s (k, t) = Some v"
  shows "\<exists>v'. tr_verdicts s' (k, t) = Some v' \<and> advances k t s s' v v'"
proof -
  have r: "advances k t s s' v v"
    by (simp add: advances_def same_dispute_refl)
  show ?thesis
    using treasury_step_verdicts [OF assms(1-3)] assms(4) r by (fastforce simp: writes_verdict_def)
qed

lemma empty_treasury_verdicts: "verdicts_ok (empty_treasury L auths)"
  by (simp add: verdicts_ok_def empty_treasury_def)

text \<open>
  (C18) The life of a verdict. In every state the treasury can reach, one instruction moves the verdict
  about a client along its dispute (voting, pending, challenged, upheld or overturned, with voters and
  tie breakers only added and the evidence fixed), or opens the next dispute over one that is settled. A
  verdict becomes upheld only in a transaction that ejects the client it is about from the epoch of the
  coordinator, and a losing verifier is counted as settled only in one that ejects that verifier. The
  hypothesis on the state holds in an empty treasury.
\<close>

theorem verdict_life:
  assumes "run_addresses R" "verdicts_ok t0" "(treasury_step X R sz)\<^sup>*\<^sup>* t0 s"
    "treasury_step X R sz s s'" "tr_verdicts s (k, t) = Some v"
  shows "verdicts_ok (empty_treasury L auths) \<and> (\<exists>v'. tr_verdicts s' (k, t) = Some v' \<and> advances k t s s' v v')"
  using verdict_advances [OF assms(4) verdicts_ok_steps [OF assms(3,1,2)] assms(1,5)] empty_treasury_verdicts by blast

text \<open>
  (C19) The type of a verdict. In every state the treasury can reach the account of a verdict names the
  run and target it is derived from, its voters and tie breakers are distinct keys without overlap, the
  counters agree with the lists and fit their \<open>u16\<close>, only a conviction by at least two verifiers leaves the
  voting state, and the serialised account fits the space allocated for it.
\<close>

theorem verdict_typed:
  assumes "run_addresses R" "verdicts_ok t0" "(treasury_step X R sz)\<^sup>*\<^sup>* t0 s" "tr_verdicts s (k, t) = Some v"
  shows "verdict_wf k t v \<and> verdict_size v \<le> AuditVerdict_space_with_discriminator
     \<and> av_verdict_count v < 2 ^ 16 \<and> av_overturn_count v < 2 ^ 16 \<and> av_uphold_count v < 2 ^ 16 \<and> av_settled_count v < 2 ^ 16"
proof -
  have "verdict_wf k t v"
    using verdicts_okD(2) [OF verdicts_ok_steps [OF assms(3,1,2)] assms(4)] .
  then show ?thesis
    by (auto simp: verdict_wf_def verdict_size_def AuditVerdict_space_with_discriminator_def MAX_VERDICT_VOTERS_def MAX_APPEAL_VOTERS_def)
qed

text \<open>A conviction of one client by two verifiers that waits for its challenge window, and is challenged.\<close>

definition demo_verdict :: AuditVerdict where
  "demo_verdict = AuditVerdict_zeroed\<lparr>av_bump := 255, av_run := [8], av_target := [1], av_epoch := 1, av_round_height := 2,
     av_status := SlashPending, av_verdict_count := 2, av_pending_since_unix := 1000, av_voters := [[2], [3]]\<rparr>"

definition demo_disputed :: treasury where
  "demo_disputed = demo_funded\<lparr>tr_runs := [[8] \<mapsto> demo_funded_run\<lparr>rn_challenge_window_seconds := 60\<rparr>],
     tr_verdicts := [([8], [1]) \<mapsto> demo_verdict]\<rparr>"

definition demo_challenge :: treasury where
  "demo_challenge = set_verdict ([8], [1]) (demo_verdict\<lparr>av_status := Challenged, av_challenged_since_unix := 1030, av_challenger := [1]\<rparr>)
     demo_disputed"

lemma not_default: "length k \<noteq> 32 \<Longrightarrow> k \<noteq> Pubkey_default" "length k \<noteq> 32 \<Longrightarrow> Pubkey_default \<noteq> k"
  by (auto simp: Pubkey_default_def)

lemma demo_run_addresses: "run_addresses demo_runtime"
  by (simp add: run_addresses_def find_run_def demo_runtime_def not_default str_bytes_def)

lemma demo_disputed_ok: "verdicts_ok demo_disputed"
  by (simp add: verdicts_ok_def demo_disputed_def demo_funded_def not_default verdict_wf_def demo_verdict_def AuditVerdict_zeroed_def
      MAX_VERDICT_VOTERS_def)

lemma demo_challenge_step: "treasury_step X demo_runtime 100 demo_disputed demo_challenge"
proof (rule ts_challenge)
  show "tr_runs demo_disputed [1] = None"
    by (simp add: demo_disputed_def)
  show "run_open_challenge \<lparr>clk_unix_timestamp = 1030, clk_slot = 0\<rparr> [1] [8] demo_disputed = Ok demo_challenge"
    by (simp add: run_open_challenge_def demo_disputed_def demo_challenge_def demo_funded_def demo_funded_run_def demo_participant_def
        demo_verdict_def AuditVerdict_zeroed_def set_verdict_def tfail_def rust_ctrl rust_arith del: rbind_eq_Ok)
qed

theorem verdict_life_witness:
  "\<exists>v'. tr_verdicts demo_challenge ([8], [1]) = Some v' \<and> av_status v' = Challenged
     \<and> advances [8] [1] demo_disputed demo_challenge demo_verdict v'"
proof -
  have "tr_verdicts demo_disputed ([8], [1]) = Some demo_verdict"
    by (simp add: demo_disputed_def)
  from verdict_life [OF demo_run_addresses demo_disputed_ok rtranclp.rtrancl_refl demo_challenge_step this, where L = Map.empty and auths = demo_auths]
  show ?thesis
    by (auto simp: demo_challenge_def)
qed

theorem verdict_typed_witness:
  "\<exists>v. tr_verdicts demo_challenge ([8], [1]) = Some v \<and> verdict_wf [8] [1] v \<and> verdict_size v = 296
     \<and> verdict_size v \<le> AuditVerdict_space_with_discriminator"
proof -
  obtain v where v: "tr_verdicts demo_challenge ([8], [1]) = Some v" "verdict_size v = 296"
    by (simp add: demo_challenge_def demo_verdict_def AuditVerdict_zeroed_def verdict_size_def)
  have "(treasury_step demo_X demo_runtime 100)\<^sup>*\<^sup>* demo_disputed demo_challenge"
    using demo_challenge_step by (rule r_into_rtranclp)
  from verdict_typed [OF demo_run_addresses demo_disputed_ok this v(1)] v show ?thesis
    by blast
qed

end
