(* ===== verification/Interval_Tree.thy ===== *)
theory Interval_Tree
  imports Rust_Prelude
begin

text \<open>
  Ordered maps of the standard library, and what shared/core builds from them: closed intervals, the
  interval tree, batch ids with their textual form, and the bounded queue.
\<close>

section \<open>Ordered maps\<close>

text \<open>A \<open>BTreeMap\<close> is the list of its entries in the order of the keys.\<close>

type_synonym ('k, 'v) btree = "('k \<times> 'v) list"

fun bt_insert :: "'k::linorder \<Rightarrow> 'v \<Rightarrow> ('k, 'v) btree \<Rightarrow> ('k, 'v) btree" where
  "bt_insert k v [] = [(k, v)]"
| "bt_insert k v ((k', v') # xs) =
     (if k < k' then (k, v) # (k', v') # xs else if k = k' then (k, v) # xs else (k', v') # bt_insert k v xs)"

definition bt_remove :: "'k \<Rightarrow> ('k, 'v) btree \<Rightarrow> ('k, 'v) btree" where
  "bt_remove k t = filter (\<lambda>e. fst e \<noteq> k) t"

text \<open>\<open>range(..=k).next_back()\<close> and \<open>range(k..).next()\<close>.\<close>

definition bt_last_upto :: "'k::linorder \<Rightarrow> ('k, 'v) btree \<Rightarrow> ('k \<times> 'v) option" where
  "bt_last_upto k t = find (\<lambda>e. fst e \<le> k) (rev t)"

definition bt_first_from :: "'k::linorder \<Rightarrow> ('k, 'v) btree \<Rightarrow> ('k \<times> 'v) option" where
  "bt_first_from k t = find (\<lambda>e. k \<le> fst e) t"

definition bt_wf :: "('k::linorder, 'v) btree \<Rightarrow> bool" where
  "bt_wf t \<longleftrightarrow> sorted_wrt (<) (map fst t)"

section \<open>Intervals\<close>

record 'a ClosedInterval =
  iv_start :: 'a
  iv_end :: 'a

definition iv_new :: "'a::linorder \<Rightarrow> 'a \<Rightarrow> ('e, 'a ClosedInterval) res" where
  "iv_new s e = rbind (assert_ok (s \<le> e)) (\<lambda>_. Ok \<lparr>iv_start = s, iv_end = e\<rparr>)"

definition iv_contains :: "'a::linorder ClosedInterval \<Rightarrow> 'a \<Rightarrow> bool" where
  "iv_contains i p \<longleftrightarrow> iv_start i \<le> p \<and> p \<le> iv_end i"

definition iv_overlaps :: "'a::linorder ClosedInterval \<Rightarrow> 'a ClosedInterval \<Rightarrow> bool" where
  "iv_overlaps i j \<longleftrightarrow> iv_start i \<le> iv_end j \<and> iv_start j \<le> iv_end i"

type_synonym ('a, 'v) interval_tree = "('a, 'a ClosedInterval \<times> 'v) btree"

datatype OverlappingInterval = OverlappingInterval

definition it_insert ::
  "'a::linorder ClosedInterval \<Rightarrow> 'v \<Rightarrow> ('a, 'v) interval_tree \<Rightarrow> (OverlappingInterval, ('a, 'v) interval_tree) res" where
  "it_insert i v t =
     rbind (case bt_last_upto (iv_start i) t of
              Some (_, (e, _)) \<Rightarrow> guard_err (iv_start i \<le> iv_end e) OverlappingInterval
            | None \<Rightarrow> Ok ()) (\<lambda>_.
     rbind (case bt_first_from (iv_start i) t of
              Some (_, (e, _)) \<Rightarrow> guard_err (iv_start e \<le> iv_end i) OverlappingInterval
            | None \<Rightarrow> Ok ()) (\<lambda>_.
       Ok (bt_insert (iv_start i) (i, v) t)))"

definition it_get :: "'a::linorder \<Rightarrow> ('a, 'v) interval_tree \<Rightarrow> 'v option" where
  "it_get p t = (case bt_last_upto p t of
       Some (_, (e, v)) \<Rightarrow> if iv_contains e p then Some v else None
     | None \<Rightarrow> None)"

definition it_remove :: "'a::linorder ClosedInterval \<Rightarrow> ('a, 'v) interval_tree \<Rightarrow> 'v option \<times> ('a, 'v) interval_tree" where
  "it_remove i t =
     (case map_of t (iv_start i) of
        Some (e, v) \<Rightarrow> (if e = i then Some v else None)
      | None \<Rightarrow> None, bt_remove (iv_start i) t)"

definition it_iter :: "('a, 'v) interval_tree \<Rightarrow> ('a ClosedInterval \<times> 'v) list" where
  "it_iter t = map snd t"

section \<open>Batch ids\<close>

datatype BatchId = BatchId "nat ClosedInterval"

primrec bid_interval :: "BatchId \<Rightarrow> nat ClosedInterval" where
  "bid_interval (BatchId i) = i"

text \<open>The derived order: by the start of the interval, then by its end.\<close>

instantiation BatchId :: linorder
begin

definition less_eq_BatchId :: "BatchId \<Rightarrow> BatchId \<Rightarrow> bool" where
  "less_eq_BatchId a b \<longleftrightarrow> iv_start (bid_interval a) < iv_start (bid_interval b)
     \<or> iv_start (bid_interval a) = iv_start (bid_interval b) \<and> iv_end (bid_interval a) \<le> iv_end (bid_interval b)"

definition less_BatchId :: "BatchId \<Rightarrow> BatchId \<Rightarrow> bool" where
  "less_BatchId a b \<longleftrightarrow> a \<le> b \<and> \<not> b \<le> a"

instance
proof
  fix a b c :: BatchId
  show "(a < b) = (a \<le> b \<and> \<not> b \<le> a)" "a \<le> a" "a \<le> b \<or> b \<le> a"
    by (auto simp: less_eq_BatchId_def less_BatchId_def)
  show "a \<le> b \<Longrightarrow> b \<le> c \<Longrightarrow> a \<le> c"
    by (auto simp: less_eq_BatchId_def)
  show "a = b" if "a \<le> b" "b \<le> a"
  proof -
    have "bid_interval a = bid_interval b"
      using that by (intro ClosedInterval.equality) (auto simp: less_eq_BatchId_def)
    then show ?thesis by (cases a; cases b) simp
  qed
qed

end

definition bid_iter :: "BatchId \<Rightarrow> nat list" where
  "bid_iter b = [iv_start (bid_interval b)..<Suc (iv_end (bid_interval b))]"

definition bid_len :: "BatchId \<Rightarrow> ('e, nat) res" where
  "bid_len b = rbind (u_sub (iv_end (bid_interval b)) (iv_start (bid_interval b))) (\<lambda>n. u_add 64 n 1)"

text \<open>Numbers are printed in decimal. Parsing one accepts a plus sign and at least one digit, within \<open>u64\<close>.\<close>

definition digit_char :: "nat \<Rightarrow> char" where
  "digit_char d = char_of (48 + d)"

fun display_nat :: "nat \<Rightarrow> string" where
  "display_nat n = (if n < 10 then [digit_char n] else display_nat (n div 10) @ [digit_char (n mod 10)])"

definition digit_value :: "char \<Rightarrow> nat option" where
  "digit_value c = (let n = of_char c in if 48 \<le> n \<and> n \<le> (57::nat) then Some (n - 48) else None)"

primrec parse_digits :: "nat \<Rightarrow> string \<Rightarrow> nat option" where
  "parse_digits acc [] = Some acc"
| "parse_digits acc (c # cs) = (case digit_value c of
       Some d \<Rightarrow> if acc * 10 + d < 2 ^ 64 then parse_digits (acc * 10 + d) cs else None
     | None \<Rightarrow> None)"

definition u64_from_str :: "string \<Rightarrow> nat option" where
  "u64_from_str s = (let ds = (case s of c # cs \<Rightarrow> if c = CHR ''+'' then cs else s | [] \<Rightarrow> []) in
     if ds = [] then None else parse_digits 0 ds)"

definition display_interval :: "nat ClosedInterval \<Rightarrow> string" where
  "display_interval i = (if iv_start i = iv_end i then display_nat (iv_start i)
     else ''['' @ display_nat (iv_start i) @ '', '' @ display_nat (iv_end i) @ '']'')"

definition BatchId_display :: "BatchId \<Rightarrow> string" where
  "BatchId_display b = ''B'' @ display_interval (bid_interval b)"

text \<open>A slice \<open>s[a..b]\<close>, which panics when it ends before it starts or after the string.\<close>

definition str_slice :: "string \<Rightarrow> nat \<Rightarrow> nat \<Rightarrow> ('e, string) res" where
  "str_slice s a b = (if a \<le> b \<and> b \<le> length s then Ok (take (b - a) (drop a s)) else Panic)"

definition BatchId_from_str :: "string \<Rightarrow> (string, BatchId) res" where
  "BatchId_from_str text =
     (let s = dropWhile (\<lambda>c. c = CHR ''B'') text in
      rbind (ok_or ''Missing '[' in input'' (find_position (\<lambda>c. c = CHR ''['') s)) (\<lambda>start_bracket.
      rbind (ok_or ''Missing ',' in input'' (find_position (\<lambda>c. c = CHR '','') s)) (\<lambda>comma.
      rbind (ok_or ''Missing ']' in input'' (find_position (\<lambda>c. c = CHR '']'') s)) (\<lambda>end_bracket.
      rbind (str_slice s (start_bracket + 1) comma) (\<lambda>a.
      rbind (ok_or ''Failed to parse start value'' (u64_from_str a)) (\<lambda>x.
      rbind (str_slice s (comma + 1) end_bracket) (\<lambda>b.
      rbind (ok_or ''Failed to parse end value'' (u64_from_str b)) (\<lambda>y.
        Ok (BatchId \<lparr>iv_start = x, iv_end = y\<rparr>)))))))))"

section \<open>Bounded queues\<close>

definition bq_push :: "nat \<Rightarrow> 'a \<Rightarrow> 'a list \<Rightarrow> 'a list" where
  "bq_push u item queue = (let q = queue @ [item] in if u < length q then tl q else q)"

section \<open>Lemmas on ordered maps\<close>

lemma bt_wf_Cons [simp]: "bt_wf (e # t) \<longleftrightarrow> (\<forall>x\<in>set t. fst e < fst x) \<and> bt_wf t"
  by (auto simp: bt_wf_def)

lemma bt_wf_Nil [simp]: "bt_wf []"
  by (simp add: bt_wf_def)

lemma set_bt_insert: "bt_wf t \<Longrightarrow> set (bt_insert k v t) = insert (k, v) {e \<in> set t. fst e \<noteq> k}"
  by (induction k v t rule: bt_insert.induct) (auto split: if_splits)

lemma bt_wf_insert: "bt_wf t \<Longrightarrow> bt_wf (bt_insert k v t)"
proof (induction k v t rule: bt_insert.induct)
  case (2 k v k' v' xs)
  then show ?case by (auto simp: set_bt_insert)
qed simp

lemma set_bt_remove [simp]: "set (bt_remove k t) = {e \<in> set t. fst e \<noteq> k}"
  by (auto simp: bt_remove_def)

lemma bt_wf_remove: "bt_wf t \<Longrightarrow> bt_wf (bt_remove k t)"
  by (induction t) (auto simp: bt_remove_def)

lemma bt_wf_distinct: "bt_wf t \<Longrightarrow> distinct (map fst t)"
  by (induction t) auto

lemma bt_wf_unique: "bt_wf t \<Longrightarrow> (k, v) \<in> set t \<Longrightarrow> (k, w) \<in> set t \<Longrightarrow> v = w"
  by (metis bt_wf_distinct eq_key_imp_eq_value)

lemma find_append: "find P (xs @ ys) = (case find P xs of Some e \<Rightarrow> Some e | None \<Rightarrow> find P ys)"
  by (induction xs) auto

lemma bt_last_upto_append: "bt_last_upto k (xs @ ys) = (case bt_last_upto k ys of Some e \<Rightarrow> Some e | None \<Rightarrow> bt_last_upto k xs)"
  by (simp add: bt_last_upto_def find_append split: option.splits)

lemma bt_last_upto_None: "bt_last_upto k t = None \<longleftrightarrow> (\<forall>e\<in>set t. \<not> fst e \<le> k)"
  by (auto simp: bt_last_upto_def find_None_iff)

lemma bt_last_upto_Some:
  "bt_wf t \<Longrightarrow> bt_last_upto k t = Some e \<Longrightarrow> e \<in> set t \<and> fst e \<le> k \<and> (\<forall>x\<in>set t. fst x \<le> k \<longrightarrow> fst x \<le> fst e)"
proof (induction t)
  case (Cons x t)
  show ?case
  proof (cases "bt_last_upto k t")
    case None
    then have "e = x" "fst x \<le> k"
      using Cons.prems(2) bt_last_upto_append [of k "[x]" t] by (auto simp: bt_last_upto_def split: if_splits)
    then show ?thesis
      using None by (auto simp: bt_last_upto_None)
  next
    case (Some f)
    then have "f = e"
      using Cons.prems(2) bt_last_upto_append [of k "[x]" t] by simp
    then show ?thesis
      using Cons.IH Cons.prems(1) Some by force
  qed
qed (simp add: bt_last_upto_def)

lemma bt_first_from_None: "bt_first_from k t = None \<longleftrightarrow> (\<forall>e\<in>set t. \<not> k \<le> fst e)"
  by (auto simp: bt_first_from_def find_None_iff)

lemma bt_first_from_Some:
  "bt_wf t \<Longrightarrow> bt_first_from k t = Some e \<Longrightarrow> e \<in> set t \<and> k \<le> fst e \<and> (\<forall>x\<in>set t. k \<le> fst x \<longrightarrow> fst e \<le> fst x)"
  by (induction t) (force simp: bt_first_from_def split: if_splits)+

section \<open>The interval tree\<close>

definition it_wf :: "('a::linorder, 'v) interval_tree \<Rightarrow> bool" where
  "it_wf t \<longleftrightarrow> bt_wf t \<and> (\<forall>k e v. (k, e, v) \<in> set t \<longrightarrow> k = iv_start e \<and> iv_start e \<le> iv_end e)
     \<and> (\<forall>k e v k' e' v'. (k, e, v) \<in> set t \<and> (k', e', v') \<in> set t \<and> k < k' \<longrightarrow> iv_end e < k')"

lemma it_wfD:
  assumes "it_wf t"
  shows "bt_wf t" "(k, e, v) \<in> set t \<Longrightarrow> k = iv_start e" "(k, e, v) \<in> set t \<Longrightarrow> iv_start e \<le> iv_end e"
    "(k, e, v) \<in> set t \<Longrightarrow> (k', e', v') \<in> set t \<Longrightarrow> k < k' \<Longrightarrow> iv_end e < k'"
  using assms unfolding it_wf_def by blast+

lemma it_get_iff:
  assumes "it_wf t"
  shows "it_get p t = Some v \<longleftrightarrow> (\<exists>k e. (k, e, v) \<in> set t \<and> iv_contains e p)"
proof
  assume "it_get p t = Some v"
  then obtain k e where "bt_last_upto p t = Some (k, e, v)" "iv_contains e p"
    by (auto simp: it_get_def split: option.splits if_splits)
  then show "\<exists>k e. (k, e, v) \<in> set t \<and> iv_contains e p"
    using bt_last_upto_Some [OF it_wfD(1) [OF assms]] by blast
next
  assume "\<exists>k e. (k, e, v) \<in> set t \<and> iv_contains e p"
  then obtain k e where e: "(k, e, v) \<in> set t" "iv_contains e p"
    by blast
  have kp: "k \<le> p"
    using it_wfD(2) [OF assms e(1)] e(2) by (simp add: iv_contains_def)
  then obtain k2 e2 v2 where l: "bt_last_upto p t = Some (k2, e2, v2)"
    using e(1) bt_last_upto_None [of p t] by (metis fst_conv not_None_eq prod_cases3)
  note m = bt_last_upto_Some [OF it_wfD(1) [OF assms] l]
  have "k \<le> k2"
    using m e(1) kp by force
  moreover have "\<not> k < k2"
    using it_wfD(4) [OF assms e(1), of k2 e2 v2] m e(2) by (auto simp: iv_contains_def)
  ultimately have "(e2, v2) = (e, v)"
    using bt_wf_unique [OF it_wfD(1) [OF assms], of k "(e, v)" "(e2, v2)"] e(1) m by auto
  then show "it_get p t = Some v"
    using l e(2) by (simp add: it_get_def)
qed

lemma it_get_None_iff: "it_wf t \<Longrightarrow> it_get p t = None \<longleftrightarrow> (\<forall>k e v. (k, e, v) \<in> set t \<longrightarrow> \<not> iv_contains e p)"
  using it_get_iff by (metis not_None_eq)

lemma overlap_point:
  "iv_start i \<le> iv_end i \<Longrightarrow> iv_start e \<le> iv_end e \<Longrightarrow> iv_overlaps e i \<longleftrightarrow> (\<exists>p. iv_contains i p \<and> iv_contains e p)"
  by (auto simp: iv_overlaps_def iv_contains_def intro!: exI [of _ "max (iv_start i) (iv_start e)"])

lemma it_insert_Ok_iff:
  assumes "it_wf t" "iv_start i \<le> iv_end i"
  shows "it_insert i v t = (if \<exists>k e w. (k, e, w) \<in> set t \<and> iv_overlaps e i then Err OverlappingInterval
           else Ok (bt_insert (iv_start i) (i, v) t))"
proof (cases "\<exists>k e w. (k, e, w) \<in> set t \<and> iv_overlaps e i")
  case True
  then obtain k e w where e: "(k, e, w) \<in> set t" "iv_overlaps e i"
    by blast
  have k: "k = iv_start e"
    by (rule it_wfD(2) [OF assms(1) e(1)])
  show ?thesis
  proof (cases "k \<le> iv_start i")
    case True
    then obtain k2 e2 v2 where l: "bt_last_upto (iv_start i) t = Some (k2, e2, v2)"
      using e(1) bt_last_upto_None [of "iv_start i" t] by (metis fst_conv not_None_eq prod_cases3)
    note m = bt_last_upto_Some [OF it_wfD(1) [OF assms(1)] l]
    have "k \<le> k2"
      using m e(1) True by force
    moreover have "\<not> k < k2"
      using m e(2) it_wfD(4) [OF assms(1) e(1), of k2 e2 v2] by (auto simp: iv_overlaps_def)
    ultimately have "(e2, v2) = (e, w)"
      using bt_wf_unique [OF it_wfD(1) [OF assms(1)], of k "(e, w)" "(e2, v2)"] e(1) m by auto
    then have "iv_start i \<le> iv_end e2"
      using e(2) by (simp add: iv_overlaps_def)
    then show ?thesis
      using l \<open>\<exists>k e w. (k, e, w) \<in> set t \<and> iv_overlaps e i\<close> by (auto simp: it_insert_def guard_err_def)
  next
    case False
    then obtain k2 e2 v2 where l: "bt_first_from (iv_start i) t = Some (k2, e2, v2)"
      using e(1) bt_first_from_None [of "iv_start i" t] by (metis fst_conv not_None_eq prod_cases3 linear)
    note m = bt_first_from_Some [OF it_wfD(1) [OF assms(1)] l]
    have "k2 \<le> k"
      using m e(1) False by force
    then have "iv_start e2 \<le> iv_end i"
      using e(2) k it_wfD(2) [OF assms(1), of k2 e2 v2] m by (auto simp: iv_overlaps_def)
    then show ?thesis
      using l \<open>\<exists>k e w. (k, e, w) \<in> set t \<and> iv_overlaps e i\<close> by (auto simp: it_insert_def guard_err_def split: option.splits)
  qed
next
  case False
  then have no: "(k, e, w) \<in> set t \<Longrightarrow> \<not> iv_overlaps e i" for k e w
    by blast
  have "\<not> iv_start i \<le> iv_end e" if l: "bt_last_upto (iv_start i) t = Some (k, e, w)" for k e w
  proof -
    have m: "(k, e, w) \<in> set t" "k \<le> iv_start i"
      using bt_last_upto_Some [OF it_wfD(1) [OF assms(1)] l] by auto
    then have "iv_start e \<le> iv_end i"
      using it_wfD(2) [OF assms(1) m(1)] assms(2) by (metis order_trans)
    then show ?thesis
      using no [OF m(1)] by (simp add: iv_overlaps_def)
  qed
  moreover have "\<not> iv_start e \<le> iv_end i" if l: "bt_first_from (iv_start i) t = Some (k, e, w)" for k e w
  proof -
    have m: "(k, e, w) \<in> set t" "iv_start i \<le> k"
      using bt_first_from_Some [OF it_wfD(1) [OF assms(1)] l] by auto
    then have "iv_start i \<le> iv_end e"
      using it_wfD(2,3) [OF assms(1) m(1)] by (metis order_trans)
    then show ?thesis
      using no [OF m(1)] by (simp add: iv_overlaps_def)
  qed
  ultimately show ?thesis
    using False by (auto simp: it_insert_def guard_err_def split: option.splits)
qed

lemma it_insert_wf:
  assumes "it_wf t" "iv_start i \<le> iv_end i" "\<And>k e w. (k, e, w) \<in> set t \<Longrightarrow> \<not> iv_overlaps e i"
  shows "it_wf (bt_insert (iv_start i) (i, v) t)"
  unfolding it_wf_def set_bt_insert [OF it_wfD(1) [OF assms(1)]]
proof (intro conjI allI impI)
  show "bt_wf (bt_insert (iv_start i) (i, v) t)"
    by (rule bt_wf_insert [OF it_wfD(1) [OF assms(1)]])
  fix k e w assume e: "(k, e, w) \<in> insert (iv_start i, i, v) {e \<in> set t. fst e \<noteq> iv_start i}"
  show "k = iv_start e" "iv_start e \<le> iv_end e"
    using e assms(2) it_wfD(2,3) [OF assms(1), of k e w] by auto
next
  fix k e w k' e' w'
  assume h: "(k, e, w) \<in> insert (iv_start i, i, v) {e \<in> set t. fst e \<noteq> iv_start i} \<and>
      (k', e', w') \<in> insert (iv_start i, i, v) {e \<in> set t. fst e \<noteq> iv_start i} \<and> k < k'"
  have "iv_end i < k'" if "(k', e', w') \<in> set t" "iv_start i < k'"
    using assms(3) [OF that(1)] it_wfD(2,3) [OF assms(1) that(1)] that(2) by (force simp: iv_overlaps_def)
  moreover have "iv_end e < iv_start i" if "(k, e, w) \<in> set t" "k < iv_start i"
    using assms(3) [OF that(1)] it_wfD(2,3) [OF assms(1) that(1)] that(2) assms(2) by (force simp: iv_overlaps_def)
  ultimately show "iv_end e < k'"
    using h it_wfD(4) [OF assms(1), of k e w k' e' w'] by auto
qed


text \<open>Removing an interval that is not stored, but starts where one does, loses the stored one silently.\<close>

lemma it_remove_other:
  assumes "it_wf t" "(iv_start i, e, v) \<in> set t" "e \<noteq> i"
  shows "\<exists>t'. it_remove i t = (None, t') \<and> it_get (iv_start i) t = Some v \<and> it_get (iv_start i) t' = None"
proof -
  have m: "map_of t (iv_start i) = Some (e, v)"
    using assms(2) bt_wf_distinct [OF it_wfD(1) [OF assms(1)]] by simp
  have c: "iv_contains e (iv_start i)"
    using it_wfD(2,3) [OF assms(1,2)] by (simp add: iv_contains_def)
  have wf: "it_wf (bt_remove (iv_start i) t)"
    using assms(1) bt_wf_remove [of t "iv_start i"] unfolding it_wf_def set_bt_remove by blast
  have "\<not> iv_contains e' (iv_start i)" if "(k', e', w) \<in> set t" "k' \<noteq> iv_start i" for k' e' w
    using it_wfD(2) [OF assms(1) that(1)] it_wfD(4) [OF assms(1) that(1) assms(2)] that(2)
    by (cases k' "iv_start i" rule: linorder_cases) (auto simp: iv_contains_def)
  then have "it_get (iv_start i) (bt_remove (iv_start i) t) = None"
    by (auto simp: it_get_None_iff [OF wf])
  moreover have "it_get (iv_start i) t = Some v"
    using c assms(2) by (auto simp: it_get_iff [OF assms(1)])
  ultimately show ?thesis
    using m assms(3) by (simp add: it_remove_def)
qed


section \<open>Batch ids do not survive their textual form\<close>

declare display_nat.simps [simp del]

lemma display_nat_digits: "\<forall>c\<in>set (display_nat n). \<exists>d<10. c = digit_char d"
proof (induction n rule: display_nat.induct)
  case (1 n)
  show ?case
  proof (cases "n < 10")
    case False
    then have "set (display_nat n) = set (display_nat (n div 10)) \<union> {digit_char (n mod 10)}"
      by (subst display_nat.simps) simp
    then show ?thesis
      using 1 [OF False] by (auto intro!: exI [of _ "n mod 10"])
  qed (auto simp: display_nat.simps)
qed

lemma digit_char_not:
  assumes "d < 10"
  shows "digit_char d \<noteq> CHR ''B''" "digit_char d \<noteq> CHR ''[''" "digit_char d \<noteq> CHR '',''" "digit_char d \<noteq> CHR '']''"
proof -
  have "d \<in> {0, 1, 2, 3, 4, 5, 6, 7, 8, 9}"
    using assms by auto
  then show "digit_char d \<noteq> CHR ''B''" "digit_char d \<noteq> CHR ''[''" "digit_char d \<noteq> CHR '',''" "digit_char d \<noteq> CHR '']''"
    by (auto simp: digit_char_def char_of_def bit_simps)
qed

lemma display_nat_avoids:
  "CHR ''B'' \<notin> set (display_nat n)" "CHR ''['' \<notin> set (display_nat n)" "CHR '','' \<notin> set (display_nat n)" "CHR '']'' \<notin> set (display_nat n)"
  using display_nat_digits [of n] digit_char_not by metis+

lemma find_position_skip: "c \<notin> set xs \<Longrightarrow> find_position (\<lambda>x. x = c) (xs @ c # ys) = Some (length xs)"
  by (induction xs) auto

lemma dropWhile_B: "CHR ''B'' \<notin> set s \<Longrightarrow> dropWhile (\<lambda>c. c = CHR ''B'') (''B'' @ s) = s"
  by (cases s) auto

text \<open>
  No batch id can be read back from its textual form: a batch of one element is printed without
  brackets, which the parser requires, and in any other the parser trips over the blank after the comma.
\<close>

theorem batch_id_unparseable: "\<exists>e. BatchId_from_str (BatchId_display b) = Err e"
proof (cases "iv_start (bid_interval b) = iv_end (bid_interval b)")
  case True
  let ?s = "display_nat (iv_start (bid_interval b))"
  have "find_position (\<lambda>c. c = CHR ''['') ?s = None"
    using display_nat_avoids(2) by (auto simp: find_position_None)
  then show ?thesis
    using True dropWhile_B [OF display_nat_avoids(1)]
    by (simp add: BatchId_from_str_def BatchId_display_def display_interval_def Let_def)
next
  case False
  define a where "a = display_nat (iv_start (bid_interval b))"
  define z where "z = display_nat (iv_end (bid_interval b))"
  define s where "s = ''['' @ a @ '', '' @ z @ '']''"
  note av = display_nat_avoids [of "iv_start (bid_interval b)", folded a_def] display_nat_avoids [of "iv_end (bid_interval b)", folded z_def]
  have d: "dropWhile (\<lambda>c. c = CHR ''B'') (BatchId_display b) = s"
    using False av by (simp add: BatchId_display_def display_interval_def s_def a_def z_def)
  have p1: "find_position (\<lambda>c. c = CHR ''['') s = Some 0"
    by (simp add: s_def)
  have p2: "find_position (\<lambda>c. c = CHR '','') s = Some (Suc (length a))"
    using find_position_skip [of "CHR '',''" "''['' @ a" "'' '' @ z @ '']''"] av by (simp add: s_def)
  have p3: "find_position (\<lambda>c. c = CHR '']'') s = Some (3 + length a + length z)"
    using find_position_skip [of "CHR '']''" "''['' @ a @ '', '' @ z" "[]"] av by (simp add: s_def)
  have slices: "str_slice s (Suc 0) (Suc (length a)) = (Ok a :: (string, string) res)"
      "str_slice s (Suc (Suc (length a))) (3 + length a + length z) = (Ok ('' '' @ z) :: (string, string) res)"
    by (simp_all add: str_slice_def s_def)
  have "u64_from_str ('' '' @ z) = None"
    by (simp add: u64_from_str_def digit_value_def of_char_def)
  then show ?thesis
    by (cases "u64_from_str a") (simp_all add: BatchId_from_str_def d p1 p2 p3 slices Let_def)
qed

section \<open>Bounded queues keep the latest items\<close>

lemma bq_push_fold: "length q \<le> u \<Longrightarrow> fold (bq_push u) xs q = drop (length (q @ xs) - u) (q @ xs)"
proof (induction xs arbitrary: q)
  case (Cons x xs)
  show ?case
  proof (cases "length q < u")
    case True
    then show ?thesis
      using Cons.IH [of "q @ [x]"] by (simp add: bq_push_def Let_def)
  next
    case False
    then have q: "length q = u" using Cons.prems by simp
    let ?q = "tl (q @ [x])"
    have len: "length ?q = u" and tl: "?q @ xs = tl (q @ x # xs)"
      using q by (cases q; simp)+
    have "fold (bq_push u) (x # xs) q = fold (bq_push u) xs ?q"
      using q by (simp add: bq_push_def)
    also have "\<dots> = drop (length xs) (tl (q @ x # xs))"
      using Cons.IH [of ?q] len by (simp only: tl [symmetric]) simp
    also have "\<dots> = drop (length (q @ x # xs) - u) (q @ x # xs)"
      using drop_Suc [of "length xs" "q @ x # xs"] q by (simp del: drop_append)
    finally show ?thesis .
  qed
qed simp

lemma bq_push_latest: "fold (bq_push u) xs [] = drop (length xs - u) xs"
  using bq_push_fold [of "[]"] by simp

end
