(* ===== verification/Data_Selection.thy ===== *)
theory Data_Selection
  imports Coordinator_Props Interval_Tree
begin

text \<open>
  Which node trains on which data of a round, and who replays it
  (shared/coordinator/src/data_selection.rs and audit_selection.rs). The code runs in the clients and in
  the verifiers; additions are modelled as checked, and the theorems show that none overflows.
\<close>

section \<open>Data\<close>

primrec collect_trainers :: "externs \<Rightarrow> CommitteeSelection \<Rightarrow> Client list \<Rightarrow> nat list \<Rightarrow> ('e, Client list) res" where
  "collect_trainers X s cls [] = Ok []"
| "collect_trainers X s cls (i # is) =
     rbind (slice_index cls i) (\<lambda>client.
     rbind (get_committee X s i) (\<lambda>p.
     rbind (collect_trainers X s cls is) (\<lambda>rest.
       Ok (case cp_committee p of Trainer \<Rightarrow> client # rest | Verifier \<Rightarrow> rest | TieBreaker \<Rightarrow> rest))))"

definition batch_at :: "nat \<Rightarrow> nat \<Rightarrow> ('e, BatchId \<times> nat) res" where
  "batch_at current_index node_batch_size =
     rbind (u_add 64 current_index node_batch_size) (\<lambda>behind.
     rbind (u_sub behind 1) (\<lambda>end_index.
     rbind (iv_new current_index end_index) (\<lambda>i.
     rbind (u_add 64 end_index 1) (\<lambda>next.
       Ok (BatchId i, next)))))"

primrec assign_loop ::
  "nat \<Rightarrow> nat \<Rightarrow> nat \<Rightarrow> nat \<Rightarrow> Client list \<Rightarrow> (BatchId, NodeIdentity) btree \<Rightarrow> ('e, (BatchId, NodeIdentity) btree) res" where
  "assign_loop base_size remainder i current_index [] assignments = Ok assignments"
| "assign_loop base_size remainder i current_index (node # nodes) assignments =
     (let node_batch_size = base_size + (if i < remainder then 1 else 0) in
      if 0 < node_batch_size then
        rbind (batch_at current_index node_batch_size) (\<lambda>(b, next).
          assign_loop base_size remainder (Suc i) next nodes (bt_insert b (client_id node) assignments))
      else assign_loop base_size remainder (Suc i) current_index nodes assignments)"

definition assign_data_for_state :: "externs \<Rightarrow> Coordinator \<Rightarrow> CommitteeSelection \<Rightarrow> ('e, (BatchId, NodeIdentity) btree) res" where
  "assign_data_for_state X c s =
     rbind (unwrap (current_round c)) (\<lambda>round.
       let cls = es_clients (c_epoch_state c) in
       rbind (collect_trainers X s cls [0..<length cls]) (\<lambda>trainer_nodes.
         if trainer_nodes = [] then Ok []
         else
           rbind (deterministic_shuffle trainer_nodes (word_of_nat (rd_random_seed round))) (\<lambda>nodes.
           rbind (get_target_global_batch_size c (current_round c)) (\<lambda>total_size.
             assign_loop (total_size div length nodes) (total_size mod length nodes) 0 (rd_data_index round) nodes []))))"

primrec batch_loop :: "nat \<Rightarrow> nat \<Rightarrow> nat \<Rightarrow> nat \<Rightarrow> nat list \<Rightarrow> BatchId list \<Rightarrow> ('e, BatchId list) res" where
  "batch_loop base_size remainder end current [] batch_ids = Ok batch_ids"
| "batch_loop base_size remainder end current (i # is) batch_ids =
     (let node_size = base_size + (if i < remainder then 1 else 0) in
      if 0 < node_size then
        rbind (batch_at current node_size) (\<lambda>(b, next).
          if end \<le> next then Ok (batch_ids @ [b])
          else batch_loop base_size remainder end next is (batch_ids @ [b]))
      else batch_loop base_size remainder end current is batch_ids)"

definition get_batch_ids_for_round :: "Round \<Rightarrow> Coordinator \<Rightarrow> nat \<Rightarrow> ('e, BatchId list) res" where
  "get_batch_ids_for_round rnd c num_trainer_nodes =
     rbind (get_target_global_batch_size c (Some rnd)) (\<lambda>total_size.
     rbind (u_add 64 (rd_data_index rnd) total_size) (\<lambda>end.
     rbind (u_div total_size num_trainer_nodes) (\<lambda>base_size.
     rbind (u_rem total_size num_trainer_nodes) (\<lambda>remainder.
       batch_loop base_size remainder end (rd_data_index rnd) [0..<num_trainer_nodes] []))))"

definition get_batch_ids_for_node :: "(BatchId, NodeIdentity) btree \<Rightarrow> NodeIdentity \<Rightarrow> BatchId list" where
  "get_batch_ids_for_node tree node_identity = map fst (filter (\<lambda>e. node_eq (snd e) node_identity) tree)"

primrec data_index_loop :: "CoordinatorConfig \<Rightarrow> nat \<Rightarrow> nat \<Rightarrow> nat \<Rightarrow> ('e, nat) res" where
  "data_index_loop cfg seq_len 0 current = Ok current"
| "data_index_loop cfg seq_len (Suc k) current =
     rbind (u_mul 64 current seq_len) (\<lambda>tokens.
     rbind (u_add 64 current (get_batch_size cfg tokens)) (data_index_loop cfg seq_len k))"

definition get_data_index_for_step :: "Coordinator \<Rightarrow> nat \<Rightarrow> ('e, nat) res" where
  "get_data_index_for_step c target_step =
     (if target_step \<le> 1 \<or> cc_total_steps (c_config c) < target_step then Ok 0
      else data_index_loop (c_config c) (get_sequence_length c) (target_step - 1) 0)"

section \<open>Audits\<close>

definition AUDIT_SALT :: string where
  "AUDIT_SALT = ''audit''"

record AuditAssignment =
  aa_verifier :: NodeIdentity
  aa_verifier_index :: nat
  aa_target :: NodeIdentity
  aa_batch_id :: BatchId

definition audit_pick :: "externs \<Rightarrow> bytes \<Rightarrow> nat \<Rightarrow> nat \<Rightarrow> nat" where
  "audit_pick X seed index n = from_le_bytes (take 8 (sha256v X [seed, str_bytes AUDIT_SALT, to_le_bytes 8 index])) mod n"

primrec audit_loop ::
  "externs \<Rightarrow> CommitteeSelection \<Rightarrow> (BatchId \<times> NodeIdentity) list \<Rightarrow> nat \<Rightarrow> Client list \<Rightarrow> AuditAssignment list
   \<Rightarrow> ('e, AuditAssignment list) res" where
  "audit_loop X s targets index [] audits = Ok audits"
| "audit_loop X s targets index (client # cls) audits =
     rbind (get_committee X s index) (\<lambda>p.
       if cp_committee p \<noteq> Verifier then audit_loop X s targets (Suc index) cls audits
       else
         rbind (slice_index targets (audit_pick X (cs_seed s) index (length targets))) (\<lambda>(batch_id, target).
           audit_loop X s targets (Suc index) cls
             (audits @ [\<lparr>aa_verifier = client_id client, aa_verifier_index = index, aa_target = target, aa_batch_id = batch_id\<rparr>])))"

definition select_audits ::
  "externs \<Rightarrow> CommitteeSelection \<Rightarrow> Client list \<Rightarrow> (BatchId, NodeIdentity) btree \<Rightarrow> ('e, AuditAssignment list) res" where
  "select_audits X s cls assignments =
     (if assignments = [] then Ok [] else audit_loop X s assignments 0 cls [])"

definition select_audits_for_current_round :: "externs \<Rightarrow> Coordinator \<Rightarrow> nat \<Rightarrow> (CoordinatorError, AuditAssignment list) res" where
  "select_audits_for_current_round X c tie_breaker_nodes =
     rbind (cs_from_coordinator_with_tie_breakers X c 0 tie_breaker_nodes) (\<lambda>s.
     rbind (assign_data_for_state X c s) (\<lambda>assignments.
       select_audits X s (es_clients (c_epoch_state c)) assignments))"

section \<open>Cutting a range\<close>

text \<open>What the two loops compute: consecutive batches of the sizes, one per node.\<close>

primrec assigned :: "nat \<Rightarrow> nat \<Rightarrow> nat \<Rightarrow> nat \<Rightarrow> 'a list \<Rightarrow> (BatchId \<times> 'a) list" where
  "assigned q r i k [] = []"
| "assigned q r i k (x # xs) = (let n = q + (if i < r then 1 else 0) in
     if n = 0 then assigned q r (Suc i) k xs
     else (BatchId \<lparr>iv_start = k, iv_end = k + n - 1\<rparr>, x) # assigned q r (Suc i) (k + n) xs)"

definition size_from :: "nat \<Rightarrow> nat \<Rightarrow> nat \<Rightarrow> nat \<Rightarrow> nat" where
  "size_from q r i n = q * n + (min r (i + n) - min r i)"

lemma size_from_simps [simp]:
  "size_from q r i 0 = 0" "size_from q r i (Suc n) = q + (if i < r then 1 else 0) + size_from q r (Suc i) n"
  by (auto simp: size_from_def min_def)

lemma size_from_total: "0 < n \<Longrightarrow> size_from (t div n) (t mod n) 0 n = t"
  by (simp add: size_from_def min_absorb1 less_imp_le mult.commute)

lemma batch_at_ok:
  assumes "0 < n" "k + n < 2 ^ 64"
  shows "batch_at k n = Ok (BatchId \<lparr>iv_start = k, iv_end = k + n - 1\<rparr>, k + n)"
  using assms by (auto simp: batch_at_def u_add_def u_sub_def iv_new_def assert_ok_def)

lemma bt_insert_end: "\<forall>e\<in>set t. fst e < k \<Longrightarrow> bt_insert k v t = t @ [(k, v)]"
proof (induction t)
  case (Cons e t)
  then show ?case by (cases e) (auto dest: order.asym)
qed simp

lemma assign_loop_ok:
  assumes "k + size_from q r i (length nodes) < 2 ^ 64" "\<forall>e\<in>set acc. iv_start (bid_interval (fst e)) < k"
  shows "assign_loop q r i k nodes acc = Ok (acc @ map (apsnd client_id) (assigned q r i k nodes))"
  using assms
proof (induction nodes arbitrary: i k acc)
  case (Cons x xs)
  define n where "n = q + (if i < r then 1 else 0)"
  let ?b = "BatchId \<lparr>iv_start = k, iv_end = k + n - 1\<rparr>"
  have size: "size_from q r i (length (x # xs)) = n + size_from q r (Suc i) (length xs)"
    by (simp add: n_def)
  show ?case
  proof (cases "n = 0")
    case True
    then show ?thesis
      unfolding assign_loop.simps assigned.simps Let_def n_def [symmetric]
      using Cons.IH [of k "Suc i" acc] Cons.prems size by simp
  next
    case False
    have "fst e < ?b" if "e \<in> set acc" for e
      using Cons.prems(2) that by (auto simp: less_BatchId_def less_eq_BatchId_def)
    then have ins: "bt_insert ?b (client_id x) acc = acc @ [(?b, client_id x)]"
      by (intro bt_insert_end) blast
    have at: "batch_at k n = Ok (?b, k + n)"
      using False Cons.prems(1) size by (intro batch_at_ok) simp_all
    have "k + n + size_from q r (Suc i) (length xs) < 2 ^ 64"
        "\<forall>e\<in>set (acc @ [(?b, client_id x)]). iv_start (bid_interval (fst e)) < k + n"
      using Cons.prems False size by (auto simp: add.assoc)
    note ih = Cons.IH [OF this]
    show ?thesis
      unfolding assign_loop.simps assigned.simps Let_def n_def [symmetric] at rbind.simps prod.case ins ih
      using False by simp
  qed
qed simp

lemma batch_loop_ok:
  assumes "k + size_from q r i (length xs) < 2 ^ 64" "end = k + size_from q r i (length xs)"
  shows "batch_loop q r end k [i..<i + length xs] acc = Ok (acc @ map fst (assigned q r i k xs))"
  using assms
proof (induction xs arbitrary: i k acc)
  case (Cons x xs)
  define n where "n = q + (if i < r then 1 else 0)"
  let ?b = "BatchId \<lparr>iv_start = k, iv_end = k + n - 1\<rparr>"
  have size: "size_from q r i (length (x # xs)) = n + size_from q r (Suc i) (length xs)"
    by (simp add: n_def)
  have upt: "[i..<i + length (x # xs)] = i # [Suc i..<Suc i + length xs]"
    using upt_conv_Cons [of i "i + length (x # xs)"] by (simp del: upt_Suc)
  have zero: "assigned q r j m ys = []" if "size_from q r j (length ys) = 0" for j m and ys :: "'a list"
    using that by (induction ys arbitrary: j m) (auto simp: Let_def)
  note step = upt batch_loop.simps assigned.simps Let_def n_def [symmetric]
  show ?case
  proof (cases "n = 0")
    case True
    then show ?thesis unfolding step using Cons.IH [of k "Suc i" acc] Cons.prems size by simp
  next
    case False
    have b: "batch_at k n = Ok (?b, k + n)"
      using False Cons.prems(1) size by (intro batch_at_ok) simp_all
    show ?thesis
    proof (cases "end \<le> k + n")
      case True
      then have "size_from q r (Suc i) (length xs) = 0"
        using Cons.prems(2) size by simp
      then have "assigned q r (Suc i) (k + n) xs = []"
        by (rule zero)
      then show ?thesis
        unfolding step b rbind.simps prod.case using False True by simp
    next
      case more: False
      have "k + n + size_from q r (Suc i) (length xs) < 2 ^ 64" "end = k + n + size_from q r (Suc i) (length xs)"
        using Cons.prems size by (simp_all add: add.assoc)
      note ih = Cons.IH [OF this]
      show ?thesis
        unfolding step b rbind.simps prod.case ih using False more by simp
    qed
  qed
qed simp

text \<open>The batches in order, their sizes, and who they go to.\<close>

lemma assigned_covers: "concat (map (bid_iter \<circ> fst) (assigned q r i k xs)) = [k..<k + size_from q r i (length xs)]"
proof (induction xs arbitrary: i k)
  case (Cons x xs)
  define n where "n = q + (if i < r then 1 else 0)"
  have size: "size_from q r i (length (x # xs)) = n + size_from q r (Suc i) (length xs)"
    by (simp add: n_def)
  have split: "[k..<k + (n + m)] = [k..<k + n] @ [k + n..<k + n + m]" for m
    using upt_add_eq_append [of k "k + n" m] by (simp add: add.assoc)
  have "bid_iter (BatchId \<lparr>iv_start = k, iv_end = k + n - 1\<rparr>) = [k..<k + n]" if "n \<noteq> 0"
    using that by (simp add: bid_iter_def)
  then show ?case
    unfolding size split assigned.simps Let_def n_def [symmetric] using Cons.IH by (cases "n = 0") simp_all
qed simp

lemma assigned_sizes:
  "(b, x) \<in> set (assigned q r i k xs) \<Longrightarrow> iv_start (bid_interval b) \<le> iv_end (bid_interval b)
     \<and> iv_end (bid_interval b) - iv_start (bid_interval b) + 1 \<in> {q, q + 1}"
  by (induction xs arbitrary: i k) (auto simp: Let_def split: if_splits)

lemma assigned_nodes_zero: "map snd (assigned 0 r i k xs) = take (r - i) xs"
proof (induction xs arbitrary: i k)
  case (Cons x xs)
  then show ?case
    by (cases "r - i") (auto simp: Let_def not_less dest!: Suc_diff_Suc)
qed simp

lemma assigned_nodes_pos: "0 < q \<Longrightarrow> map snd (assigned q r i k xs) = xs"
  by (induction xs arbitrary: i k) (auto simp: Let_def)

lemma assigned_nodes: "r < length xs \<Longrightarrow> map snd (assigned q r 0 k xs) = take (q * length xs + r) xs"
proof (cases "q = 0")
  case False
  then have "length xs \<le> q * length xs + r"
    by (simp add: trans_le_add1)
  then show ?thesis using False by (simp add: assigned_nodes_pos)
qed (simp add: assigned_nodes_zero)

section \<open>The assignment of a round\<close>

definition role :: "externs \<Rightarrow> CommitteeSelection \<Rightarrow> nat \<Rightarrow> Committee" where
  "role X s i = committee_at s (cs_place X s COMMITTEE_SALT i)"

lemma get_committee_role: "cs_wf s \<Longrightarrow> i < cs_total_nodes s \<Longrightarrow> \<exists>p. get_committee X s i = Ok p \<and> cp_committee p = role X s i"
  by (simp add: get_committee_eq role_def)

lemma collect_trainers_eq:
  assumes "cs_wf s" "length cls \<le> cs_total_nodes s" "\<forall>i\<in>set is. i < length cls"
  shows "collect_trainers X s cls is = Ok (map ((!) cls) (filter (\<lambda>i. role X s i = Trainer) is))"
  using assms(3)
proof (induction "is")
  case (Cons i "is")
  then show ?case
    using assms(1,2) by (simp add: slice_index_def get_committee_eq role_def split: Committee.splits)
qed simp

text \<open>The batch of the current round, and the clients that train on it.\<close>

definition round_batch :: "Coordinator \<Rightarrow> nat" where
  "round_batch c = get_batch_size (c_config c) (rd_data_index (cur c) * get_sequence_length c)"

definition trainers :: "externs \<Rightarrow> CommitteeSelection \<Rightarrow> Coordinator \<Rightarrow> Client list" where
  "trainers X s c = map ((!) (clients c)) (filter (\<lambda>i. role X s i = Trainer) [0..<length (clients c)])"

lemma length_trainers: "length (trainers X s c) = card {i. i < length (clients c) \<and> role X s i = Trainer}"
  unfolding trainers_def length_map length_filter_conv_card by (intro arg_cong [where f = card] Collect_cong) auto

definition room_for_batch :: "Coordinator \<Rightarrow> bool" where
  "room_for_batch c \<longleftrightarrow> rd_data_index (cur c) * get_sequence_length c < 2 ^ 64 \<and> rd_data_index (cur c) + round_batch c < 2 ^ 64"

definition in_round :: "externs \<Rightarrow> CommitteeSelection \<Rightarrow> nat \<Rightarrow> Coordinator \<Rightarrow> bool" where
  "in_round X s t c \<longleftrightarrow> coord_inv c \<and> c_run_state c \<in> {RoundTrain, RoundWitness}
     \<and> cs_from_coordinator_with_tie_breakers X c 0 t = Ok s"

lemma in_roundD:
  assumes "in_round X s t c"
  shows "current_round c = Some (cur c)" "cs_wf s" "cs_total_nodes s = length (clients c)"
proof -
  have inv: "coord_inv c" "rd_clients_len (cur c) = length (clients c)"
    using assms by (auto simp: in_round_def coord_inv_def)
  then show r: "current_round c = Some (cur c)"
    by (simp add: coord_inv_def current_round_cur)
  have "length (clients c) < 2 ^ 57"
    using inv(1) by (simp add: coord_inv_def)
  moreover have "cs_new X t (cc_witness_nodes (c_config c)) (cc_verification_percent (c_config c)) (length (clients c))
      (rd_random_seed (cur c)) = Ok s"
    using assms inv(2) r by (simp add: in_round_def cs_from_coordinator_with_tie_breakers_def round_at_offset_def)
  ultimately show "cs_wf s" "cs_total_nodes s = length (clients c)"
    using cs_new_wf by blast+
qed

lemma round_batch_ok: "room_for_batch c \<Longrightarrow> get_target_global_batch_size c (Some (cur c)) = Ok (round_batch c)"
  by (simp add: room_for_batch_def get_target_global_batch_size_def total_tokens_processed_def u_mul_def round_batch_def)

lemma assign_data_eq:
  assumes "in_round X s t c" "room_for_batch c"
  defines "ts \<equiv> trainers X s c"
  shows "\<exists>ns. mset ns = mset ts \<and> assign_data_for_state X c s = (Ok (if ts = [] then []
     else map (apsnd client_id) (assigned (round_batch c div length ts) (round_batch c mod length ts) 0 (rd_data_index (cur c)) ns)) :: ('e, (BatchId, NodeIdentity) btree) res)"
proof -
  note r = in_roundD [OF assms(1)]
  obtain ns where ns: "deterministic_shuffle ts (word_of_nat (rd_random_seed (cur c))) = (Ok ns :: ('e, Client list) res)" "mset ns = mset ts"
    using deterministic_shuffle_permutes by blast
  have len: "length ns = length ts"
    using ns(2) by (rule mset_eq_length)
  have "collect_trainers X s (clients c) [0..<length (clients c)] = (Ok ts :: ('e, Client list) res)"
    unfolding ts_def trainers_def using r(2,3) by (intro collect_trainers_eq) auto
  then have "assign_data_for_state X c s = ((if ts = [] then Ok []
      else assign_loop (round_batch c div length ts) (round_batch c mod length ts) 0 (rd_data_index (cur c)) ns []) :: ('e, (BatchId, NodeIdentity) btree) res)"
    using r(1) assms(2) ns(1) len by (simp add: assign_data_for_state_def round_batch_ok Let_def del: rbind_eq_Ok)
  moreover have "assign_loop (round_batch c div length ts) (round_batch c mod length ts) 0 (rd_data_index (cur c)) ns []
      = (Ok ([] @ map (apsnd client_id) (assigned (round_batch c div length ts) (round_batch c mod length ts) 0 (rd_data_index (cur c)) ns))
          :: ('e, (BatchId, NodeIdentity) btree) res)"
    if "ts \<noteq> []"
    using size_from_total [of "length ts" "round_batch c"] that assms(2) len by (intro assign_loop_ok) (simp_all add: room_for_batch_def)
  ultimately show ?thesis
    using ns(2) by (intro exI [of _ ns]) simp
qed

text \<open>
  (C23) The data of a round is divided among its trainers. In every round of a coordinator in its invariant,
  with room for the batch in the data index, the assignment exists. Its batches are consecutive, cover
  exactly the data from the round's index to the index of the next round, and differ in size by at most
  one; they go to different trainers, to all of them when there are enough samples. The batch ids computed
  without the nodes by \<open>get_batch_ids_for_round\<close> are the same ones.
\<close>

theorem data_divided:
  assumes "in_round X s t c" "room_for_batch c" "trainers X s c \<noteq> []"
  shows "\<exists>m ns. assign_data_for_state X c s = (Ok m :: (unit, (BatchId, NodeIdentity) btree) res)
     \<and> concat (map (bid_iter \<circ> fst) m) = [rd_data_index (cur c)..<rd_data_index (cur c) + round_batch c]
     \<and> (\<forall>(b, i)\<in>set m. length (bid_iter b) \<in> {round_batch c div length (trainers X s c), round_batch c div length (trainers X s c) + 1})
     \<and> mset ns = mset (trainers X s c) \<and> map snd m = map client_id (take (round_batch c) ns)
     \<and> get_batch_ids_for_round (cur c) c (length (trainers X s c)) = (Ok (map fst m) :: (unit, BatchId list) res)"
proof -
  let ?ts = "trainers X s c"
  define q where "q = round_batch c div length ?ts"
  define r where "r = round_batch c mod length ?ts"
  obtain ns where ns: "mset ns = mset ?ts"
      "assign_data_for_state X c s = (Ok (map (apsnd client_id) (assigned q r 0 (rd_data_index (cur c)) ns)) :: (unit, (BatchId, NodeIdentity) btree) res)"
    using assign_data_eq [OF assms(1,2)] assms(3) unfolding q_def r_def by auto
  define m where "m = map (apsnd client_id) (assigned q r 0 (rd_data_index (cur c)) ns)"
  have len: "length ns = length ?ts"
    using ns(1) by (rule mset_eq_length)
  have size: "size_from q r 0 (length ns) = round_batch c"
    using assms(3) size_from_total [of "length ?ts"] by (simp add: q_def r_def len)
  have "concat (map (bid_iter \<circ> fst) m) = [rd_data_index (cur c)..<rd_data_index (cur c) + round_batch c]"
    using assigned_covers [of q r 0 "rd_data_index (cur c)" ns] by (simp add: m_def size comp_def)
  moreover have "length (bid_iter b) \<in> {q, q + 1}" if "(b, i) \<in> set m" for b i
    using that assigned_sizes [of b _ q r 0 "rd_data_index (cur c)" ns] by (force simp: m_def bid_iter_def)
  moreover have "map snd m = map client_id (take (round_batch c) ns)"
  proof -
    have "r < length ns" "q * length ns + r = round_batch c"
      using assms(3) by (simp_all add: q_def r_def len)
    then have "map snd (assigned q r 0 (rd_data_index (cur c)) ns) = take (round_batch c) ns"
      using assigned_nodes [of r ns q] by simp
    moreover have "map snd m = map client_id (map snd (assigned q r 0 (rd_data_index (cur c)) ns))"
      by (simp add: m_def)
    ultimately show ?thesis
      by simp
  qed
  moreover have "get_batch_ids_for_round (cur c) c (length ?ts) = (Ok (map fst m) :: (unit, BatchId list) res)"
  proof -
    have "batch_loop q r (rd_data_index (cur c) + round_batch c) (rd_data_index (cur c)) [0..<length ?ts] []
        = (Ok (map fst m) :: (unit, BatchId list) res)"
      using batch_loop_ok [of "rd_data_index (cur c)" q r 0 ns _ "[]"] assms(2) by (simp add: size [unfolded len] len m_def room_for_batch_def comp_def)
    then show ?thesis
      using assms(2,3) by (simp add: get_batch_ids_for_round_def round_batch_ok u_add_def u_div_def u_rem_def room_for_batch_def q_def r_def
          del: rbind_eq_Ok)
  qed
  ultimately show ?thesis
    using ns unfolding m_def [symmetric] q_def [symmetric] by blast
qed

section \<open>The audits of a round\<close>

lemma audit_loop_eq:
  assumes "cs_wf s" "k + length cls \<le> cs_total_nodes s" "m \<noteq> []"
  shows "audit_loop X s m k cls acc = Ok (acc @ map (\<lambda>i. let (b, x) = m ! audit_pick X (cs_seed s) i (length m) in
     \<lparr>aa_verifier = client_id (cls ! (i - k)), aa_verifier_index = i, aa_target = x, aa_batch_id = b\<rparr>)
       (filter (\<lambda>i. role X s i = Verifier) [k..<k + length cls]))"
  using assms(2)
proof (induction cls arbitrary: k acc)
  case (Cons x cls)
  have pick: "audit_pick X (cs_seed s) k (length m) < length m"
    using assms(3) by (simp add: audit_pick_def)
  have upt: "[k..<k + length (x # cls)] = k # [Suc k..<Suc k + length cls]"
    using upt_conv_Cons [of k "k + length (x # cls)"] by (simp del: upt_Suc)
  have shift: "map (\<lambda>i. let (b, y) = m ! audit_pick X (cs_seed s) i (length m) in
       \<lparr>aa_verifier = client_id ((x # cls) ! (i - k)), aa_verifier_index = i, aa_target = y, aa_batch_id = b\<rparr>)
         (filter (\<lambda>i. role X s i = Verifier) [Suc k..<Suc k + length cls])
     = map (\<lambda>i. let (b, y) = m ! audit_pick X (cs_seed s) i (length m) in
       \<lparr>aa_verifier = client_id (cls ! (i - Suc k)), aa_verifier_index = i, aa_target = y, aa_batch_id = b\<rparr>)
         (filter (\<lambda>i. role X s i = Verifier) [Suc k..<Suc k + length cls])"
    by (intro map_cong refl) (auto simp: nth_Cons' Let_def split: prod.splits)
  have "Suc k + length cls \<le> cs_total_nodes s"
    using Cons.prems by simp
  note ih = Cons.IH [OF this]
  show ?case
    unfolding upt using Cons.prems pick shift assms(1)
    by (cases "m ! audit_pick X (cs_seed s) k (length m)")
      (simp add: get_committee_eq role_def ih slice_index_def Let_def del: upt_Suc)
qed simp

definition audits_of :: "externs \<Rightarrow> CommitteeSelection \<Rightarrow> Coordinator \<Rightarrow> (BatchId, NodeIdentity) btree \<Rightarrow> AuditAssignment list" where
  "audits_of X s c m = map (\<lambda>i. let (b, x) = m ! audit_pick X (cs_seed s) i (length m) in
     \<lparr>aa_verifier = client_id (clients c ! i), aa_verifier_index = i, aa_target = x, aa_batch_id = b\<rparr>)
       (filter (\<lambda>i. role X s i = Verifier) [0..<length (clients c)])"

lemma select_audits_eq:
  assumes "in_round X s t c" "room_for_batch c" "0 < round_batch c" "trainers X s c \<noteq> []"
  shows "\<exists>m. assign_data_for_state X c s = (Ok m :: (CoordinatorError, (BatchId, NodeIdentity) btree) res)
     \<and> set (map snd m) \<subseteq> client_id ` set (trainers X s c) \<and> m \<noteq> [] \<and> select_audits_for_current_round X c t = Ok (audits_of X s c m)"
proof -
  let ?ts = "trainers X s c"
  note r = in_roundD [OF assms(1)]
  define q where "q = round_batch c div length ?ts"
  define k where "k = round_batch c mod length ?ts"
  obtain ns where ns: "mset ns = mset ?ts" "assign_data_for_state X c s
      = (Ok (map (apsnd client_id) (assigned q k 0 (rd_data_index (cur c)) ns)) :: (CoordinatorError, (BatchId, NodeIdentity) btree) res)"
    using assign_data_eq [OF assms(1,2)] assms(4) unfolding q_def k_def by auto
  define m where "m = map (apsnd client_id) (assigned q k 0 (rd_data_index (cur c)) ns)"
  have len: "length ns = length ?ts"
    using ns(1) by (rule mset_eq_length)
  have "map snd (assigned q k 0 (rd_data_index (cur c)) ns) = take (round_batch c) ns"
    using assms(4) assigned_nodes [of k ns q] by (simp add: q_def k_def len)
  then have nodes: "map snd m = map client_id (take (round_batch c) ns)"
    by (simp add: m_def flip: map_map [of client_id snd] comp_def)
  then have "set (map snd m) \<subseteq> client_id ` set ?ts"
    using mset_eq_setD [OF ns(1)] set_take_subset [of "round_batch c" ns] by auto
  moreover have ne: "m \<noteq> []"
    using nodes assms(3,4) len by (cases m) auto
  moreover have "select_audits_for_current_round X c t = Ok (audits_of X s c m)"
    using assms(1) ns(2) ne r audit_loop_eq [of s 0 "clients c" m X "[]"]
    by (simp add: select_audits_for_current_round_def in_round_def select_audits_def m_def [symmetric] audits_of_def)
  ultimately show ?thesis
    using ns(2) unfolding m_def [symmetric] by blast
qed

text \<open>A round of six clients with one tie breaker, two verifiers and three trainers.\<close>

definition demo_auditing :: Coordinator where
  "demo_auditing = demo_coordinator\<lparr>c_run_state := RoundTrain, c_config := demo_config\<lparr>cc_verification_percent := 50\<rparr>,
     c_epoch_state := EpochState_default\<lparr>es_rounds_head := 0, es_first_round := 1,
       es_rounds := [(demo_round 0 [])\<lparr>rd_clients_len := 6\<rparr>, Round_default, Round_default, Round_default],
       es_clients := map (client_new \<circ> demo_node) [1, 2, 3, 4, 5, 6]\<rparr>\<rparr>"

lemma demo_auditing_inv: "coord_inv demo_auditing"
proof -
  have "config_wf (demo_config\<lparr>cc_verification_percent := 50\<rparr>)"
    by (simp add: config_wf_def config_check_def check_error_def demo_config_def guard_err_def SOLANA_MAX_NUM_CLIENTS_def
        SOLANA_MAX_NUM_WITNESSES_def)
  moreover have "rounds_wf (es demo_auditing)"
    by (simp add: demo_auditing_def rounds_wf_def demo_round_def Round_default_def prev_pos_def)
  moreover have "es_exited_clients (es demo_auditing) = []" "length (clients demo_auditing) = 6"
      "c_config demo_auditing = demo_config\<lparr>cc_verification_percent := 50\<rparr>" "pr_step (c_progress demo_auditing) = 1"
      "c_run_state demo_auditing = RoundTrain" "cur demo_auditing = (demo_round 0 [])\<lparr>rd_clients_len := 6\<rparr>"
    by (simp_all add: demo_auditing_def EpochState_default_def demo_coordinator_def Progress_default_def cur_def)
  ultimately show ?thesis
    by (simp add: coord_inv_def demo_round_def) (simp add: demo_config_def)
qed

lemma demo_auditing_batch: "room_for_batch demo_auditing" "round_batch demo_auditing = 8" "rd_data_index (cur demo_auditing) = 0"
    "clients demo_auditing = map (client_new \<circ> demo_node) [1, 2, 3, 4, 5, 6]"
  by (simp_all add: room_for_batch_def round_batch_def demo_auditing_def cur_def demo_round_def demo_coordinator_def get_batch_size_def
      demo_config_def)

lemma demo_auditing_round:
  obtains s where "in_round demo_X s 1 demo_auditing" "cs_verifier_nodes s = 2" "length (trainers demo_X s demo_auditing) = 3"
proof -
  have cur: "cur demo_auditing = (demo_round 0 [])\<lparr>rd_clients_len := 6\<rparr>" "clients demo_auditing = map (client_new \<circ> demo_node) [1, 2, 3, 4, 5, 6]"
      "c_config demo_auditing = demo_config\<lparr>cc_verification_percent := 50\<rparr>" "c_run_state demo_auditing = RoundTrain"
    by (simp_all add: demo_auditing_def cur_def)
  obtain s where s: "cs_new demo_X 1 0 50 6 3 = Ok s"
    using cs_new_ok(1) [of 6 demo_X 1 0 50 3] by auto
  have wf: "cs_wf s" "cs_tie_breaker_nodes s = 1" "cs_verifier_nodes s = 2" "cs_total_nodes s = 6"
    using cs_new_wf [OF s] by auto
  have "current_round demo_auditing = Some (cur demo_auditing)"
    using demo_auditing_inv by (simp add: coord_inv_def current_round_cur)
  then have "in_round demo_X s 1 demo_auditing"
    using demo_auditing_inv s cur by (simp add: in_round_def cs_from_coordinator_with_tie_breakers_def round_at_offset_def demo_round_def)
      (simp add: demo_config_def)
  moreover have "length (trainers demo_X s demo_auditing) = card {i. i < 6 \<and> 3 \<le> cs_place demo_X s COMMITTEE_SALT i}"
  proof -
    have n: "length (clients demo_auditing) = 6"
      using cur(2) by simp
    have three: "(1 :: nat) + 2 = 3"
      by simp
    show ?thesis
      unfolding length_trainers role_def committee_at_iff wf(2,3) n three ..
  qed
  moreover have "{i. i < 6 \<and> 3 \<le> cs_place demo_X s COMMITTEE_SALT i}
      = {i. i < cs_total_nodes s \<and> 3 \<le> cs_place demo_X s COMMITTEE_SALT i \<and> cs_place demo_X s COMMITTEE_SALT i < 6}"
    using son.place_less [of _ 6] wf(4) by auto
  then have "card {i. i < 6 \<and> 3 \<le> cs_place demo_X s COMMITTEE_SALT i} = 3"
    using place_window [of 6 s 3 demo_X COMMITTEE_SALT] wf(4) by simp
  ultimately show thesis
    using that wf(3) by simp
qed

theorem data_divided_witness:
  "\<exists>s m. assign_data_for_state demo_X demo_auditing s = (Ok m :: (unit, (BatchId, NodeIdentity) btree) res)
     \<and> concat (map (bid_iter \<circ> fst) m) = [0..<8]
     \<and> get_batch_ids_for_round (cur demo_auditing) demo_auditing 3 = (Ok (map fst m) :: (unit, BatchId list) res)"
proof -
  obtain s where s: "in_round demo_X s 1 demo_auditing" "length (trainers demo_X s demo_auditing) = 3"
    using demo_auditing_round by blast
  then have "trainers demo_X s demo_auditing \<noteq> []"
    by auto
  from data_divided [OF s(1) demo_auditing_batch(1) this] show ?thesis
    unfolding s(2) demo_auditing_batch(2,3) by auto
qed

end
