(* ===== verification/Audit_Seats.thy ===== *)
theory Audit_Seats
  imports Treasurer_Verdicts Data_Selection
begin

text \<open>
  The verifiers off chain and the treasurer on chain: the audits that a verifier takes from
  \<open>select_audits_for_current_round\<close> are votes that the treasurer accepts.
\<close>

lemma find_position_distinct:
  assumes "distinct (map f xs)" "i < length xs"
  shows "find_position (\<lambda>x. f x = f (xs ! i)) xs = Some i"
proof -
  obtain j where j: "find_position (\<lambda>x. f x = f (xs ! i)) xs = Some j"
    using assms(2) find_position_None [of "\<lambda>x. f x = f (xs ! i)" xs] by (cases "find_position (\<lambda>x. f x = f (xs ! i)) xs") auto
  then have "j < length xs" "map f xs ! j = map f xs ! i"
    using find_position_Some [OF j] assms(2) by auto
  then have "j = i"
    using assms nth_eq_iff_index_eq [OF assms(1)] by simp
  then show ?thesis using j by simp
qed

text \<open>A seat is held by exactly the clients whose place in the committee is a verifier's.\<close>

lemma verifier_seat_iff:
  assumes "in_round X s t c" "distinct (map (signer \<circ> client_id) (clients c))" "2 \<le> cs_verifier_nodes s" "cs_verifier_nodes s \<le> 96"
    "idx < length (clients c)"
  shows "(\<exists>seat. verifier_seat X c t x (signer (client_id (clients c ! idx))) idx = Ok seat) \<longleftrightarrow>
    (\<exists>i<length (clients c). signer (client_id (clients c ! i)) = x \<and> role X s i = Verifier)"
proof -
  note r = in_roundD [OF assms(1)]
  have sel: "cs_from_coordinator_with_tie_breakers X c 0 t = Ok s"
    using assms(1) by (simp add: in_round_def)
  have q: "two_thirds (cs_verifier_nodes s) = Ok ((2 * cs_verifier_nodes s + 2) div 3)" "max ((2 * cs_verifier_nodes s + 2) div 3) 2 \<le> 64"
    using assms(4) by (simp_all add: two_thirds_def u_mul_def)
  have target: "check_target (signer (client_id (clients c ! idx))) idx c = Ok ()"
    using assms(5) by (simp add: check_target_Ok)
  have at: "(\<exists>seat. verifier_seat X c t (signer (client_id (clients c ! i))) (signer (client_id (clients c ! idx))) idx = Ok seat)
      \<longleftrightarrow> role X s i = Verifier" if i: "i < length (clients c)" for i
  proof -
    have pos: "position_of (signer (client_id (clients c ! i))) c = Some i"
      using find_position_distinct [OF assms(2) i] by (simp add: position_of_def)
    have "get_committee X s i = (Ok p :: CommitteeProof treasurer_res) \<Longrightarrow> cp_committee p = role X s i" for p
      using r i by (auto simp: get_committee_eq role_def)
    moreover obtain p where "get_committee X s i = (Ok p :: CommitteeProof treasurer_res)"
      using get_committee_role [OF r(2)] r(3) i by metis
    ultimately show ?thesis
      using q(2) assms(3) r(1) target
      by (simp add: verifier_seat_def pos sel q(1) get_num_verifier_nodes_def MIN_VERIFIER_COMMITTEE_def MAX_VERDICT_VOTERS_def Let_def)
  qed
  show ?thesis
  proof (cases "position_of x c")
    case None
    then have "\<not> (\<exists>i<length (clients c). signer (client_id (clients c ! i)) = x)"
      by (auto simp: position_of_def find_position_None)
    moreover have "verifier_seat X c t x y idx \<noteq> Ok seat" for y seat
      using None by (simp add: verifier_seat_def)
    ultimately show ?thesis by blast
  next
    case (Some i)
    then have "i < length (clients c)" "signer (client_id (clients c ! i)) = x"
      using find_position_Some by (fastforce simp: position_of_def)+
    moreover have "j = i" if "j < length (clients c)" "signer (client_id (clients c ! j)) = x" for j
      using calculation that nth_eq_iff_index_eq [OF assms(2), of i j] by simp
    ultimately show ?thesis
      using at by blast
  qed
qed



end
