(* ===== verification/Ieee.thy ===== *)
theory Ieee
  imports Float64
begin

text \<open>
  IEEE binary floating point as the verifier of training results uses it, with infinities, NaN and
  subnormal numbers. A finite number is its rational value, so the two zeros are not told apart; an
  operation is the exact operation rounded to nearest, ties to even, in the format. The lemmas show that
  rounding is monotone and fixes the numbers of the format.
\<close>

section \<open>Formats and rounding\<close>

datatype fp = Fin rat | Inf bool | NaN

text \<open>The bits of precision, the exponent of the smallest subnormal, and the exponent that overflows.\<close>

record fformat =
  ff_prec :: int
  ff_qmin :: int
  ff_emax :: int

definition f32 :: fformat where
  "f32 = \<lparr>ff_prec = 24, ff_qmin = -149, ff_emax = 128\<rparr>"

definition f64 :: fformat where
  "f64 = \<lparr>ff_prec = 53, ff_qmin = -1074, ff_emax = 1024\<rparr>"

definition fp_quantum :: "fformat \<Rightarrow> int \<Rightarrow> rat" where
  "fp_quantum F e = 2 powi max (e - (ff_prec F - 1)) (ff_qmin F)"

definition to_grid :: "rat \<Rightarrow> rat \<Rightarrow> rat" where
  "to_grid u x = of_int (round_half_even (x / u)) * u"

definition round_abs :: "fformat \<Rightarrow> rat \<Rightarrow> rat" where
  "round_abs F x = to_grid (fp_quantum F (f64_exponent x)) x"

definition fp_round :: "fformat \<Rightarrow> rat \<Rightarrow> fp" where
  "fp_round F x = (if x = 0 then Fin 0 else
     let v = round_abs F \<bar>x\<bar> in if 2 powi ff_emax F \<le> v then Inf (x < 0) else Fin (if x < 0 then - v else v))"

section \<open>Operations\<close>

primrec fp_neg :: "fp \<Rightarrow> fp" where
  "fp_neg (Fin x) = Fin (- x)"
| "fp_neg (Inf s) = Inf (\<not> s)"
| "fp_neg NaN = NaN"

primrec fp_abs :: "fp \<Rightarrow> fp" where
  "fp_abs (Fin x) = Fin \<bar>x\<bar>"
| "fp_abs (Inf s) = Inf False"
| "fp_abs NaN = NaN"

fun fp_add :: "fformat \<Rightarrow> fp \<Rightarrow> fp \<Rightarrow> fp" where
  "fp_add F (Fin x) (Fin y) = fp_round F (x + y)"
| "fp_add F (Inf s) (Fin y) = Inf s"
| "fp_add F (Fin x) (Inf t) = Inf t"
| "fp_add F (Inf s) (Inf t) = (if s = t then Inf s else NaN)"
| "fp_add F a b = NaN"

definition fp_sub :: "fformat \<Rightarrow> fp \<Rightarrow> fp \<Rightarrow> fp" where
  "fp_sub F a b = fp_add F a (fp_neg b)"

fun fp_mul :: "fformat \<Rightarrow> fp \<Rightarrow> fp \<Rightarrow> fp" where
  "fp_mul F (Fin x) (Fin y) = fp_round F (x * y)"
| "fp_mul F (Inf s) (Fin y) = (if y = 0 then NaN else Inf (s \<noteq> (y < 0)))"
| "fp_mul F (Fin x) (Inf t) = (if x = 0 then NaN else Inf (t \<noteq> (x < 0)))"
| "fp_mul F (Inf s) (Inf t) = Inf (s \<noteq> t)"
| "fp_mul F a b = NaN"

text \<open>The sign of a quotient by zero would be the sign of that zero; the code modelled never divides by zero.\<close>

fun fp_div :: "fformat \<Rightarrow> fp \<Rightarrow> fp \<Rightarrow> fp" where
  "fp_div F (Fin x) (Fin y) = (if y = 0 then (if x = 0 then NaN else Inf (x < 0)) else fp_round F (x / y))"
| "fp_div F (Inf s) (Fin y) = Inf (s \<noteq> (y < 0))"
| "fp_div F (Fin x) (Inf t) = Fin 0"
| "fp_div F a b = NaN"

text \<open>The integer square root by digits in base four.\<close>

fun isqrt :: "nat \<Rightarrow> nat" where
  "isqrt n = (if n = 0 then 0 else let r = 2 * isqrt (n div 4) in if (r + 1) * (r + 1) \<le> n then r + 1 else r)"

declare isqrt.simps [simp del]

definition round_sqrt :: "rat \<Rightarrow> int" where
  "round_sqrt y = (let n = int (isqrt (nat \<lfloor>y\<rfloor>)); h = (of_int n + 1 / 2) * (of_int n + 1 / 2)
     in if y < h then n else if h < y then n + 1 else if even n then n else n + 1)"

definition sqrt_abs :: "fformat \<Rightarrow> rat \<Rightarrow> rat" where
  "sqrt_abs F x = (let u = fp_quantum F (f64_exponent x div 2) in of_int (round_sqrt (x / (u * u))) * u)"

primrec fp_sqrt :: "fformat \<Rightarrow> fp \<Rightarrow> fp" where
  "fp_sqrt F (Fin x) = (if x = 0 then Fin 0 else if x < 0 then NaN else Fin (sqrt_abs F x))"
| "fp_sqrt F (Inf s) = (if s then NaN else Inf False)"
| "fp_sqrt F NaN = NaN"

fun fp_less :: "fp \<Rightarrow> fp \<Rightarrow> bool" where
  "fp_less (Fin x) (Fin y) = (x < y)"
| "fp_less (Fin x) (Inf t) = (\<not> t)"
| "fp_less (Inf s) (Fin y) = s"
| "fp_less (Inf s) (Inf t) = (s \<and> \<not> t)"
| "fp_less a b = False"

definition fp_le :: "fp \<Rightarrow> fp \<Rightarrow> bool" where
  "fp_le a b \<longleftrightarrow> a \<noteq> NaN \<and> b \<noteq> NaN \<and> \<not> fp_less b a"

text \<open>\<open>max\<close> and \<open>min\<close> return the other operand if one is NaN.\<close>

definition fp_max :: "fp \<Rightarrow> fp \<Rightarrow> fp" where
  "fp_max a b = (if a = NaN then b else if b = NaN then a else if fp_less a b then b else a)"

definition fp_min :: "fp \<Rightarrow> fp \<Rightarrow> fp" where
  "fp_min a b = (if a = NaN then b else if b = NaN then a else if fp_less b a then b else a)"

text \<open>A conversion to another format.\<close>

primrec fp_cast :: "fformat \<Rightarrow> fp \<Rightarrow> fp" where
  "fp_cast F (Fin x) = fp_round F x"
| "fp_cast F (Inf s) = Inf s"
| "fp_cast F NaN = NaN"

primrec is_finite :: "fp \<Rightarrow> bool" where
  "is_finite (Fin x) = True"
| "is_finite (Inf s) = False"
| "is_finite NaN = False"

text \<open>The value of the 32 bits of an \<open>f32\<close>.\<close>

definition f32_of_bits :: "32 word \<Rightarrow> fp" where
  "f32_of_bits w =
     (let s = bit w 31; e = unat (drop_bit 23 w) mod 256; m = unat (take_bit 23 w);
          v = (if e = 0 then of_nat m * 2 powi (-149) else of_nat (m + 2 ^ 23) * 2 powi (int e - 150))
      in if e = 255 then (if m = 0 then Inf s else NaN) else Fin (if s then - v else v))"

section \<open>Rounding to a grid\<close>

lemma to_grid_le: "0 < u \<Longrightarrow> x \<le> of_int k * u \<Longrightarrow> to_grid u x \<le> of_int k * u"
  unfolding to_grid_def using round_half_even_mono [of "x / u" "of_int k"] by (simp add: field_simps)

lemma to_grid_ge: "0 < u \<Longrightarrow> of_int k * u \<le> x \<Longrightarrow> of_int k * u \<le> to_grid u x"
  unfolding to_grid_def using round_half_even_mono [of "of_int k" "x / u"] by (simp add: field_simps)

lemma to_grid_exact: "0 < u \<Longrightarrow> to_grid u (of_int k * u) = of_int k * u"
  by (simp add: to_grid_def)

lemma to_grid_mono: "0 < u \<Longrightarrow> x \<le> y \<Longrightarrow> to_grid u x \<le> to_grid u y"
  by (simp add: to_grid_def round_half_even_mono divide_right_mono)

lemma fp_quantum_pos [simp]: "0 < fp_quantum F e"
  by (simp add: fp_quantum_def)

lemma powi_grid: "a \<le> b \<Longrightarrow> (2::rat) powi b = of_int (2 ^ nat (b - a)) * 2 powi a"
  using power_int_add [of "2::rat" "b - a" a] by (simp add: power_int_def)

lemma exponent_mono: "0 < x \<Longrightarrow> x \<le> y \<Longrightarrow> f64_exponent x \<le> f64_exponent y"
proof -
  assume "0 < x" "x \<le> y"
  then have "(2::rat) powi f64_exponent x < 2 powi (f64_exponent y + 1)"
    using f64_exponent_bounds(1) [of x] f64_exponent_bounds(2) [of y] by linarith
  then show ?thesis by (auto dest: powi_less_exponent)
qed

lemma round_abs_hi:
  assumes "0 < x" "0 \<le> ff_prec F"
  shows "round_abs F x \<le> 2 powi max (f64_exponent x + 1) (ff_qmin F)"
proof -
  define q where "q = max (f64_exponent x - (ff_prec F - 1)) (ff_qmin F)"
  define m where "m = max (f64_exponent x + 1) (ff_qmin F)"
  have "q \<le> m" "f64_exponent x + 1 \<le> m"
    using assms(2) by (auto simp: q_def m_def)
  then have "x \<le> of_int (2 ^ nat (m - q)) * 2 powi q"
    using f64_exponent_bounds(2) [OF assms(1)] power_int_increasing [of "f64_exponent x + 1" m "2::rat"] powi_grid [of q m] by simp
  then have "to_grid (2 powi q) x \<le> of_int (2 ^ nat (m - q)) * 2 powi q"
    by (intro to_grid_le) simp_all
  then show ?thesis
    using powi_grid [OF \<open>q \<le> m\<close>] by (simp add: round_abs_def fp_quantum_def q_def m_def)
qed

lemma round_abs_lo:
  assumes "0 < x" "1 \<le> ff_prec F" "ff_qmin F \<le> f64_exponent x"
  shows "2 powi f64_exponent x \<le> round_abs F x"
proof -
  define q where "q = max (f64_exponent x - (ff_prec F - 1)) (ff_qmin F)"
  have q: "q \<le> f64_exponent x"
    using assms(2,3) by (auto simp: q_def)
  have "of_int (2 ^ nat (f64_exponent x - q)) * 2 powi q \<le> to_grid (2 powi q) x"
    using f64_exponent_bounds(1) [OF assms(1)] powi_grid [OF q] by (intro to_grid_ge) simp_all
  then show ?thesis
    using powi_grid [OF q] by (simp add: round_abs_def fp_quantum_def q_def)
qed

lemma round_abs_mono:
  assumes "0 < x" "x \<le> y" "1 \<le> ff_prec F"
  shows "round_abs F x \<le> round_abs F y"
proof -
  let ?a = "f64_exponent x" and ?b = "f64_exponent y" and ?p = "ff_prec F - 1"
  have le: "?a \<le> ?b"
    by (rule exponent_mono [OF assms(1,2)])
  show ?thesis
  proof (cases "max (?a - ?p) (ff_qmin F) = max (?b - ?p) (ff_qmin F)")
    case True
    then show ?thesis
      using to_grid_mono [OF _ assms(2)] by (simp add: round_abs_def fp_quantum_def)
  next
    case False
    then have "max (?a + 1) (ff_qmin F) \<le> ?b" "ff_qmin F \<le> ?b"
      using le assms(3) by (auto simp: max_def split: if_splits)
    then have "round_abs F x \<le> 2 powi ?b"
      using round_abs_hi [OF assms(1), of F] assms(3) power_int_increasing [of "max (?a + 1) (ff_qmin F)" ?b "2::rat"] by linarith
    then show ?thesis
      using round_abs_lo [of y F] assms \<open>ff_qmin F \<le> ?b\<close> by linarith
  qed
qed

section \<open>The numbers of a format\<close>

definition in_format :: "fformat \<Rightarrow> rat \<Rightarrow> bool" where
  "in_format F v \<longleftrightarrow> v < 2 powi ff_emax F \<and> (\<exists>k q. v = of_nat k * 2 powi q \<and> int k < 2 ^ nat (ff_prec F) \<and> ff_qmin F \<le> q)"

lemma round_abs_exact:
  assumes "in_format F v" "0 < v" "1 \<le> ff_prec F"
  shows "round_abs F v = v"
proof -
  obtain k q where v: "v = of_nat k * 2 powi q" "int k < 2 ^ nat (ff_prec F)" "ff_qmin F \<le> q"
    using assms(1) by (auto simp: in_format_def)
  have "(of_nat k :: rat) < 2 powi ff_prec F"
    using v(2) assms(3) by (metis nat_0_le of_int_less_iff of_int_of_nat_eq of_int_numeral of_int_power order_trans power_int_of_nat zero_le_one)
  then have "v < 2 powi (ff_prec F + q)"
    unfolding v(1) by (simp add: power_int_add)
  then have "(2::rat) powi f64_exponent v < 2 powi (ff_prec F + q)"
    using f64_exponent_bounds(1) [OF assms(2)] by linarith
  then have "f64_exponent v < ff_prec F + q"
    by (rule powi_less_exponent)
  define m where "m = max (f64_exponent v - (ff_prec F - 1)) (ff_qmin F)"
  have m: "m \<le> q"
    using \<open>f64_exponent v < ff_prec F + q\<close> v(3) by (simp add: m_def)
  have "v = of_int (int k * 2 ^ nat (q - m)) * 2 powi m"
    unfolding v(1) powi_grid [OF m] by simp
  then have "to_grid (2 powi m) v = v"
    using to_grid_exact [of "2 powi m" "int k * 2 ^ nat (q - m)"] by simp
  then show ?thesis
    by (simp add: round_abs_def fp_quantum_def m_def)
qed

lemma fp_round_exact: "in_format F v \<Longrightarrow> 0 \<le> v \<Longrightarrow> 1 \<le> ff_prec F \<Longrightarrow> fp_round F v = Fin v"
  using round_abs_exact [of F v] by (auto simp: fp_round_def in_format_def Let_def)

lemma fp_round_neg: "fp_round F (- x) = fp_neg (fp_round F x)"
  by (auto simp: fp_round_def Let_def)

lemma round_abs_nonneg: "0 < x \<Longrightarrow> 0 \<le> round_abs F x"
  using to_grid_ge [of "fp_quantum F (f64_exponent x)" 0 x] by (simp add: round_abs_def)

lemma fp_round_nonneg: "0 \<le> x \<Longrightarrow> fp_round F x = Inf False \<or> (\<exists>r\<ge>0. fp_round F x = Fin r)"
  using round_abs_nonneg [of x F] by (auto simp: fp_round_def Let_def)

lemma fp_round_le:
  assumes "0 \<le> x" "x \<le> v" "in_format F v" "1 \<le> ff_prec F"
  shows "\<exists>r. fp_round F x = Fin r \<and> 0 \<le> r \<and> r \<le> v"
proof (cases "x = 0")
  case False
  then have "0 < x" "0 < v"
    using assms by auto
  then have "round_abs F x \<le> v"
    using round_abs_mono [of x v F] round_abs_exact [of F v] assms by simp
  then show ?thesis
    using \<open>0 < x\<close> round_abs_nonneg [of x F] assms(3) by (auto simp: fp_round_def Let_def in_format_def)
qed (use assms in \<open>simp add: fp_round_def\<close>)

lemma fp_round_ge:
  assumes "0 \<le> v" "v \<le> x" "in_format F v" "1 \<le> ff_prec F"
  shows "fp_round F x = Inf False \<or> (\<exists>r\<ge>v. fp_round F x = Fin r)"
proof (cases "v = 0")
  case True
  then show ?thesis using assms fp_round_nonneg by simp
next
  case False
  then have "v \<le> round_abs F x"
    using round_abs_mono [of v x F] round_abs_exact [of F v] assms by simp
  then show ?thesis
    using assms False by (auto simp: fp_round_def Let_def)
qed

lemma fp_round_0 [simp]: "fp_round F 0 = Fin 0"
  by (simp add: fp_round_def)

lemma fp_round_not_NaN [simp]: "fp_round F x \<noteq> NaN"
  by (simp add: fp_round_def Let_def)

lemma formats [simp]: "ff_prec f32 = 24" "ff_prec f64 = 53" "ff_qmin f32 = -149" "ff_qmin f64 = -1074" "ff_emax f32 = 128" "ff_emax f64 = 1024"
  by (simp_all add: f32_def f64_def)

lemma fp_round_abs: "in_format F \<bar>x\<bar> \<Longrightarrow> 1 \<le> ff_prec F \<Longrightarrow> fp_round F x = Fin x"
  using fp_round_exact [of F "\<bar>x\<bar>"] fp_round_neg [of F x] fp_round_neg [of F "- x"] by (cases "x < 0") simp_all

lemma in_formatI: "k < 2 ^ nat (ff_prec F) \<Longrightarrow> ff_qmin F \<le> q \<Longrightarrow> of_nat k * 2 powi q < (2 :: rat) powi ff_emax F \<Longrightarrow> in_format F (of_nat k * 2 powi q)"
  unfolding in_format_def by (metis of_nat_less_iff of_nat_numeral of_nat_power)

lemma in_format_f64: "in_format f32 v \<Longrightarrow> in_format f64 v"
proof -
  assume "in_format f32 v"
  then obtain k q where v: "v = of_nat k * 2 powi q" "int k < 2 ^ 24" "-149 \<le> q" "v < 2 powi 128"
    by (auto simp: in_format_def)
  have "(2 :: rat) powi 128 \<le> 2 powi 1024"
    by (rule power_int_increasing) simp_all
  then show ?thesis
    using v unfolding in_format_def formats by (intro conjI exI [of _ k] exI [of _ q]) auto
qed

lemma scaled_in_format:
  assumes "(k :: nat) < 2 ^ nat (ff_prec F)" "ff_qmin F \<le> q" "ff_prec F + q \<le> ff_emax F" "0 \<le> ff_prec F"
  shows "in_format F (of_nat k * 2 powi q)"
proof -
  have "(of_nat k :: rat) < of_nat (2 ^ nat (ff_prec F))"
    using assms(1) by (simp only: of_nat_less_iff)
  then have "(of_nat k :: rat) < 2 powi ff_prec F"
    using assms(4) by (simp add: power_int_def)
  then have "of_nat k * 2 powi q < (2 :: rat) powi (ff_prec F + q)"
    by (simp add: power_int_add)
  also have "\<dots> \<le> 2 powi ff_emax F"
    using assms(3) by (intro power_int_increasing) simp_all
  finally show ?thesis
    using assms(1,2) by (intro in_formatI)
qed

lemma powi_in_format: "ff_qmin F \<le> q \<Longrightarrow> ff_prec F + q \<le> ff_emax F \<Longrightarrow> 1 \<le> ff_prec F \<Longrightarrow> in_format F (2 powi q)"
  using scaled_in_format [of 1 F q] one_less_power [of "2 :: nat" "nat (ff_prec F)"] by simp

lemma f32_bits_in_format: "f32_of_bits w = Fin x \<Longrightarrow> in_format f32 \<bar>x\<bar>"
proof -
  assume w: "f32_of_bits w = Fin x"
  define m where "m = unat (take_bit 23 w)"
  define e where "e = unat (drop_bit 23 w) mod 256"
  have m: "m < 2 ^ 23"
    unfolding m_def unsigned_take_bit_eq by (rule take_bit_nat_less_exp)
  have e: "e < 255"
    using w by (auto simp: f32_of_bits_def Let_def m_def e_def split: if_splits)
  define v :: rat where "v = (if e = 0 then of_nat m * 2 powi (-149) else of_nat (m + 2 ^ 23) * 2 powi (int e - 150))"
  have "0 \<le> v"
    by (cases "e = 0") (simp_all add: v_def)
  moreover have "x = (if bit w 31 then - v else v)"
    using w e unfolding f32_of_bits_def Let_def m_def [symmetric] e_def [symmetric] v_def [symmetric] by simp
  ultimately have "\<bar>x\<bar> = v"
    by simp
  then have "\<bar>x\<bar> = (if e = 0 then of_nat m * 2 powi (-149) else of_nat (m + 2 ^ 23) * 2 powi (int e - 150))"
    unfolding v_def .
  then show ?thesis
    using m e scaled_in_format [of m f32 "-149"] scaled_in_format [of "m + 2 ^ 23" f32 "int e - 150"] by simp
qed

section \<open>Values that are not negative\<close>

definition nonneg :: "fp \<Rightarrow> bool" where
  "nonneg a \<longleftrightarrow> a = Inf False \<or> (\<exists>x\<ge>0. a = Fin x)"

lemma nonneg_simps [simp]: "nonneg (Fin x) \<longleftrightarrow> 0 \<le> x" "nonneg (Inf s) \<longleftrightarrow> \<not> s" "\<not> nonneg NaN"
  by (auto simp: nonneg_def)

lemma nonneg_round [simp]: "0 \<le> x \<Longrightarrow> nonneg (fp_round F x)"
  using fp_round_nonneg by (auto simp: nonneg_def)

lemma nonneg_add: "nonneg a \<Longrightarrow> nonneg b \<Longrightarrow> nonneg (fp_add F a b)"
  by (cases a; cases b) auto

lemma nonneg_square: "a \<noteq> NaN \<Longrightarrow> nonneg (fp_mul F a a)"
  by (cases a) auto

lemma nonneg_sqrt: "nonneg a \<Longrightarrow> nonneg (fp_sqrt F a)"
proof (cases a)
  case (Fin x)
  have "0 \<le> round_sqrt y" for y
    by (auto simp: round_sqrt_def Let_def)
  then have "0 \<le> sqrt_abs F x"
    by (simp add: sqrt_abs_def Let_def less_imp_le)
  then show "nonneg a \<Longrightarrow> ?thesis" using Fin by auto
qed auto

lemma fp_cast_eq_NaN [simp]: "fp_cast F a = NaN \<longleftrightarrow> a = NaN"
  by (cases a) auto

lemma NaN_eq_fp_cast [simp]: "NaN = fp_cast F a \<longleftrightarrow> a = NaN"
  using fp_cast_eq_NaN [of F a] by metis

section \<open>Order\<close>

lemma fp_le_simps [simp]: "fp_le (Fin x) (Fin y) \<longleftrightarrow> x \<le> y" "\<not> fp_le NaN a" "\<not> fp_le a NaN" "fp_le (Fin x) (Inf s) \<longleftrightarrow> \<not> s"
    "fp_le (Inf s) (Fin x) \<longleftrightarrow> s" "fp_le (Inf s) (Inf t) \<longleftrightarrow> (t \<longrightarrow> s)"
  by (auto simp: fp_le_def)

lemma fp_le_trans: "fp_le a b \<Longrightarrow> fp_le b c \<Longrightarrow> fp_le a c"
  by (cases a; cases b; cases c) auto

lemma fp_le_refl: "a \<noteq> NaN \<Longrightarrow> fp_le a a"
  by (cases a) auto

lemma fp_round_mono:
  assumes "0 \<le> x" "x \<le> y" "1 \<le> ff_prec F"
  shows "fp_le (fp_round F x) (fp_round F y)"
proof (cases "x = 0")
  case True
  then show ?thesis using fp_round_nonneg [of y F] assms by auto
next
  case False
  then have "round_abs F x \<le> round_abs F y"
    using assms by (intro round_abs_mono) auto
  then show ?thesis
    using False assms by (auto simp: fp_round_def Let_def)
qed

text \<open>What rounding returns is a number of the format.\<close>

lemma round_abs_in_format:
  assumes "0 < x" "1 \<le> ff_prec F" "round_abs F x < 2 powi ff_emax F"
  shows "in_format F (round_abs F x)"
proof -
  define q where "q = max (f64_exponent x - (ff_prec F - 1)) (ff_qmin F)"
  define k where "k = round_half_even (x / 2 powi q)"
  have v: "round_abs F x = of_int k * 2 powi q"
    by (simp add: round_abs_def to_grid_def fp_quantum_def q_def k_def)
  have "x < 2 powi (f64_exponent x + 1)" "f64_exponent x + 1 \<le> ff_prec F + q"
    using f64_exponent_bounds(2) [OF assms(1)] by (auto simp: q_def)
  then have "x \<le> 2 powi (ff_prec F + q)"
    using power_int_increasing [of "f64_exponent x + 1" "ff_prec F + q" "2 :: rat"] by simp
  then have "x / 2 powi q \<le> of_int (2 ^ nat (ff_prec F))"
    using assms(2) by (simp add: power_int_add pos_divide_le_eq) (simp add: power_int_def)
  then have "k \<le> 2 ^ nat (ff_prec F)"
    unfolding k_def using round_half_even_mono round_half_even_int by metis
  moreover have "0 \<le> k"
    unfolding k_def using round_half_even_mono [of 0 "x / 2 powi q"] round_half_even_int [of 0] assms(1) by simp
  ultimately consider "k = 2 ^ nat (ff_prec F)" | "k = int (nat k)" "int (nat k) < 2 ^ nat (ff_prec F)"
    by fastforce
  then show ?thesis
  proof cases
    case 1
    then have "round_abs F x = of_nat 1 * 2 powi (ff_prec F + q)"
      using v assms(2) by (simp add: power_int_add) (simp add: power_int_def)
    moreover have "ff_qmin F \<le> ff_prec F + q" "int 1 < 2 ^ nat (ff_prec F)"
      using assms(2) one_less_power [of "2 :: int" "nat (ff_prec F)"] by (auto simp: q_def)
    ultimately show ?thesis
      using assms(3) unfolding in_format_def by blast
  next
    case 2
    then have "round_abs F x = of_nat (nat k) * 2 powi q"
      using v by (metis of_int_of_nat_eq)
    then show ?thesis
      using 2(2) assms(3) unfolding in_format_def by (metis max.cobounded2 q_def)
  qed
qed

lemma fp_round_in_format: "1 \<le> ff_prec F \<Longrightarrow> fp_round F x = Fin v \<Longrightarrow> in_format F \<bar>v\<bar>"
proof (cases "x = 0")
  case True
  have "in_format F (of_nat 0 * 2 powi ff_qmin F)" if "1 \<le> ff_prec F"
    using that by (intro in_formatI) simp_all
  then show "1 \<le> ff_prec F \<Longrightarrow> fp_round F x = Fin v \<Longrightarrow> ?thesis"
    using True by simp
next
  case False
  then show "1 \<le> ff_prec F \<Longrightarrow> fp_round F x = Fin v \<Longrightarrow> ?thesis"
    using round_abs_in_format [of "\<bar>x\<bar>" F] round_abs_nonneg [of "\<bar>x\<bar>" F]
    by (auto simp: fp_round_def Let_def not_le split: if_splits)
qed

end
