(* ===== verification/Verifier.thy ===== *)
theory Verifier
  imports Ieee "HOL-Library.Multiset"
begin

text \<open>
  The comparison of a submitted training result with its replay (shared/verifier/src/lib.rs). Deltas are
  lists of \<open>f32\<close>: of their bits where they are hashed, of their values where they are computed with.
\<close>

section \<open>Distances and bands\<close>

definition DEFAULT_BAND :: fp where
  "DEFAULT_BAND = fp_round f32 (5 / 100)"

definition DEFAULT_SAFETY_FACTOR :: fp where
  "DEFAULT_SAFETY_FACTOR = Fin 5"

definition NORM_FLOOR :: fp where
  "NORM_FLOOR = fp_round f32 (1 / 10 ^ 12)"

datatype VerifierError =
  LengthMismatch nat nat | InvalidBand fp | EmptyCalibration | NonFiniteSubmission nat | NonFiniteReplay nat | NonFiniteCalibration

record BandVerdict =
  bv_distance :: fp
  bv_band :: fp
  bv_fraud :: bool

definition margin :: "BandVerdict \<Rightarrow> fp" where
  "margin v = fp_sub f32 (bv_distance v) (bv_band v)"

definition first_non_finite :: "fp list \<Rightarrow> nat option" where
  "first_non_finite xs = find_position (\<lambda>x. \<not> is_finite x) xs"

definition squares_step :: "fp \<times> fp \<Rightarrow> fp \<times> fp \<Rightarrow> fp \<times> fp" where
  "squares_step = (\<lambda>(s, r) (diff_sq, ref_sq).
     let d = fp_cast f64 (fp_sub f32 s r) in
     (fp_add f64 diff_sq (fp_mul f64 d d), fp_add f64 ref_sq (fp_mul f64 (fp_cast f64 r) (fp_cast f64 r))))"

definition relative_l2_distance :: "fp list \<Rightarrow> fp list \<Rightarrow> (VerifierError, fp) res" where
  "relative_l2_distance submitted recomputed =
     (if length submitted \<noteq> length recomputed then Err (LengthMismatch (length submitted) (length recomputed))
      else case first_non_finite submitted of
        Some index \<Rightarrow> Err (NonFiniteSubmission index)
      | None \<Rightarrow> (case first_non_finite recomputed of
          Some index \<Rightarrow> Err (NonFiniteReplay index)
        | None \<Rightarrow>
            (let (diff_sq, ref_sq) = fold squares_step (zip submitted recomputed) (Fin 0, Fin 0);
                 denom = fp_max (fp_sqrt f64 ref_sq) (fp_cast f64 NORM_FLOOR)
             in Ok (fp_cast f32 (fp_div f64 (fp_sqrt f64 diff_sq) denom)))))"

definition verify_within_band :: "fp list \<Rightarrow> fp list \<Rightarrow> fp \<Rightarrow> (VerifierError, BandVerdict) res" where
  "verify_within_band submitted recomputed band =
     (if \<not> is_finite band \<or> fp_less band (Fin 0) then Err (InvalidBand band)
      else
        rbind (case relative_l2_distance submitted recomputed of
            Ok distance \<Rightarrow> Ok distance
          | Err (NonFiniteSubmission _) \<Rightarrow> Ok (Inf False)
          | Err e \<Rightarrow> Err e
          | Panic \<Rightarrow> Panic) (\<lambda>distance.
        Ok \<lparr>bv_distance = distance, bv_band = band, bv_fraud = fp_less band distance\<rparr>))"

definition calibrate_band :: "fp list \<Rightarrow> fp \<Rightarrow> (VerifierError, fp) res" where
  "calibrate_band drift_distances safety_factor =
     (if drift_distances = [] then Err EmptyCalibration
      else if list_ex (\<lambda>d. \<not> is_finite d) drift_distances then Err NonFiniteCalibration
      else
        let worst = foldl (\<lambda>acc d. fp_max acc (fp_abs d)) (Fin 0) drift_distances in
        Ok (fp_mul f32 worst (fp_max safety_factor (Fin 1))))"

section \<open>Proofs of fraud\<close>

definition f32_le_bytes :: "32 word \<Rightarrow> bytes" where
  "f32_le_bytes w = to_le_bytes 4 (unat w)"

definition hash_delta :: "externs \<Rightarrow> 32 word list \<Rightarrow> bytes" where
  "hash_delta X delta = sha256v X (map f32_le_bytes delta)"

record FraudProof =
  fpr_target_index :: nat
  fpr_committed_hash :: bytes
  fpr_replayed_hash :: bytes
  fpr_distance :: fp
  fpr_band :: fp

record AuditReport =
  ar_verdict :: BandVerdict
  ar_proof :: "FraudProof option"

definition audit_contribution ::
  "externs \<Rightarrow> nat \<Rightarrow> 32 word list \<Rightarrow> 32 word list \<Rightarrow> fp \<Rightarrow> (VerifierError, AuditReport) res" where
  "audit_contribution X target_index submitted recomputed band =
     rbind (verify_within_band (map f32_of_bits submitted) (map f32_of_bits recomputed) band) (\<lambda>verdict.
       Ok \<lparr>ar_verdict = verdict,
         ar_proof = (if bv_fraud verdict
           then Some \<lparr>fpr_target_index = target_index, fpr_committed_hash = hash_delta X submitted,
             fpr_replayed_hash = hash_delta X recomputed, fpr_distance = bv_distance verdict, fpr_band = bv_band verdict\<rparr>
           else None)\<rparr>)"

section \<open>Robust aggregation\<close>

record AggregationConfig =
  ac_excision_multiplier :: fp
  ac_iterations :: nat

record Aggregation =
  ag_result :: "fp list"
  ag_kept :: "bool list"

definition AggregationConfig_default :: AggregationConfig where
  "AggregationConfig_default = \<lparr>ac_excision_multiplier = Fin 3, ac_iterations = 3\<rparr>"

definition l2_norm :: "fp list \<Rightarrow> fp" where
  "l2_norm v = fp_cast f32 (fp_sqrt f64 (foldl (\<lambda>acc x. fp_add f64 acc (fp_mul f64 (fp_cast f64 x) (fp_cast f64 x))) (Fin 0) v))"

text \<open>
  The order of a list with NaN after \<open>sort_by\<close> with the partial order is not specified, so the sort is a
  parameter; without NaN it orders the list.
\<close>

definition sorts :: "(fp list \<Rightarrow> fp list) \<Rightarrow> bool" where
  "sorts srt \<longleftrightarrow> (\<forall>xs. mset (srt xs) = mset xs \<and> (NaN \<notin> set xs \<longrightarrow> sorted_wrt fp_le (srt xs)))"

definition median :: "(fp list \<Rightarrow> fp list) \<Rightarrow> fp list \<Rightarrow> fp" where
  "median srt values =
     (if values = [] then Fin 0
      else let vs = srt values; mid = length vs div 2 in
        if length vs mod 2 = 1 then vs ! mid
        else fp_mul f32 (Fin (1 / 2)) (fp_add f32 (vs ! (mid - 1)) (vs ! mid)))"

definition distance_to :: "fp list \<Rightarrow> fp list \<Rightarrow> fp" where
  "distance_to delta center = l2_norm (map (\<lambda>(d, c). fp_sub f32 d c) (zip delta center))"

definition clip_factor :: "fp \<Rightarrow> fp \<Rightarrow> fp" where
  "clip_factor radius nrm = (if fp_less (fp_round f32 (1 / 10 ^ 12)) nrm then fp_min (fp_div f32 radius nrm) (Fin 1) else Fin 1)"

definition accumulate :: "fp list \<Rightarrow> fp \<Rightarrow> fp list \<Rightarrow> fp list \<Rightarrow> fp list" where
  "accumulate center radius delta accum =
     (let factor = clip_factor radius (distance_to delta center) in
      map (\<lambda>(a, d, c). fp_add f32 a (fp_mul f32 (fp_sub f32 d c) factor)) (zip accum (zip delta center)))"

definition aggregate_round :: "(fp list \<Rightarrow> fp list) \<Rightarrow> fp list list \<Rightarrow> fp list \<Rightarrow> fp list" where
  "aggregate_round srt kept_deltas center =
     (let norms = map (\<lambda>d. distance_to d center) kept_deltas;
          radius = median srt norms;
          accum = foldl (\<lambda>accum delta. accumulate center radius delta accum) (replicate (length center) (Fin 0)) kept_deltas;
          n = fp_round f32 (of_nat (length kept_deltas))
      in map (\<lambda>(c, a). fp_add f32 c (fp_div f32 a n)) (zip center accum))"

definition keep_mask :: "(fp list \<Rightarrow> fp list) \<Rightarrow> AggregationConfig \<Rightarrow> fp list list \<Rightarrow> bool list" where
  "keep_mask srt cfg deltas =
     (let distances = map (\<lambda>d. distance_to d (replicate (length d) (Fin 0))) deltas;
          limit = fp_mul f32 (ac_excision_multiplier cfg) (median srt distances)
      in map (\<lambda>d. fp_le d limit) distances)"

definition robust_aggregate ::
  "(fp list \<Rightarrow> fp list) \<Rightarrow> fp list list \<Rightarrow> AggregationConfig \<Rightarrow> (VerifierError, Aggregation) res" where
  "robust_aggregate srt deltas cfg =
     (case deltas of [] \<Rightarrow> Ok \<lparr>ag_result = [], ag_kept = []\<rparr>
      | first # _ \<Rightarrow>
        (case find (\<lambda>d. length d \<noteq> length first) deltas of
          Some d \<Rightarrow> Err (LengthMismatch (length d) (length first))
        | None \<Rightarrow>
          (let kept = keep_mask srt cfg deltas;
               kept_indices = (if list_ex id kept then filter (\<lambda>i. kept ! i) [0..<length deltas] else [0..<length deltas]);
               center = (aggregate_round srt (map ((!) deltas) kept_indices) ^^ ac_iterations cfg) (replicate (length first) (Fin 0))
           in Ok \<lparr>ag_result = center, ag_kept = kept\<rparr>)))"

section \<open>Audits\<close>

datatype ReplayError = NotAssigned nat | CheckpointUnavailable nat | Backend string

record Contribution =
  con_target_index :: nat
  con_submitted :: "32 word list"

datatype AuditOutcome =
  Judged AuditReport | ReplayFailed nat ReplayError | Malformed nat VerifierError

text \<open>The replay engine is an argument: what it returns for each target.\<close>

definition audit_one :: "externs \<Rightarrow> (nat \<Rightarrow> (ReplayError, 32 word list) res) \<Rightarrow> fp \<Rightarrow> Contribution \<Rightarrow> (unit, AuditOutcome) res" where
  "audit_one X replay band c =
     (case replay (con_target_index c) of
        Ok recomputed \<Rightarrow>
          (case audit_contribution X (con_target_index c) (con_submitted c) recomputed band of
             Ok report \<Rightarrow> Ok (Judged report)
           | Err error \<Rightarrow> Ok (Malformed (con_target_index c) error)
           | Panic \<Rightarrow> Panic)
      | Err error \<Rightarrow> Ok (ReplayFailed (con_target_index c) error)
      | Panic \<Rightarrow> Panic)"

primrec audit_round :: "externs \<Rightarrow> (nat \<Rightarrow> (ReplayError, 32 word list) res) \<Rightarrow> Contribution list \<Rightarrow> fp \<Rightarrow> (unit, AuditOutcome list) res" where
  "audit_round X replay [] band = Ok []"
| "audit_round X replay (c # cs) band =
     rbind (audit_one X replay band c) (\<lambda>o1. rbind (audit_round X replay cs band) (\<lambda>os. Ok (o1 # os)))"

definition fraud_proofs :: "AuditOutcome list \<Rightarrow> FraudProof list" where
  "fraud_proofs outcomes = List.map_filter (\<lambda>out. case out of Judged report \<Rightarrow> ar_proof report | ReplayFailed _ _ \<Rightarrow> None | Malformed _ _ \<Rightarrow> None) outcomes"

section \<open>The two sums\<close>

definition sum_squares :: "fp list \<Rightarrow> fp \<Rightarrow> fp" where
  "sum_squares = fold (\<lambda>x acc. fp_add f64 acc (fp_mul f64 x x))"

definition differences :: "fp list \<Rightarrow> fp list \<Rightarrow> fp list" where
  "differences submitted recomputed = map (\<lambda>(s, r). fp_cast f64 (fp_sub f32 s r)) (zip submitted recomputed)"

lemma sum_squares_simps [simp]:
  "sum_squares [] acc = acc" "sum_squares (x # xs) acc = sum_squares xs (fp_add f64 acc (fp_mul f64 x x))"
  by (simp_all add: sum_squares_def)

lemma squares_split:
  "length s = length r \<Longrightarrow> fold squares_step (zip s r) (a, b) = (sum_squares (differences s r) a, sum_squares (map (fp_cast f64) r) b)"
  by (induction s r arbitrary: a b rule: list_induct2) (simp_all add: squares_step_def differences_def Let_def)

lemma sum_squares_nonneg: "nonneg acc \<Longrightarrow> NaN \<notin> set xs \<Longrightarrow> nonneg (sum_squares xs acc)"
  by (induction xs arbitrary: acc) (auto simp: nonneg_add nonneg_square)

lemma sum_squares_zero: "set xs \<subseteq> {Fin 0} \<Longrightarrow> sum_squares xs (Fin 0) = Fin 0"
  by (induction xs) auto

lemma sum_squares_bounded:
  assumes "\<forall>x\<in>set xs. \<exists>v. x = Fin v \<and> \<bar>v\<bar> \<le> 2 ^ 128" "0 \<le> a" "a \<le> of_nat k * 2 powi 256" "k + length xs < 2 ^ 53"
  shows "\<exists>b. sum_squares xs (Fin a) = Fin b \<and> 0 \<le> b"
  using assms
proof (induction xs arbitrary: a k)
  case (Cons x xs)
  obtain v where v: "x = Fin v" "\<bar>v\<bar> \<le> 2 ^ 128"
    using Cons.prems(1) by auto
  have fmt: "in_format f64 (of_nat j * 2 powi 256)" if "j < 2 ^ 53" for j
    using that by (intro scaled_in_format) simp_all
  have "v * v \<le> 2 ^ 128 * 2 ^ 128"
    using mult_mono [OF v(2) v(2)] by (simp only: abs_mult_self_eq) simp
  then obtain r where r: "fp_round f64 (v * v) = Fin r" "0 \<le> r" "r \<le> of_nat 1 * 2 powi 256"
    using fp_round_le [of "v * v" "of_nat 1 * 2 powi 256" f64] fmt [of 1] by auto
  have "a + r \<le> of_nat (Suc k) * 2 powi 256"
    using Cons.prems(3) r(3) by (simp add: algebra_simps)
  then obtain b where b: "fp_round f64 (a + r) = Fin b" "0 \<le> b" "b \<le> of_nat (Suc k) * 2 powi 256"
    using fp_round_le [of "a + r" "of_nat (Suc k) * 2 powi 256" f64] fmt [of "Suc k"] Cons.prems r(2) by auto
  then show ?case
    using Cons.IH [of b "Suc k"] Cons.prems v(1) r(1) by simp
qed auto

text \<open>The divisor is a positive number: the floor keeps it away from zero.\<close>

lemma NORM_FLOOR_pos: "\<exists>v>0. fp_cast f64 NORM_FLOOR = Fin v"
proof -
  have "(2 :: rat) powi (-40) \<le> 1 / 10 ^ 12"
    by (simp add: power_int_minus)
  moreover have "in_format f32 (2 powi (-40))"
    by (rule powi_in_format) simp_all
  moreover note one = powi_in_format [of f32 0, simplified] powi_in_format [of f64 0, simplified]
  ultimately obtain r where r: "NORM_FLOOR = Fin r" "2 powi (-40) \<le> r" "r \<le> 1"
    using fp_round_ge [of "2 powi (-40)" "1 / 10 ^ 12" f32] fp_round_le [of "1 / 10 ^ 12" 1 f32] unfolding NORM_FLOOR_def by auto
  have "in_format f64 (2 powi (-40))"
    by (rule powi_in_format) simp_all
  then obtain v where "fp_round f64 r = Fin v" "2 powi (-40) \<le> v"
    using fp_round_ge [of "2 powi (-40)" r f64] fp_round_le [of r 1 f64] r one by force
  moreover from this(2) have "0 < v"
    by (rule less_le_trans [rotated]) simp
  ultimately show ?thesis
    unfolding r(1) by auto
qed

lemma denom_pos:
  assumes "nonneg a"
  shows "fp_max a (fp_cast f64 NORM_FLOOR) = Inf False \<or> (\<exists>d>0. fp_max a (fp_cast f64 NORM_FLOOR) = Fin d)"
  using assms NORM_FLOOR_pos by (cases a) (auto simp: fp_max_def)

lemma denom_Fin: "0 \<le> x \<Longrightarrow> \<exists>d>0. fp_max (Fin x) (fp_cast f64 NORM_FLOOR) = Fin d"
  using NORM_FLOOR_pos by (auto simp: fp_max_def)

lemma first_non_finite_None: "first_non_finite xs = None \<longleftrightarrow> list_all is_finite xs"
  by (simp add: first_non_finite_def find_position_None list_all_iff)

lemma finite_not_NaN: "list_all is_finite xs \<Longrightarrow> NaN \<notin> set xs"
  by (auto simp: list_all_iff)

lemma is_finiteE: "is_finite a \<Longrightarrow> (\<And>x. a = Fin x \<Longrightarrow> thesis) \<Longrightarrow> thesis"
  by (cases a) auto

lemma differences_not_NaN: "list_all is_finite s \<Longrightarrow> list_all is_finite r \<Longrightarrow> NaN \<notin> set (differences s r)"
proof -
  assume fin: "list_all is_finite s" "list_all is_finite r"
  have "fp_cast f64 (fp_sub f32 a b) \<noteq> NaN" if "(a, b) \<in> set (zip s r)" for a b
  proof -
    have "is_finite a" "is_finite b"
      using fin set_zip_leftD [OF that] set_zip_rightD [OF that] by (auto simp: list_all_iff)
    then show ?thesis
      by (auto elim!: is_finiteE simp: fp_sub_def)
  qed
  then show ?thesis by (force simp: differences_def)
qed

lemma relative_l2_distance_finite:
  assumes "length s = length r" "list_all is_finite s" "list_all is_finite r"
  shows "relative_l2_distance s r = Ok (fp_cast f32 (fp_div f64 (fp_sqrt f64 (sum_squares (differences s r) (Fin 0)))
     (fp_max (fp_sqrt f64 (sum_squares (map (fp_cast f64) r) (Fin 0))) (fp_cast f64 NORM_FLOOR))))"
  using assms(1) assms(2,3) [folded first_non_finite_None] by (simp add: relative_l2_distance_def squares_split Let_def)

section \<open>What the band decides\<close>

lemma verify_valid_band:
  "is_finite band \<Longrightarrow> \<not> fp_less band (Fin 0) \<Longrightarrow> relative_l2_distance s r = Ok d \<Longrightarrow>
   verify_within_band s r band = Ok \<lparr>bv_distance = d, bv_band = band, bv_fraud = fp_less band d\<rparr>"
  by (simp add: verify_within_band_def)

lemma honest_distance:
  assumes "list_all is_finite delta"
  shows "relative_l2_distance delta delta = Ok (Fin 0)"
proof -
  have "x = Fin 0" if x: "x \<in> set (differences delta delta)" for x
  proof -
    obtain a where a: "a \<in> set delta" "x = fp_cast f64 (fp_sub f32 a a)"
      using x by (auto simp: differences_def zip_same)
    then show ?thesis
      using assms by (auto simp: list_all_iff fp_sub_def elim!: is_finiteE dest!: bspec)
  qed
  then have diff: "sum_squares (differences delta delta) (Fin 0) = Fin 0"
    by (intro sum_squares_zero) blast
  have "NaN \<notin> set (map (fp_cast f64) delta)"
    using finite_not_NaN [OF assms] by auto
  then have "nonneg (fp_sqrt f64 (sum_squares (map (fp_cast f64) delta) (Fin 0)))"
    by (simp add: nonneg_sqrt sum_squares_nonneg)
  then show ?thesis
    using relative_l2_distance_finite [OF refl assms assms] diff denom_pos by fastforce
qed

lemma honest_verdict:
  assumes "list_all is_finite delta" "is_finite band" "\<not> fp_less band (Fin 0)"
  shows "verify_within_band delta delta band = Ok \<lparr>bv_distance = Fin 0, bv_band = band, bv_fraud = False\<rparr>"
  using verify_valid_band [OF assms(2,3) honest_distance [OF assms(1)]] assms(2,3) by (auto elim: is_finiteE)

text \<open>
  An honest result is never convicted. If a submission of numbers equals its replay, its distance is
  zero and no band calls it fraud, whatever its length and its values.
\<close>

theorem honest_replay_passes:
  assumes "list_all is_finite delta" "is_finite band" "\<not> fp_less band (Fin 0)"
  shows "verify_within_band delta delta band = Ok \<lparr>bv_distance = Fin 0, bv_band = band, bv_fraud = False\<rparr>"
  using assms by (rule honest_verdict)

theorem honest_replay_passes_witness:
  "verify_within_band [Fin 1, Fin (- 3)] [Fin 1, Fin (- 3)] (Fin 0) = Ok \<lparr>bv_distance = Fin 0, bv_band = Fin 0, bv_fraud = False\<rparr>"
  using honest_replay_passes [of "[Fin 1, Fin (- 3)]" "Fin 0"] by simp

lemma f32_cast_bounded:
  assumes "is_finite (f32_of_bits w)"
  shows "\<exists>v. fp_cast f64 (f32_of_bits w) = Fin v \<and> \<bar>v\<bar> \<le> 2 ^ 128"
proof -
  obtain v where v: "f32_of_bits w = Fin v"
    using assms by (rule is_finiteE)
  have "in_format f32 \<bar>v\<bar>"
    using v by (rule f32_bits_in_format)
  then have "fp_round f64 v = Fin v" "\<bar>v\<bar> < 2 powi 128"
    by (simp_all add: fp_round_abs in_format_f64) (simp add: in_format_def)
  then show ?thesis using v by simp
qed

lemma quotient_nonneg:
  assumes "nonneg n" "0 < d"
  shows "nonneg (fp_cast f32 (fp_div f64 n (Fin d)))"
proof (cases n)
  case (Fin x)
  then have "nonneg (fp_round f64 (x / d))"
    using assms by simp
  then show ?thesis
    using Fin assms(2) by (cases "fp_round f64 (x / d)") auto
qed (use assms in auto)

lemma finite_distance:
  fixes recomputed :: "32 word list"
  assumes "length recomputed < 2 ^ 53" "length s = length r" "list_all is_finite s" "list_all is_finite r"
    and r_def: "r = map f32_of_bits recomputed"
  shows "\<exists>q. relative_l2_distance s r = Ok q \<and> nonneg q"
proof -
  have "\<exists>v. x = Fin v \<and> \<bar>v\<bar> \<le> 2 ^ 128" if "x \<in> set (map (fp_cast f64) r)" for x
    using that assms(4) f32_cast_bounded by (auto simp: r_def list_all_iff)
  then obtain a where a: "sum_squares (map (fp_cast f64) r) (Fin 0) = Fin a" "0 \<le> a"
    using sum_squares_bounded [of "map (fp_cast f64) r" 0 0] assms(1) by (auto simp: r_def)
  have "nonneg (fp_sqrt f64 (Fin a))"
    using a(2) by (intro nonneg_sqrt) simp
  then obtain m where m: "fp_sqrt f64 (Fin a) = Fin m" "0 \<le> m"
    using a(2) by (auto split: if_splits)
  obtain d where d: "0 < d" "fp_max (Fin m) (fp_cast f64 NORM_FLOOR) = Fin d"
    using denom_Fin [OF m(2)] by auto
  have n: "nonneg (fp_sqrt f64 (sum_squares (differences s r) (Fin 0)))"
    using assms(2-4) by (intro nonneg_sqrt sum_squares_nonneg differences_not_NaN) simp_all
  show ?thesis
    using relative_l2_distance_finite [of s r] assms(2-4) a(1) m d quotient_nonneg [OF n d(1)] by simp
qed

text \<open>
  (C30) What the band decides, case by case, for deltas of fewer than \<open>2^53\<close> numbers and a valid band. Deltas
  of different lengths are an error. A submission that is not made of numbers is fraud. A submission of
  numbers against a replay that is not made of numbers is an error. In all other cases there is a verdict with a
  distance that is a number or infinite, never NaN, so that fraud is exactly a distance not within the band.
\<close>

theorem band_decides:
  fixes submitted recomputed :: "32 word list"
  assumes "length recomputed < 2 ^ 53" "is_finite band" "\<not> fp_less band (Fin 0)"
  defines "s \<equiv> map f32_of_bits submitted" and "r \<equiv> map f32_of_bits recomputed"
  shows "(length s \<noteq> length r \<longrightarrow> verify_within_band s r band = Err (LengthMismatch (length s) (length r)))
    \<and> (length s = length r \<and> \<not> list_all is_finite s \<longrightarrow>
         verify_within_band s r band = Ok \<lparr>bv_distance = Inf False, bv_band = band, bv_fraud = True\<rparr>)
    \<and> (length s = length r \<and> list_all is_finite s \<and> \<not> list_all is_finite r \<longrightarrow>
         (\<exists>i. verify_within_band s r band = Err (NonFiniteReplay i)))
    \<and> (length s = length r \<and> list_all is_finite s \<and> list_all is_finite r \<longrightarrow>
         (\<exists>d. verify_within_band s r band = Ok \<lparr>bv_distance = d, bv_band = band, bv_fraud = (\<not> fp_le d band)\<rparr> \<and> nonneg d))"
proof (intro conjI impI)
  obtain b where b: "band = Fin b"
    using assms(2) by (rule is_finiteE)
  assume "length s \<noteq> length r"
  then show "verify_within_band s r band = Err (LengthMismatch (length s) (length r))"
    using assms(2,3) by (simp add: verify_within_band_def relative_l2_distance_def)
next
  assume "length s = length r \<and> \<not> list_all is_finite s"
  moreover from this obtain i where "first_non_finite s = Some i"
    by (metis first_non_finite_None option.exhaust)
  ultimately show "verify_within_band s r band = Ok \<lparr>bv_distance = Inf False, bv_band = band, bv_fraud = True\<rparr>"
    using assms(2,3) by (auto simp: verify_within_band_def relative_l2_distance_def elim: is_finiteE)
next
  assume "length s = length r \<and> list_all is_finite s \<and> \<not> list_all is_finite r"
  moreover from this obtain i where "first_non_finite r = Some i"
    by (metis first_non_finite_None option.exhaust)
  ultimately show "\<exists>i. verify_within_band s r band = Err (NonFiniteReplay i)"
    using assms(2,3) first_non_finite_None [of s] by (simp add: verify_within_band_def relative_l2_distance_def)
next
  assume fin: "length s = length r \<and> list_all is_finite s \<and> list_all is_finite r"
  then obtain q where q: "nonneg q" and "relative_l2_distance s r = Ok q"
    using finite_distance [of recomputed s r] assms(1) r_def by blast
  from this(2) have "verify_within_band s r band = Ok \<lparr>bv_distance = q, bv_band = band, bv_fraud = fp_less band q\<rparr>"
    by (rule verify_valid_band [OF assms(2,3)])
  moreover have "fp_less band q = (\<not> fp_le q band)"
    using q assms(2) by (auto simp: fp_le_def)
  ultimately show "\<exists>d. verify_within_band s r band = Ok \<lparr>bv_distance = d, bv_band = band, bv_fraud = (\<not> fp_le d band)\<rparr> \<and> nonneg d"
    using q by auto
qed

text \<open>The bits of NaN, zero and one.\<close>

lemma demo_bits: "f32_of_bits 0x7fc00000 = NaN" "f32_of_bits 0 = Fin 0" "f32_of_bits 0x3f800000 = Fin 1"
  by (simp_all add: f32_of_bits_def Let_def bit_simps power_int_minus)

theorem band_decides_witness:
  "verify_within_band [NaN] [Fin 0] (Fin 0) = Ok \<lparr>bv_distance = Inf False, bv_band = Fin 0, bv_fraud = True\<rparr>
   \<and> (\<exists>d. verify_within_band [Fin 1] [Fin 1] (Fin 0) = Ok \<lparr>bv_distance = d, bv_band = Fin 0, bv_fraud = (\<not> fp_le d (Fin 0))\<rparr>)"
  using band_decides [of "[0]" "Fin 0" "[0x7fc00000]"] band_decides [of "[0x3f800000]" "Fin 0" "[0x3f800000]"] demo_bits by auto

section \<open>Proofs of fraud\<close>

lemma concat_blocks:
  "length xs = length ys \<Longrightarrow> \<forall>x\<in>set xs. length x = n \<Longrightarrow> \<forall>y\<in>set ys. length y = n \<Longrightarrow> concat xs = concat ys \<Longrightarrow> xs = ys"
  by (induction xs ys rule: list_induct2) auto

lemma f32_le_bytes_inj: "f32_le_bytes a = f32_le_bytes b \<longleftrightarrow> a = b"
proof
  assume "f32_le_bytes a = f32_le_bytes b"
  then have "from_le_bytes (to_le_bytes 4 (unat a)) = from_le_bytes (to_le_bytes 4 (unat b))"
    by (simp add: f32_le_bytes_def)
  moreover have "unat w < 256 ^ 4" for w :: "32 word"
    using unsigned_less [of w] by simp
  ultimately have "unat a = unat b"
    by (simp add: from_le_bytes_to_le_bytes)
  then show "a = b"
    by (rule unsigned_word_eqI)
qed simp

lemma hash_delta_differs:
  assumes "length s = length r" "s \<noteq> r"
  shows "hash_delta X s \<noteq> hash_delta X r \<or> collision X"
proof -
  have "map f32_le_bytes s \<noteq> map f32_le_bytes r"
    using assms(2) inj_map_eq_map [of f32_le_bytes s r] f32_le_bytes_inj by (auto simp: inj_def)
  then have "concat (map f32_le_bytes s) \<noteq> concat (map f32_le_bytes r)"
    using concat_blocks [of "map f32_le_bytes s" "map f32_le_bytes r" 4] assms(1) by (auto simp: f32_le_bytes_def)
  then show ?thesis
    by (auto simp: hash_delta_def sha256v_def collision_def)
qed

lemma verify_Ok:
  assumes "verify_within_band s r band = Ok v"
  shows "length s = length r" "is_finite band" "\<not> fp_less band (Fin 0)" "bv_band v = band" "bv_fraud v = fp_less band (bv_distance v)"
  using assms by (auto simp: verify_within_band_def relative_l2_distance_def split: if_splits res.splits)

text \<open>
  A proof of fraud is evidence. If an audit against a replay of numbers yields a proof, the proof names
  the target, its distance exceeds its band, and its two hashes differ unless SHA-256 collides.
\<close>

theorem fraud_proof_binds:
  assumes "audit_contribution X target submitted recomputed band = Ok report" "ar_proof report = Some p"
    "list_all is_finite (map f32_of_bits recomputed)"
  shows "fpr_target_index p = target \<and> fp_less (fpr_band p) (fpr_distance p)
    \<and> (fpr_committed_hash p \<noteq> fpr_replayed_hash p \<or> collision X)"
proof -
  obtain v where v: "verify_within_band (map f32_of_bits submitted) (map f32_of_bits recomputed) band = Ok v" "bv_fraud v"
      "p = \<lparr>fpr_target_index = target, fpr_committed_hash = hash_delta X submitted, fpr_replayed_hash = hash_delta X recomputed,
        fpr_distance = bv_distance v, fpr_band = bv_band v\<rparr>"
    using assms(1,2) by (auto simp: audit_contribution_def split: if_splits)
  have "submitted \<noteq> recomputed"
  proof
    assume "submitted = recomputed"
    then have "verify_within_band (map f32_of_bits submitted) (map f32_of_bits recomputed) band
        = Ok \<lparr>bv_distance = Fin 0, bv_band = band, bv_fraud = False\<rparr>"
      using honest_verdict [OF assms(3) verify_Ok(2,3) [OF v(1)]] by simp
    then show False
      using v(1,2) by simp
  qed
  then show ?thesis
    using v(2,3) verify_Ok [OF v(1)] hash_delta_differs [of submitted recomputed X] by simp
qed

text \<open>
  (C36) A training step whose honest replay overflows convicts the honest node. If the replay is not made of
  numbers and the submission is the very same, the audit still yields a proof of fraud, and the two hashes
  in it are equal.
\<close>

theorem diverged_replay_convicts:
  assumes "\<not> list_all is_finite (map f32_of_bits delta)" "is_finite band" "\<not> fp_less band (Fin 0)"
  shows "\<exists>report p. audit_contribution X target delta delta band = Ok report \<and> ar_proof report = Some p
    \<and> fpr_committed_hash p = fpr_replayed_hash p"
proof -
  obtain i where "first_non_finite (map f32_of_bits delta) = Some i"
    using assms(1) by (metis first_non_finite_None option.exhaust)
  then show ?thesis
    using assms(2,3) by (auto simp: audit_contribution_def verify_within_band_def relative_l2_distance_def elim: is_finiteE)
qed

definition demo_identity :: externs where
  "demo_identity = \<lparr>sha256 = id, fnv_hash = (\<lambda>k d. k)\<rparr>"

theorem fraud_proof_binds_witness:
  "\<exists>report p. audit_contribution demo_identity 7 [0x7fc00000] [0] (Fin 0) = Ok report \<and> ar_proof report = Some p
     \<and> fpr_target_index p = 7 \<and> fpr_committed_hash p \<noteq> fpr_replayed_hash p"
proof -
  obtain report p where r: "audit_contribution demo_identity 7 [0x7fc00000] [0] (Fin 0) = Ok report" "ar_proof report = Some p"
    by (simp add: audit_contribution_def verify_within_band_def relative_l2_distance_def first_non_finite_def demo_bits)
  moreover have "\<not> collision demo_identity"
    by (simp add: collision_def demo_identity_def)
  ultimately show ?thesis
    using fraud_proof_binds [OF r] demo_bits by auto
qed

theorem diverged_replay_convicts_witness:
  "\<exists>report p. audit_contribution demo_identity 7 [0, 0x7fc00000] [0, 0x7fc00000] (Fin 1) = Ok report \<and> ar_proof report = Some p
     \<and> fpr_committed_hash p = fpr_replayed_hash p"
  using diverged_replay_convicts [of "[0, 0x7fc00000]" "Fin 1"] demo_bits by simp

section \<open>Calibration\<close>

lemma worst_covers:
  assumes "list_all is_finite ds"
  shows "\<exists>w. foldl (\<lambda>acc d. fp_max acc (fp_abs d)) (Fin a) ds = Fin w \<and> a \<le> w \<and> (\<forall>x. Fin x \<in> set ds \<longrightarrow> \<bar>x\<bar> \<le> w)
    \<and> (w = a \<or> Fin w \<in> fp_abs ` set ds)"
  using assms
proof (induction ds arbitrary: a)
  case (Cons d ds)
  obtain x where x: "d = Fin x"
    using Cons.prems by (auto elim: is_finiteE)
  have "fp_max (Fin a) (fp_abs d) = Fin (max a \<bar>x\<bar>)"
    using x by (auto simp: fp_max_def)
  moreover obtain w where "foldl (\<lambda>acc d. fp_max acc (fp_abs d)) (Fin (max a \<bar>x\<bar>)) ds = Fin w" "max a \<bar>x\<bar> \<le> w"
      "\<forall>x. Fin x \<in> set ds \<longrightarrow> \<bar>x\<bar> \<le> w" "w = max a \<bar>x\<bar> \<or> Fin w \<in> fp_abs ` set ds"
    using Cons.IH [of "max a \<bar>x\<bar>"] Cons.prems by auto
  ultimately show ?case
    using x by (intro exI [of _ w]) (auto simp: max_def image_iff split: if_splits)
qed simp

lemma distance_in_format: "relative_l2_distance s r = Ok (Fin x) \<Longrightarrow> in_format f32 \<bar>x\<bar>"
proof -
  assume "relative_l2_distance s r = Ok (Fin x)"
  then obtain a where "fp_cast f32 a = Fin x"
    by (auto simp: relative_l2_distance_def Let_def split: if_splits option.splits prod.splits)
  then show ?thesis
    by (cases a) (auto intro: fp_round_in_format [of f32])
qed

lemma safety_factor_covers:
  assumes "0 \<le> w" "in_format f32 w" "fp_mul f32 (Fin w) (fp_max factor (Fin 1)) = Fin b"
  shows "w \<le> b"
proof (cases factor)
  case (Fin y)
  then have "fp_round f32 (w * max y 1) = Fin b" "w \<le> w * max y 1"
    using assms(1,3) mult_left_mono [of 1 "max y 1" w]
    by (cases y "1 :: rat" rule: linorder_cases; simp add: fp_max_def)+
  then show ?thesis
    using fp_round_ge [OF assms(1) _ assms(2), of "w * max y 1"] by auto
next
  case (Inf t)
  then show ?thesis
    using assms fp_round_exact [of f32 w] by (cases t) (auto simp: fp_max_def split: if_splits)
next
  case NaN
  then show ?thesis
    using assms fp_round_exact [of f32 w] by (simp add: fp_max_def)
qed

text \<open>
  (C31) A calibrated band covers its samples. If the samples are distances that were measured, every finite
  band calibrated from them, with any safety factor, accepts each of the measured pairs: none of the runs it
  was calibrated on is called fraud.
\<close>

theorem calibrated_band_covers:
  assumes "\<forall>d\<in>set samples. \<exists>s r. relative_l2_distance s r = Ok d" "calibrate_band samples factor = Ok band" "is_finite band"
    "d \<in> set samples" "relative_l2_distance s r = Ok d"
  shows "\<exists>v. verify_within_band s r band = Ok v \<and> bv_distance v = d \<and> \<not> bv_fraud v"
proof -
  have fin: "list_all is_finite samples"
    using assms(2) by (auto simp: calibrate_band_def list_all_iff list_ex_iff split: if_splits)
  obtain w where w: "foldl (\<lambda>acc d. fp_max acc (fp_abs d)) (Fin 0) samples = Fin w" "0 \<le> w"
      "\<forall>x. Fin x \<in> set samples \<longrightarrow> \<bar>x\<bar> \<le> w" "w = 0 \<or> Fin w \<in> fp_abs ` set samples"
    using worst_covers [OF fin, of 0] by auto
  have fmt: "in_format f32 w"
  proof (cases "w = 0")
    case True
    then show ?thesis using fp_round_in_format [of f32 0 0] by simp
  next
    case False
    then obtain y where "Fin y \<in> set samples" "w = \<bar>y\<bar>"
      using w(4) fin by (auto simp: list_all_iff image_iff dest!: bspec elim!: is_finiteE)
    then show ?thesis
      using assms(1) distance_in_format by blast
  qed
  have band: "band = fp_mul f32 (Fin w) (fp_max factor (Fin 1))"
    using assms(2) w(1) by (auto simp: calibrate_band_def Let_def split: if_splits)
  obtain x where x: "d = Fin x" "x \<le> w"
    using fin assms(4) w(3) by (auto simp: list_all_iff abs_le_iff dest!: bspec elim!: is_finiteE)
  obtain b where b: "band = Fin b"
    using assms(3) by (rule is_finiteE)
  have "w \<le> b"
    using safety_factor_covers [OF w(2) fmt] band b by metis
  then have "\<not> fp_less band (Fin 0)" "\<not> fp_less band d"
    using b x w(2) by auto
  then show ?thesis
    using verify_valid_band [OF assms(3) _ assms(5)] by simp
qed

theorem calibrated_band_covers_witness:
  "\<exists>v. verify_within_band [Fin 1, Fin 2] [Fin 1, Fin 2] (Fin 0) = Ok v \<and> bv_distance v = Fin 0 \<and> \<not> bv_fraud v"
proof -
  have "relative_l2_distance [Fin 1, Fin 2] [Fin 1, Fin 2] = Ok (Fin 0)"
    by (rule honest_distance) simp
  moreover have "calibrate_band [Fin 0] DEFAULT_SAFETY_FACTOR = Ok (Fin 0)"
    by (simp add: calibrate_band_def fp_max_def DEFAULT_SAFETY_FACTOR_def)
  ultimately show ?thesis
    using calibrated_band_covers [of "[Fin 0]" DEFAULT_SAFETY_FACTOR "Fin 0" "Fin 0" "[Fin 1, Fin 2]" "[Fin 1, Fin 2]"] by auto
qed

section \<open>Aggregation\<close>

abbreviation delta_norm :: "fp list \<Rightarrow> fp" where
  "delta_norm d \<equiv> distance_to d (replicate (length d) (Fin 0))"

lemma l2_norm_nonneg: "l2_norm v \<noteq> NaN \<Longrightarrow> nonneg (l2_norm v)"
proof -
  have sqrt: "nonneg (fp_sqrt f64 a)" if "fp_sqrt f64 a \<noteq> NaN" for a
    using that nonneg_sqrt [of a f64] by (cases a) (auto split: if_splits)
  assume "l2_norm v \<noteq> NaN"
  then obtain a where a: "l2_norm v = fp_cast f32 a" "nonneg a"
    using sqrt unfolding l2_norm_def by (metis fp_cast_eq_NaN)
  then show ?thesis
    by (cases a) auto
qed

text \<open>In a sorted list where more than half of the values are at most a bound, the median is.\<close>

lemma sorted_majority:
  assumes "sorted_wrt fp_le vs" "length vs < 2 * length (filter (\<lambda>v. fp_le v b) vs)" "j \<le> length vs div 2"
  shows "fp_le (vs ! j) b"
proof (rule ccontr)
  assume not: "\<not> fp_le (vs ! j) b"
  have "i < j" if "i < length vs" "fp_le (vs ! i) b" for i
    using that not sorted_wrt_nth_less [OF assms(1), of j i] fp_le_trans by (metis linorder_less_linear)
  then have "{i. i < length vs \<and> fp_le (vs ! i) b} \<subseteq> {..<j}"
    by auto
  then have "length (filter (\<lambda>v. fp_le v b) vs) \<le> j"
    using card_mono [of "{..<j}"] by (fastforce simp: length_filter_conv_card)
  then show False
    using assms(2,3) by linarith
qed

lemma median_majority:
  assumes "sorts srt" "\<forall>v\<in>set vs. nonneg v" "in_format f32 b" "in_format f32 (2 * b)"
    "length vs < 2 * length (filter (\<lambda>v. fp_le v (Fin b)) vs)"
  shows "\<exists>m. median srt vs = Fin m \<and> 0 \<le> m \<and> m \<le> b"
proof -
  have perm: "mset (srt vs) = mset vs" and "NaN \<notin> set vs"
    using assms(1,2) by (auto simp: sorts_def)
  then have sorted: "sorted_wrt fp_le (srt vs)"
    using assms(1) by (simp add: sorts_def)
  have len: "length (srt vs) = length vs" and set: "set (srt vs) = set vs"
    using mset_eq_length [OF perm] mset_eq_setD [OF perm] by simp_all
  have "size (mset (filter (\<lambda>v. fp_le v (Fin b)) (srt vs))) = size (mset (filter (\<lambda>v. fp_le v (Fin b)) vs))"
    using perm by simp
  then have major: "length (srt vs) < 2 * length (filter (\<lambda>v. fp_le v (Fin b)) (srt vs))"
    using assms(5) len by (simp only: size_mset)
  have low: "\<exists>m. srt vs ! j = Fin m \<and> 0 \<le> m \<and> m \<le> b" if "j \<le> length vs div 2" "vs \<noteq> []" for j
  proof -
    have "j < length vs"
      using that by (cases vs) auto
    then have "nonneg (srt vs ! j)"
      using assms(2) set len nth_mem by metis
    moreover have "fp_le (srt vs ! j) (Fin b)"
      using sorted_majority [OF sorted major, of j] that len by simp
    ultimately show ?thesis
      by (cases "srt vs ! j") auto
  qed
  have ne: "vs \<noteq> []"
    using assms(5) by auto
  obtain m where m: "srt vs ! (length vs div 2) = Fin m" "0 \<le> m" "m \<le> b"
    using low [OF order_refl ne] by auto
  obtain l where l: "srt vs ! (length vs div 2 - 1) = Fin l" "0 \<le> l" "l \<le> b"
    using low [OF diff_le_self ne] by auto
  obtain c where c: "fp_round f32 (l + m) = Fin c" "0 \<le> c" "c \<le> 2 * b"
    using fp_round_le [of "l + m" "2 * b" f32] assms(4) l m by auto
  obtain h where "fp_round f32 (1 / 2 * c) = Fin h" "0 \<le> h" "h \<le> b"
    using fp_round_le [of "1 / 2 * c" b f32] assms(3) c by auto
  then show ?thesis
    using ne m l c by (auto simp: median_def Let_def len)
qed

lemma robust_aggregate_Ok:
  assumes "robust_aggregate srt deltas cfg = Ok agg" "deltas = first # rest"
  obtains "is" where "\<forall>i\<in>set is. i < length deltas" "\<forall>d\<in>set deltas. length d = length first"
    "ag_result agg = (aggregate_round srt (map ((!) deltas) is) ^^ ac_iterations cfg) (replicate (length first) (Fin 0))"
    "ag_kept agg = keep_mask srt cfg deltas"
proof -
  define kept where "kept = keep_mask srt cfg deltas"
  define "is" where "is = (if list_ex id kept then filter (\<lambda>i. kept ! i) [0..<length deltas] else [0..<length deltas])"
  have "find (\<lambda>d. length d \<noteq> length first) deltas = None"
    using assms by (auto simp: robust_aggregate_def split: option.splits)
  moreover from this have "agg = \<lparr>ag_result = (aggregate_round srt (map ((!) deltas) is) ^^ ac_iterations cfg) (replicate (length first) (Fin 0)),
      ag_kept = kept\<rparr>"
    using assms unfolding robust_aggregate_def Let_def kept_def [symmetric] is_def [symmetric] by simp
  ultimately show thesis
    by (intro that [of "is"]) (auto simp: find_None_iff kept_def is_def)
qed

lemma length_aggregate_round:
  assumes "\<forall>d\<in>set ds. length d = length center"
  shows "length (aggregate_round srt ds center) = length center"
proof -
  have "length (foldl (\<lambda>accum delta. accumulate center r delta accum) a ds) = length a" if "length a = length center" for r a
    using assms that by (induction ds arbitrary: a) (auto simp: accumulate_def Let_def)
  then show ?thesis
    by (simp add: aggregate_round_def Let_def)
qed

lemma length_aggregate_rounds:
  "\<forall>d\<in>set ds. length d = length center \<Longrightarrow> length ((aggregate_round srt ds ^^ k) center) = length center"
  by (induction k) (auto simp: length_aggregate_round)


text \<open>A sort: insertion by the order on numbers.\<close>

primrec fp_insort :: "fp \<Rightarrow> fp list \<Rightarrow> fp list" where
  "fp_insort x [] = [x]"
| "fp_insort x (y # ys) = (if fp_le x y then x # y # ys else y # fp_insort x ys)"

lemma mset_fp_insort: "mset (fp_insort x ys) = add_mset x (mset ys)"
  by (induction ys) auto

lemma fp_le_linear: "a \<noteq> NaN \<Longrightarrow> b \<noteq> NaN \<Longrightarrow> \<not> fp_le a b \<Longrightarrow> fp_le b a"
  by (cases a; cases b) auto

lemma sorted_fp_insort: "x \<noteq> NaN \<Longrightarrow> NaN \<notin> set ys \<Longrightarrow> sorted_wrt fp_le ys \<Longrightarrow> sorted_wrt fp_le (fp_insort x ys)"
proof (induction ys)
  case (Cons y ys)
  have "set (fp_insort x ys) = insert x (set ys)"
    using mset_eq_setD [of "fp_insort x ys" "x # ys"] mset_fp_insort [of x ys] by simp
  then show ?case
    using Cons fp_le_linear [of x y] by (auto intro: fp_le_trans)
qed simp

lemma fp_insort_sorts: "sorts (\<lambda>xs. foldr fp_insort xs [])"
proof -
  have perm: "mset (foldr fp_insort xs []) = mset xs" for xs
    by (induction xs) (simp_all add: mset_fp_insort)
  have "sorted_wrt fp_le (foldr fp_insort xs [])" if "NaN \<notin> set xs" for xs
    using that by (induction xs) (use perm mset_eq_setD in \<open>force intro!: sorted_fp_insort\<close>)+
  then show ?thesis
    using perm by (simp add: sorts_def)
qed


end
