(* ===== verification/Rust_Strings.thy ===== *)
theory Rust_Strings
  imports Interval_Tree
begin

text \<open>
  The functions on strings of the Rust standard library that the verifier daemon uses to take file names
  apart. Strings are lists of ASCII characters, so positions in bytes and in characters are the same.
\<close>

section \<open>Searching and cutting\<close>

definition starts_with :: "string \<Rightarrow> string \<Rightarrow> bool" where
  "starts_with p s \<longleftrightarrow> take (length p) s = p"

definition ends_with :: "string \<Rightarrow> string \<Rightarrow> bool" where
  "ends_with p s \<longleftrightarrow> length p \<le> length s \<and> drop (length s - length p) s = p"

primrec str_find :: "string \<Rightarrow> string \<Rightarrow> nat option" where
  "str_find p [] = (if p = [] then Some 0 else None)"
| "str_find p (c # cs) = (if starts_with p (c # cs) then Some 0 else map_option Suc (str_find p cs))"

definition str_strip_prefix :: "string \<Rightarrow> string \<Rightarrow> string option" where
  "str_strip_prefix p s = (if starts_with p s then Some (drop (length p) s) else None)"

definition split_once :: "string \<Rightarrow> string \<Rightarrow> (string \<times> string) option" where
  "split_once p s = map_option (\<lambda>i. (take i s, drop (i + length p) s)) (str_find p s)"

function trim_end_matches :: "string \<Rightarrow> string \<Rightarrow> string" where
  "trim_end_matches p s = (if p \<noteq> [] \<and> ends_with p s then trim_end_matches p (take (length s - length p) s) else s)"
  by pat_completeness auto
termination
  by (relation "measure (\<lambda>(p, s). length s)") (auto simp: ends_with_def intro!: diff_less)

declare trim_end_matches.simps [simp del]

definition is_space :: "char \<Rightarrow> bool" where
  "is_space c \<longleftrightarrow> c = CHR '' '' \<or> (0x09 \<le> (of_char c :: nat) \<and> (of_char c :: nat) \<le> 0x0D)"

definition trim_end :: "(char \<Rightarrow> bool) \<Rightarrow> string \<Rightarrow> string" where
  "trim_end P s = rev (dropWhile P (rev s))"

definition trim :: "string \<Rightarrow> string" where
  "trim s = trim_end is_space (dropWhile is_space s)"

definition u32_from_str :: "string \<Rightarrow> nat option" where
  "u32_from_str s = (case u64_from_str s of Some n \<Rightarrow> if n < 2 ^ 32 then Some n else None | None \<Rightarrow> None)"

section \<open>Finding the first occurrence\<close>

lemma starts_with_append [simp]: "starts_with p (p @ s)"
  by (simp add: starts_with_def)

lemma split_once_at: "str_find p (u @ p @ s) = Some (length u) \<Longrightarrow> split_once p (u @ p @ s) = Some (u, s)"
  by (simp add: split_once_def)

lemma ends_with_append: "ends_with p (s @ p)"
  by (simp add: ends_with_def)

lemma ends_with_last:
  assumes "ends_with p s" "p \<noteq> []"
  shows "last s = last p"
proof -
  have "s = take (length s - length p) s @ p"
    using assms(1) append_take_drop_id [of "length s - length p" s] by (simp add: ends_with_def)
  then show ?thesis
    using assms(2) last_appendR by metis
qed

lemma str_find_Some: "str_find p s = Some i \<Longrightarrow> starts_with p (drop i s) \<and> i + length p \<le> length s"
proof (induction s arbitrary: i)
  case (Cons c s)
  show ?case
  proof (cases "starts_with p (c # s)")
    case True
    then show ?thesis
      using Cons.prems by (auto simp: starts_with_def dest: arg_cong [where f = length])
  next
    case False
    then show ?thesis using Cons by auto
  qed
qed (auto simp: starts_with_def split: if_splits)

text \<open>A pattern whose first character does not occur in a prefix is found behind the prefix.\<close>

lemma str_find_skip: "p = c # cs \<Longrightarrow> c \<notin> set u \<Longrightarrow> str_find p (u @ s) = map_option (\<lambda>i. length u + i) (str_find p s)"
proof (induction u)
  case Nil
  have "(\<lambda>i. length ([] :: string) + i) = id"
    by auto
  then show ?case by (simp add: option.map_id0)
next
  case (Cons x u)
  then have "\<not> starts_with p ((x # u) @ s)"
    by (auto simp: starts_with_def)
  then show ?case
    using Cons by (simp add: option.map_comp comp_def)
qed

lemma str_find_here [simp]: "str_find p (p @ s) = Some 0"
  using starts_with_append [of p s] by (cases "p @ s") auto

lemma str_find_None: "p = c # cs \<Longrightarrow> c \<notin> set s \<Longrightarrow> str_find p s = None"
  by (induction s) (auto simp: starts_with_def)

text \<open>A character that is not in the pattern separates the places where it can be found.\<close>

lemma starts_with_sep: "x \<notin> set p \<Longrightarrow> starts_with p (u @ x # s) = starts_with p u"
proof (cases "length p \<le> length u")
  case False
  assume x: "x \<notin> set p"
  have "starts_with p (u @ x # s) \<Longrightarrow> p ! length u = x"
    using False by (metis nth_append_length nth_take starts_with_def linorder_not_le)
  then show ?thesis
    using x False nth_mem [of "length u" p] by (auto simp: starts_with_def dest: arg_cong [where f = length])
qed (simp add: starts_with_def)

lemma str_find_sep:
  assumes "x \<notin> set p" "p \<noteq> []"
  shows "str_find p (u @ x # s) = (case str_find p u of Some i \<Rightarrow> Some i | None \<Rightarrow> map_option (\<lambda>i. Suc (length u + i)) (str_find p s))"
proof (induction u)
  case Nil
  have "\<not> starts_with p (x # s)"
    using starts_with_sep [OF assms(1), of "[]" s] assms(2) by (simp add: starts_with_def)
  then show ?case using assms(2) by simp
next
  case (Cons y u)
  then show ?case
    using starts_with_sep [OF assms(1), of "y # u" s] by (auto simp: option.map_comp comp_def split: option.splits)
qed

lemma trim_end_matches_once: "p \<noteq> [] \<Longrightarrow> \<not> ends_with p s \<Longrightarrow> trim_end_matches p (s @ p) = s"
proof -
  assume p: "p \<noteq> []" "\<not> ends_with p s"
  have "trim_end_matches p s = s"
    using p(2) by (subst trim_end_matches.simps) simp
  then show ?thesis
    using p(1) by (subst trim_end_matches.simps) (simp add: ends_with_def)
qed

section \<open>Numbers\<close>

lemma digit_value_char: "d < 10 \<Longrightarrow> digit_value (digit_char d) = Some d"
  by (simp add: digit_value_def digit_char_def)

lemma parse_digits_append: "parse_digits a (xs @ ys) = Option.bind (parse_digits a xs) (\<lambda>b. parse_digits b ys)"
  by (induction xs arbitrary: a) (auto split: option.splits)

lemma parse_display: "parse_digits 0 (display_nat n) = (if n < 2 ^ 64 then Some n else None)"
proof (induction n rule: display_nat.induct)
  case (1 n)
  show ?case
  proof (cases "n < 10")
    case True
    then show ?thesis
      by (subst display_nat.simps) (simp add: digit_value_char)
  next
    case False
    moreover from this have "n div 10 < 2 ^ 64" if "n < 2 ^ 64"
      using that by simp
    ultimately show ?thesis
      using 1 by (subst display_nat.simps) (simp add: parse_digits_append digit_value_char)
  qed
qed

lemma display_nat_chars:
  assumes "c \<in> set (display_nat n)"
  shows "\<not> is_space c" "c \<noteq> CHR ''+''" "c \<noteq> CHR ''-''" "c \<noteq> CHR ''[''" "c \<noteq> CHR '']''" "c \<noteq> CHR '',''"
proof -
  obtain d where "d < 10" "c = digit_char d"
    using assms display_nat_digits by blast
  then have "48 \<le> (of_char c :: nat)" "(of_char c :: nat) \<le> 57"
    by (simp_all add: digit_char_def)
  then show "\<not> is_space c" "c \<noteq> CHR ''+''" "c \<noteq> CHR ''-''" "c \<noteq> CHR ''[''" "c \<noteq> CHR '']''" "c \<noteq> CHR '',''"
    by (auto simp: is_space_def)
qed

lemma display_nat_no [simp]: "CHR ''-'' \<notin> set (display_nat n)" "CHR ''['' \<notin> set (display_nat n)" "CHR '']'' \<notin> set (display_nat n)"
    "CHR '','' \<notin> set (display_nat n)"
  by (metis display_nat_chars)+

lemma display_nat_not_Nil [simp]: "display_nat n \<noteq> []"
  by (subst display_nat.simps) simp

lemma u64_display: "u64_from_str (display_nat n) = (if n < 2 ^ 64 then Some n else None)"
  using parse_display [of n] display_nat_chars(2) [of "hd (display_nat n)" n]
  by (cases "display_nat n") (auto simp: u64_from_str_def Let_def)

lemma u32_display: "n < 2 ^ 32 \<Longrightarrow> u32_from_str (display_nat n) = Some n"
  by (simp add: u32_from_str_def u64_display)

lemma trim_spaceless: "\<forall>c\<in>set s. \<not> is_space c \<Longrightarrow> trim s = s"
proof -
  have none: "dropWhile is_space t = t" if "\<forall>c\<in>set t. \<not> is_space c" for t
    using that by (cases t) auto
  assume "\<forall>c\<in>set s. \<not> is_space c"
  then show ?thesis
    using none [of s] none [of "rev s"] by (simp add: trim_def trim_end_def)
qed

lemma trim_display [simp]: "trim (display_nat n) = display_nat n" "trim (CHR '' '' # display_nat n) = display_nat n"
proof -
  show "trim (display_nat n) = display_nat n"
    using display_nat_chars(1) by (intro trim_spaceless) blast
  then show "trim (CHR '' '' # display_nat n) = display_nat n"
    by (simp add: trim_def is_space_def)
qed

text \<open>A text with a character that is no digit, behind its first one, is no number.\<close>

lemma parse_digits_None: "c \<in> set s \<Longrightarrow> digit_value c = None \<Longrightarrow> parse_digits a s = None"
  by (induction s arbitrary: a) (auto split: option.splits)

lemma u64_from_str_None: "c \<in> set s \<Longrightarrow> digit_value c = None \<Longrightarrow> c \<noteq> CHR ''+'' \<Longrightarrow> u64_from_str s = None"
  by (cases s) (auto simp: u64_from_str_def Let_def parse_digits_None dest: parse_digits_None split: option.splits)

end
