(* ===== verification/Audit_Daemon.thy ===== *)
theory Audit_Daemon
  imports Audit_Seats Verifier Rust_Strings "HOL-Library.List_Lexorder" "HOL-Library.Char_ord"
begin

text \<open>
  The verifier daemon (solana-tooling/src/daemon.rs) and the library it shares with the command-line
  verifier (tools/rust-tools/leviathan-verifier/src/lib.rs, replay.rs). The directories, the dumps in them,
  the base58 encoding of the bs58 crate, the replay engine and the transactions it sends are arguments; what
  is modelled is how the daemon takes file names apart, which contributions it looks at, and what it does
  with the verdicts. A path is its file name, the directory being fixed; printing is left out.
\<close>

section \<open>File names\<close>

definition contribution_key :: "string \<Rightarrow> string option" where
  "contribution_key name =
     (if \<not> ends_with ''.vec-postcard'' name then None
      else map_option (\<lambda>start. trim_end_matches ''.vec-postcard'' (drop start name)) (str_find ''step'' name))"

text \<open>The entries of a directory in the order it is read; a later file with the same key replaces an earlier one.\<close>

definition index_dir :: "string list \<Rightarrow> (string, string) btree" where
  "index_dir names = fold (\<lambda>name m. case contribution_key name of Some file_key \<Rightarrow> bt_insert file_key name m | None \<Rightarrow> m) names []"

definition parse_committer :: "string \<Rightarrow> string option" where
  "parse_committer name =
     Option.bind (str_strip_prefix ''result-'' name) (\<lambda>rest. map_option (\<lambda>end. take end rest) (str_find ''-step'' rest))"

definition parse_batch_bounds :: "string \<Rightarrow> (string, (nat \<times> nat) option) res" where
  "parse_batch_bounds text =
     (case find_position (\<lambda>c. c = CHR ''['') text of None \<Rightarrow> Ok None
      | Some lb \<Rightarrow> (case find_position (\<lambda>c. c = CHR '']'') text of None \<Rightarrow> Ok None
        | Some rb \<Rightarrow>
          rbind (str_slice text (lb + 1) rb) (\<lambda>inner.
            Ok (case split_once '','' inner of
                None \<Rightarrow> None
              | Some (a, rest) \<Rightarrow>
                  (case (u64_from_str (trim a), u64_from_str (trim (takeWhile (\<lambda>c. c \<noteq> CHR '','') rest))) of
                    (Some start, Some end) \<Rightarrow> Some (start, end) | _ \<Rightarrow> None)))))"

definition parse_assignment_key :: "string \<Rightarrow> (string, (nat \<times> BatchId) option) res" where
  "parse_assignment_key file_key =
     (case split_once ''-batchB'' file_key of None \<Rightarrow> Ok None
      | Some (step_part, batch_part) \<Rightarrow>
        (case Option.bind (str_strip_prefix ''step'' step_part) u32_from_str of None \<Rightarrow> Ok None
         | Some step \<Rightarrow>
           (let bounds = trim_end (\<lambda>c. c = CHR '']'') (dropWhile (\<lambda>c. c = CHR ''['') batch_part) in
            case split_once '','' bounds of None \<Rightarrow> Ok None
            | Some (a, b) \<Rightarrow>
              (case (u64_from_str (trim a), u64_from_str (trim b)) of
                 (Some start, Some end) \<Rightarrow> rbind (iv_new start end) (\<lambda>i. Ok (Some (step, BatchId i)))
               | _ \<Rightarrow> Ok None))))"

text \<open>The name a client gives to the dump of a result (shared/client/src/state/train.rs).\<close>

definition dump_name :: "(bytes \<Rightarrow> string) \<Rightarrow> bytes \<Rightarrow> nat \<Rightarrow> BatchId \<Rightarrow> string" where
  "dump_name bs58 sig step b = ''result-'' @ bs58 sig @ ''-step'' @ display_nat step @ ''-batch'' @ BatchId_display b @ ''.vec-postcard''"

section \<open>The pass\<close>

text \<open>The options of the daemon. The run and the directories are behind the functions of the environment below.\<close>

record AuditConfig =
  cfg_band :: fp
  cfg_audit_assigned :: bool
  cfg_dry_run :: bool
  cfg_verdict_mode :: bool
  cfg_replay_step :: "nat option"

text \<open>The two instructions the daemon sends.\<close>

datatype submission =
  SubmitVerdict (sub_target: pubkey) (sub_index: nat) (sub_start: nat) (sub_end: nat) (sub_committed: bytes) (sub_replayed: bytes)
| SubmitSlash (sub_index: nat) (sub_start: nat) (sub_end: nat) (sub_committed: bytes) (sub_replayed: bytes)

text \<open>
  What the daemon reads and calls. \<open>'w\<close> is the state of the world outside, which replays and transactions
  may change: the tie breakers of the run, the state of the coordinator, the names in the directories, the
  dumps, the engine, the transactions and the encoding of signers.
\<close>

record 'w daemon_env =
  de_run :: "(string, nat option) res"
  de_state :: "(string, Coordinator option) res"
  de_submitted :: "(string, string list) res"
  de_reference :: "(string, string list) res option"
  de_submitted_dump :: "string \<Rightarrow> (string, 32 word list) res"
  de_reference_dump :: "string \<Rightarrow> (string, 32 word list) res"
  de_replay :: "(nat \<Rightarrow> 'w \<Rightarrow> (ReplayError, 32 word list) res \<times> 'w) option"
  de_submit :: "submission \<Rightarrow> 'w \<Rightarrow> (string, unit) res \<times> 'w"
  de_bs58 :: "bytes \<Rightarrow> string"

text \<open>The state of a pass; \<open>ps_sent\<close> records what was sent, for whom, and whether it was accepted.\<close>

record 'w pass_state =
  ps_judged :: "string set"
  ps_convictions :: nat
  ps_world :: 'w
  ps_sent :: "(string \<times> submission \<times> bool) list"

definition add_audit ::
  "(bytes \<Rightarrow> string) \<Rightarrow> AuditAssignment \<Rightarrow> (string, (string \<times> nat \<times> nat) set) res \<Rightarrow> (string, (string \<times> nat \<times> nat) set) res" where
  "add_audit bs58 a r =
     rbind r (\<lambda>acc. rbind (parse_batch_bounds (BatchId_display (aa_batch_id a))) (\<lambda>bounds.
       Ok (case bounds of Some (start, end) \<Rightarrow> insert (bs58 (signer (aa_target a)), start, end) acc | None \<Rightarrow> acc)))"

definition assigned_audits :: "externs \<Rightarrow> 'w daemon_env \<Rightarrow> Coordinator \<Rightarrow> nat \<Rightarrow> (string, (string \<times> nat \<times> nat) set) res" where
  "assigned_audits X E c tie_breaker_committee_size =
     (case select_audits_for_current_round X c tie_breaker_committee_size of
        Ok audits \<Rightarrow>
          fold (add_audit (de_bs58 E)) audits (Ok {})
      | Err _ \<Rightarrow> Ok {}
      | Panic \<Rightarrow> Panic)"

definition reference_delta ::
  "'w daemon_env \<Rightarrow> AuditConfig \<Rightarrow> (string, string) btree option \<Rightarrow> string \<Rightarrow> nat option \<Rightarrow> 'w
   \<Rightarrow> (string, 32 word list option) res \<times> 'w" where
  "reference_delta E cfg reference file_key roster_index w =
     (case reference of
        Some ref \<Rightarrow> (case map_of ref file_key of
            None \<Rightarrow> (Ok None, w)
          | Some path \<Rightarrow> (rbind (de_reference_dump E path) (\<lambda>d. Ok (Some d)), w))
      | None \<Rightarrow> (case de_replay E of
          None \<Rightarrow> (Panic, w)
        | Some engine \<Rightarrow>
          (case (case cfg_replay_step cfg of
                   None \<Rightarrow> Ok True
                 | Some step \<Rightarrow> rbind (parse_assignment_key file_key) (\<lambda>k. Ok (map_option fst k = Some step))) of
             Err e \<Rightarrow> (Err e, w)
           | Panic \<Rightarrow> (Panic, w)
           | Ok False \<Rightarrow> (Ok None, w)
           | Ok True \<Rightarrow>
             (case roster_index of
                None \<Rightarrow> (Ok None, w)
              | Some index \<Rightarrow>
                (case engine index w of
                   (Ok delta, w') \<Rightarrow> (Ok (Some delta), w')
                 | (Err _, w') \<Rightarrow> (Ok None, w')
                 | (Panic, w') \<Rightarrow> (Panic, w'))))))"

text \<open>The transaction for a contribution found to be fraud, and what is recorded of it.\<close>

definition act_on_fraud ::
  "'w daemon_env \<Rightarrow> AuditConfig \<Rightarrow> Coordinator \<Rightarrow> string \<Rightarrow> string \<Rightarrow> nat option \<Rightarrow> nat \<times> nat \<Rightarrow> bytes \<Rightarrow> bytes
   \<Rightarrow> 'w pass_state \<Rightarrow> (string, unit) res \<times> 'w pass_state" where
  "act_on_fraud E cfg c file_key committer roster_index bounds committed_hash replayed_hash st =
     (if committer \<in> ps_judged st then (Ok (), st)
      else case roster_index of
        None \<Rightarrow> (Ok (), st)
      | Some index \<Rightarrow>
        if cfg_dry_run cfg then (Ok (), st\<lparr>ps_convictions := ps_convictions st + 1\<rparr>)
        else
          case (if cfg_verdict_mode cfg
                then map_option (\<lambda>client. SubmitVerdict (signer (client_id client)) index (fst bounds) (snd bounds) committed_hash replayed_hash)
                  (slice_get (es_clients (c_epoch_state c)) index)
                else Some (SubmitSlash index (fst bounds) (snd bounds) committed_hash replayed_hash)) of
            None \<Rightarrow> (Panic, st)
          | Some sub \<Rightarrow>
            let (result, w) = de_submit E sub (ps_world st);
                st' = st\<lparr>ps_world := w, ps_sent := ps_sent st @ [(committer, sub, result = Ok ())]\<rparr>
            in case result of
                 Ok _ \<Rightarrow> (Ok (), st'\<lparr>ps_judged := insert file_key (insert committer (ps_judged st)), ps_convictions := ps_convictions st + 1\<rparr>)
               | Err _ \<Rightarrow> (Ok (), st')
               | Panic \<Rightarrow> (Panic, st'))"

definition vals :: "32 word list \<Rightarrow> fp list" where
  "vals ws = map f32_of_bits ws"

text \<open>The comparison of a submitted dump with the reference.\<close>

definition judge_contribution ::
  "externs \<Rightarrow> 'w daemon_env \<Rightarrow> AuditConfig \<Rightarrow> Coordinator \<Rightarrow> string \<Rightarrow> string \<Rightarrow> string \<Rightarrow> nat option \<Rightarrow> nat \<times> nat \<Rightarrow> 32 word list
   \<Rightarrow> 'w pass_state \<Rightarrow> (string, unit) res \<times> 'w pass_state" where
  "judge_contribution X E cfg c file_key path committer roster_index bounds ref st =
     (case de_submitted_dump E path of
        Err e \<Rightarrow> (Err e, st)
      | Panic \<Rightarrow> (Panic, st)
      | Ok sub \<Rightarrow>
        (case verify_within_band (vals sub) (vals ref) (cfg_band cfg) of
           Err e \<Rightarrow> (Err ''verify'', st)
         | Panic \<Rightarrow> (Panic, st)
         | Ok verdict \<Rightarrow>
           if \<not> bv_fraud verdict then (Ok (), st\<lparr>ps_judged := insert file_key (ps_judged st)\<rparr>)
           else act_on_fraud E cfg c file_key committer roster_index bounds (hash_delta X sub) (hash_delta X ref) st))"

text \<open>One turn of the loop over the submitted contributions; \<open>Ok\<close> goes on with the next one.\<close>

definition audit_file ::
  "externs \<Rightarrow> 'w daemon_env \<Rightarrow> AuditConfig \<Rightarrow> Coordinator \<Rightarrow> (string \<times> nat \<times> nat) set option \<Rightarrow> (string, string) btree option
   \<Rightarrow> string \<times> string \<Rightarrow> 'w pass_state \<Rightarrow> (string, unit) res \<times> 'w pass_state" where
  "audit_file X E cfg c asg reference = (\<lambda>(file_key, path) st.
     case parse_committer path of None \<Rightarrow> (Ok (), st)
     | Some committer \<Rightarrow>
       if file_key \<in> ps_judged st then (Ok (), st)
       else case parse_batch_bounds file_key of Err e \<Rightarrow> (Err e, st) | Panic \<Rightarrow> (Panic, st)
       | Ok parsed \<Rightarrow>
         let bounds = (case parsed of Some b \<Rightarrow> b | None \<Rightarrow> (0, 0)) in
         if (case asg of Some as \<Rightarrow> (committer, bounds) \<notin> as | None \<Rightarrow> False) then (Ok (), st)
         else
           let roster_index = find_position (\<lambda>client. de_bs58 E (signer (client_id client)) = committer) (es_clients (c_epoch_state c)) in
           case reference_delta E cfg reference file_key roster_index (ps_world st) of
             (Err e, w) \<Rightarrow> (Err e, st\<lparr>ps_world := w\<rparr>)
           | (Panic, w) \<Rightarrow> (Panic, st\<lparr>ps_world := w\<rparr>)
           | (Ok None, w) \<Rightarrow> (Ok (), st\<lparr>ps_world := w\<rparr>)
           | (Ok (Some ref), w) \<Rightarrow>
             judge_contribution X E cfg c file_key path committer roster_index bounds ref (st\<lparr>ps_world := w\<rparr>))"

primrec audit_files ::
  "(string \<times> string \<Rightarrow> 'w pass_state \<Rightarrow> (string, unit) res \<times> 'w pass_state) \<Rightarrow> (string \<times> string) list
   \<Rightarrow> 'w pass_state \<Rightarrow> (string, unit) res \<times> 'w pass_state" where
  "audit_files turn [] st = (Ok (), st)"
| "audit_files turn (f # fs) st = (case turn f st of (Ok _, st') \<Rightarrow> audit_files turn fs st' | (r, st') \<Rightarrow> (r, st'))"

definition opt_res :: "('e, 'a) res option \<Rightarrow> ('e, 'a option) res" where
  "opt_res r = (case r of None \<Rightarrow> Ok None | Some m \<Rightarrow> rbind m (\<lambda>a. Ok (Some a)))"

text \<open>What a pass reads before its loop.\<close>

definition audit_setup ::
  "externs \<Rightarrow> 'w daemon_env \<Rightarrow> AuditConfig
   \<Rightarrow> (string, Coordinator \<times> (string \<times> nat \<times> nat) set option \<times> (string, string) btree \<times> (string, string) btree option) res" where
  "audit_setup X E cfg =
     rbind (de_run E) (\<lambda>run.
     rbind (ok_or ''run not found'' run) (\<lambda>tie_breaker_committee_size.
     rbind (de_state E) (\<lambda>state.
     rbind (ok_or ''coordinator account not found'' state) (\<lambda>c.
     rbind (if cfg_audit_assigned cfg then rbind (assigned_audits X E c tie_breaker_committee_size) (\<lambda>as. Ok (Some as)) else Ok None) (\<lambda>asg.
     rbind (de_submitted E) (\<lambda>names.
     rbind (opt_res (de_reference E)) (\<lambda>reference.
     rbind (guard_err (reference = None \<and> de_replay E = None) ''the daemon needs a reference directory or a replay engine'') (\<lambda>_.
       Ok (c, asg, index_dir names, map_option index_dir reference)))))))))"

definition audit_pass :: "externs \<Rightarrow> 'w daemon_env \<Rightarrow> AuditConfig \<Rightarrow> string set \<Rightarrow> 'w \<Rightarrow> (string, nat) res \<times> 'w pass_state" where
  "audit_pass X E cfg judged w =
     (let st = \<lparr>ps_judged = judged, ps_convictions = 0, ps_world = w, ps_sent = []\<rparr> in
      case audit_setup X E cfg of Err e \<Rightarrow> (Err e, st) | Panic \<Rightarrow> (Panic, st)
      | Ok (c, asg, submitted, reference) \<Rightarrow>
        let (r, st') = audit_files (audit_file X E cfg c asg reference) submitted st in
        (rbind r (\<lambda>_. Ok (ps_convictions st')), st'))"

section \<open>What the daemon sends\<close>

text \<open>A delta to compare with is the reference dump of the same key, or what the engine replayed. A submission is
  justified by a contribution of the directory that the band calls fraud against such a delta.\<close>

definition trusted_delta :: "'w daemon_env \<Rightarrow> (string, string) btree option \<Rightarrow> string \<Rightarrow> nat \<Rightarrow> 32 word list \<Rightarrow> bool" where
  "trusted_delta E reference file_key index ref \<longleftrightarrow> (case reference of
       Some m \<Rightarrow> \<exists>q. map_of m file_key = Some q \<and> de_reference_dump E q = Ok ref
     | None \<Rightarrow> \<exists>engine w w'. de_replay E = Some engine \<and> engine index w = (Ok ref, w'))"

definition justified ::
  "externs \<Rightarrow> 'w daemon_env \<Rightarrow> AuditConfig \<Rightarrow> Coordinator \<Rightarrow> (string \<times> nat \<times> nat) set option \<Rightarrow> (string \<times> string) list
   \<Rightarrow> (string, string) btree option \<Rightarrow> string \<Rightarrow> submission \<Rightarrow> bool" where
  "justified X E cfg c asg files reference committer s \<longleftrightarrow> (\<exists>file_key path sub ref v. (file_key, path) \<in> set files
     \<and> parse_committer path = Some committer
     \<and> sub_index s < length (es_clients (c_epoch_state c))
     \<and> de_bs58 E (signer (client_id (es_clients (c_epoch_state c) ! sub_index s))) = committer
     \<and> (\<forall>as. asg = Some as \<longrightarrow> (committer, sub_start s, sub_end s) \<in> as)
     \<and> parse_batch_bounds file_key \<in> {Ok (Some (sub_start s, sub_end s)), Ok None}
     \<and> trusted_delta E reference file_key (sub_index s) ref
     \<and> de_submitted_dump E path = Ok sub \<and> verify_within_band (vals sub) (vals ref) (cfg_band cfg) = Ok v \<and> bv_fraud v
     \<and> sub_committed s = hash_delta X sub \<and> sub_replayed s = hash_delta X ref
     \<and> (\<forall>t i a b ch rh. s = SubmitVerdict t i a b ch rh \<longrightarrow> signer (client_id (es_clients (c_epoch_state c) ! i)) = t))"

text \<open>What holds between the turns: everything sent is justified, and what was accepted is judged, once each.\<close>

definition pass_ok :: "(string \<Rightarrow> submission \<Rightarrow> bool) \<Rightarrow> string set \<Rightarrow> 'w pass_state \<Rightarrow> bool" where
  "pass_ok J judged st \<longleftrightarrow> (\<forall>(committer, s, ok)\<in>set (ps_sent st). J committer s)
     \<and> (let accepted = map fst (filter (snd \<circ> snd) (ps_sent st)) in
        distinct accepted \<and> set accepted \<inter> judged = {} \<and> set accepted \<subseteq> ps_judged st) \<and> judged \<subseteq> ps_judged st"

lemma pass_ok_world [simp]: "pass_ok J judged (st\<lparr>ps_world := w\<rparr>) = pass_ok J judged st"
    "pass_ok J judged (st\<lparr>ps_convictions := n\<rparr>) = pass_ok J judged st"
  by (simp_all add: pass_ok_def)

lemma pass_ok_judge: "pass_ok J judged st \<Longrightarrow> pass_ok J judged (st\<lparr>ps_judged := insert k (ps_judged st)\<rparr>)"
  by (auto simp: pass_ok_def Let_def)

lemma pass_ok_sent:
  assumes "pass_ok J judged st" "J committer s" "committer \<notin> ps_judged st"
  shows "pass_ok J judged (st\<lparr>ps_sent := ps_sent st @ [(committer, s, False)]\<rparr>)"
    "pass_ok J judged (st\<lparr>ps_sent := ps_sent st @ [(committer, s, True)], ps_judged := insert k (insert committer (ps_judged st))\<rparr>)"
  using assms by (auto simp: pass_ok_def Let_def)

lemma act_on_fraud_ok:
  assumes "pass_ok J judged st" "act_on_fraud E cfg c file_key committer roster_index bounds ch rh st = (r, st')"
    "\<And>i s. roster_index = Some i \<Longrightarrow> sub_index s = i \<Longrightarrow> sub_start s = fst bounds \<Longrightarrow> sub_end s = snd bounds \<Longrightarrow> sub_committed s = ch
       \<Longrightarrow> sub_replayed s = rh \<Longrightarrow> (\<forall>t i a b ch rh. s = SubmitVerdict t i a b ch rh \<longrightarrow> signer (client_id (es_clients (c_epoch_state c) ! i)) = t)
       \<Longrightarrow> J committer s"
  shows "pass_ok J judged st'"
proof (cases "committer \<in> ps_judged st \<or> roster_index = None \<or> cfg_dry_run cfg")
  case True
  then have "st' = st \<or> st' = st\<lparr>ps_convictions := ps_convictions st + 1\<rparr>"
    using assms(2) by (auto simp: act_on_fraud_def split: option.splits if_splits)
  then show ?thesis
    using assms(1) by auto
next
  case False
  then obtain i where i: "roster_index = Some i" "committer \<notin> ps_judged st" "\<not> cfg_dry_run cfg"
    by auto
  define sub where "sub = (if cfg_verdict_mode cfg
      then map_option (\<lambda>client. SubmitVerdict (signer (client_id client)) i (fst bounds) (snd bounds) ch rh) (slice_get (es_clients (c_epoch_state c)) i)
      else Some (SubmitSlash i (fst bounds) (snd bounds) ch rh))"
  note act = assms(2) [unfolded act_on_fraud_def, simplified i, simplified, folded sub_def]
  show ?thesis
  proof (cases sub)
    case None
    then show ?thesis using act assms(1) by simp
  next
    case (Some s)
    have J: "J committer s"
      using Some by (intro assms(3) [OF i(1)]) (auto simp: sub_def slice_get_def split: if_splits)
    obtain res w where res: "de_submit E s (ps_world st) = (res, w)"
      by force
    define st1 where "st1 = st\<lparr>ps_world := w\<rparr>"
    have st1: "pass_ok J judged st1" "committer \<notin> ps_judged st1"
      using assms(1) i(2) by (simp_all add: st1_def)
    show ?thesis
    proof (cases res)
      case (Ok u)
      then have "st' = st1\<lparr>ps_sent := ps_sent st1 @ [(committer, s, True)], ps_judged := insert file_key (insert committer (ps_judged st1)),
          ps_convictions := ps_convictions st + 1\<rparr>"
        using act Some res by (simp add: st1_def)
      then show ?thesis
        using pass_ok_sent(2) [OF st1(1) J st1(2), of file_key] by (simp add: pass_ok_def)
    qed (use act Some res pass_ok_sent(1) [OF st1(1) J st1(2)] in \<open>auto simp: st1_def\<close>)
  qed
qed

lemma reference_delta_trusted:
  "reference_delta E cfg reference file_key (Some i) w = (Ok (Some ref), w') \<Longrightarrow> trusted_delta E reference file_key i ref"
  by (auto simp: reference_delta_def trusted_delta_def split: option.splits res.splits prod.splits bool.splits if_splits)

lemma audit_file_cases:
  assumes "audit_file X E cfg c asg reference (file_key, path) st = (r, st')"
  shows "(\<exists>w. st' = st\<lparr>ps_world := w\<rparr>)
    \<or> (\<exists>committer bounds ref w. parse_committer path = Some committer \<and> parse_batch_bounds file_key \<in> {Ok (Some bounds), Ok None}
        \<and> reference_delta E cfg reference file_key
            (find_position (\<lambda>client. de_bs58 E (signer (client_id client)) = committer) (es_clients (c_epoch_state c))) (ps_world st) = (Ok (Some ref), w)
        \<and> (\<forall>as. asg = Some as \<longrightarrow> (committer, bounds) \<in> as)
        \<and> judge_contribution X E cfg c file_key path committer
            (find_position (\<lambda>client. de_bs58 E (signer (client_id client)) = committer) (es_clients (c_epoch_state c)))
            bounds ref (st\<lparr>ps_world := w\<rparr>) = (r, st'))"
proof -
  have st: "\<exists>w. st = st\<lparr>ps_world := w\<rparr>"
    by (intro exI [of _ "ps_world st"]) simp
  show ?thesis
    using assms st unfolding audit_file_def Let_def by (auto split: option.splits res.splits prod.splits if_splits)
qed

lemma audit_file_ok:
  assumes "pass_ok (justified X E cfg c asg files reference) judged st" "(file_key, path) \<in> set files"
    "audit_file X E cfg c asg reference (file_key, path) st = (r, st')"
  shows "pass_ok (justified X E cfg c asg files reference) judged st'"
  using audit_file_cases [OF assms(3)]
proof (elim disjE exE conjE)
  fix committer bounds ref w
  let ?roster = "find_position (\<lambda>client. de_bs58 E (signer (client_id client)) = committer) (es_clients (c_epoch_state c))"
  define st1 where "st1 = st\<lparr>ps_world := w\<rparr>"
  have st1: "pass_ok (justified X E cfg c asg files reference) judged st1"
    using assms(1) by (simp add: st1_def)
  assume committer: "parse_committer path = Some committer" and range: "parse_batch_bounds file_key \<in> {Ok (Some bounds), Ok None}"
    and ref: "reference_delta E cfg reference file_key ?roster (ps_world st) = (Ok (Some ref), w)" and mine: "\<forall>as. asg = Some as \<longrightarrow> (committer, bounds) \<in> as"
    and "judge_contribution X E cfg c file_key path committer ?roster bounds ref (st\<lparr>ps_world := w\<rparr>) = (r, st')"
  then consider "st' = st1" | "st' = st1\<lparr>ps_judged := insert file_key (ps_judged st1)\<rparr>"
    | sub v where "de_submitted_dump E path = Ok sub" "verify_within_band (vals sub) (vals ref) (cfg_band cfg) = Ok v" "bv_fraud v"
      "act_on_fraud E cfg c file_key committer ?roster bounds (hash_delta X sub) (hash_delta X ref) st1 = (r, st')"
    by (auto simp: judge_contribution_def st1_def split: res.splits if_splits)
  then show ?thesis
  proof cases
    case 3
    show ?thesis
    proof (rule act_on_fraud_ok [OF st1 3(4)])
      fix i s
      assume s: "?roster = Some i" "sub_index s = i" "sub_start s = fst bounds" "sub_end s = snd bounds"
        "sub_committed s = hash_delta X sub" "sub_replayed s = hash_delta X ref"
        "\<forall>t i a b ch rh. s = SubmitVerdict t i a b ch rh \<longrightarrow> signer (client_id (es_clients (c_epoch_state c) ! i)) = t"
      have "i < length (es_clients (c_epoch_state c))" "de_bs58 E (signer (client_id (es_clients (c_epoch_state c) ! i))) = committer"
        using find_position_Some [OF s(1)] by auto
      moreover have "(committer, sub_start s, sub_end s) \<in> as" if "asg = Some as" for as
        using mine that s(3,4) by simp
      moreover have "trusted_delta E reference file_key (sub_index s) ref"
        using reference_delta_trusted [OF ref [unfolded s(1)]] s(2) by simp
      moreover have "parse_batch_bounds file_key \<in> {Ok (Some (sub_start s, sub_end s)), Ok None}"
        using range s(3,4) by simp
      ultimately show "justified X E cfg c asg files reference committer s"
        unfolding justified_def using assms(2) committer s 3(1-3) by blast
    qed
  qed (use st1 pass_ok_judge in auto)
qed (use assms(1) in auto)

lemma audit_files_ok:
  assumes "\<And>f st r st'. f \<in> set fs \<Longrightarrow> I st \<Longrightarrow> turn f st = (r, st') \<Longrightarrow> I st'" "I st" "audit_files turn fs st = (r, st')"
  shows "I st'"
  using assms
proof (induction fs arbitrary: st)
  case (Cons f fs)
  obtain r1 st1 where t: "turn f st = (r1, st1)"
    by force
  then have "I st1"
    using Cons.prems(1,2) by (metis list.set_intros(1))
  moreover have "I st'" if "audit_files turn fs st1 = (r, st')"
    using Cons.prems(1) by (intro Cons.IH [OF _ \<open>I st1\<close> that]) (metis list.set_intros(2))
  ultimately show ?case
    using Cons.prems(3) t by (cases r1) auto
qed simp


section \<open>Names are taken apart as they were put together\<close>

lemma find_position_first: "c \<notin> set u \<Longrightarrow> find_position (\<lambda>x. x = c) (u @ s) = map_option (\<lambda>i. length u + i) (find_position (\<lambda>x. x = c) s)"
  by (induction u; cases "find_position (\<lambda>x. x = c) s") auto

lemma split_once_comma: "CHR '','' \<notin> set u \<Longrightarrow> split_once '','' (u @ CHR '','' # s) = Some (u, s)"
  using str_find_skip [of "'',''" "CHR '',''" "[]" u "CHR '','' # s"] by (simp add: split_once_def starts_with_def)

lemma bounds_of_interval:
  assumes "CHR ''['' \<notin> set u" "CHR '']'' \<notin> set u"
  shows "parse_batch_bounds (u @ BatchId_display b) =
    (let i = bid_interval b in
     Ok (if iv_start i = iv_end i \<or> 2 ^ 64 \<le> iv_start i \<or> 2 ^ 64 \<le> iv_end i then None else Some (iv_start i, iv_end i)))"
proof (cases "iv_start (bid_interval b) = iv_end (bid_interval b)")
  case True
  have "find_position (\<lambda>c. c = CHR ''['') (u @ BatchId_display b) = None"
    using True assms(1) by (auto simp: find_position_None BatchId_display_def display_interval_def)
  then show ?thesis
    using True by (simp add: parse_batch_bounds_def Let_def)
next
  case False
  define x where "x = display_nat (iv_start (bid_interval b))"
  define y where "y = display_nat (iv_end (bid_interval b))"
  have av: "CHR ''['' \<notin> set x" "CHR '']'' \<notin> set x" "CHR '']'' \<notin> set y" "CHR '','' \<notin> set x" "CHR '','' \<notin> set y"
    by (simp_all add: x_def y_def)
  have shape: "u @ BatchId_display b = (u @ ''B'') @ CHR ''['' # (x @ '', '' @ y) @ '']''"
    using False by (simp add: BatchId_display_def display_interval_def x_def y_def)
  have lb: "find_position (\<lambda>c. c = CHR ''['') (u @ BatchId_display b) = Some (length u + 1)"
    unfolding shape using assms(1) by (subst find_position_first) auto
  have rb: "find_position (\<lambda>c. c = CHR '']'') (u @ BatchId_display b) = Some (length u + 2 + length (x @ '', '' @ y))"
  proof -
    have "u @ BatchId_display b = (u @ ''B['' @ x @ '', '' @ y) @ '']''"
      unfolding shape by simp
    then show ?thesis
      using assms(2) av by (simp only:) (subst find_position_first, auto)
  qed
  have "str_slice (u @ BatchId_display b) (length u + 1 + 1) (length u + 2 + length (x @ '', '' @ y)) = (Ok (x @ '', '' @ y) :: (string, string) res)"
    unfolding shape by (simp add: str_slice_def)
  moreover have "split_once '','' (x @ '', '' @ y) = Some (x, CHR '' '' # y)"
    using split_once_comma [OF av(4), of "CHR '' '' # y"] by simp
  moreover have all: "takeWhile (\<lambda>c. c \<noteq> CHR '','') (display_nat n) = display_nat n" for n
    unfolding takeWhile_eq_all_conv by (metis display_nat_no(4))
  ultimately show ?thesis
    using False by (simp add: parse_batch_bounds_def lb rb Let_def x_def y_def u64_display all)
qed

lemma display_no_brackets: "CHR ''['' \<notin> set (''step'' @ display_nat k @ ''-batch'')" "CHR '']'' \<notin> set (''step'' @ display_nat k @ ''-batch'')"
  by simp_all

lemma key_bounds:
  "parse_batch_bounds (''step'' @ display_nat k @ ''-batch'' @ BatchId_display b) =
    (let i = bid_interval b in
     Ok (if iv_start i = iv_end i \<or> 2 ^ 64 \<le> iv_start i \<or> 2 ^ 64 \<le> iv_end i then None else Some (iv_start i, iv_end i)))"
  using bounds_of_interval [OF display_no_brackets, of k b] by simp

lemma find_step_skip:
  "str_find ''step'' (u @ CHR ''-'' # s) = (case str_find ''step'' u of Some i \<Rightarrow> Some i | None \<Rightarrow> map_option (\<lambda>i. Suc (length u + i)) (str_find ''step'' s))"
  by (rule str_find_sep) simp_all

lemma find_step_result: "str_find ''step'' ''result'' = None"
  by (simp add: starts_with_def)

lemma display_not_postcard: "\<not> ends_with ''.vec-postcard'' (u @ BatchId_display b)"
proof
  assume "ends_with ''.vec-postcard'' (u @ BatchId_display b)"
  then have "last (u @ BatchId_display b) = last ''.vec-postcard''"
    by (rule ends_with_last) simp
  moreover have "last (u @ BatchId_display b) \<noteq> last ''.vec-postcard''"
  proof (cases "iv_start (bid_interval b) = iv_end (bid_interval b)")
    case True
    have "last (display_nat n) \<in> set (display_nat n)" for n
      by simp
    then obtain d where "d < 10" "last (display_nat (iv_start (bid_interval b))) = digit_char d"
      using display_nat_digits by blast
    then have "last (u @ BatchId_display b) = digit_char d" "(of_char (digit_char d) :: nat) < 58"
      using True by (simp_all add: BatchId_display_def display_interval_def digit_char_def)
    then show ?thesis by auto
  qed (simp add: BatchId_display_def display_interval_def)
  ultimately show False by simp
qed

lemma key_from:
  assumes "str_find ''step'' (dump_name bs58 sig k b) = Some i" "drop i (dump_name bs58 sig k b) = (u @ BatchId_display b) @ ''.vec-postcard''"
  shows "contribution_key (dump_name bs58 sig k b) = Some (u @ BatchId_display b)"
proof -
  have "ends_with ''.vec-postcard'' (dump_name bs58 sig k b)"
    unfolding dump_name_def using ends_with_append [of "''.vec-postcard''" "''result-'' @ bs58 sig @ ''-step'' @ display_nat k @ ''-batch'' @ BatchId_display b"]
    by (simp only: append_assoc)
  then show ?thesis
    using assms trim_end_matches_once [OF _ display_not_postcard, of u b] by (simp add: contribution_key_def)
qed

lemma dump_name_dashes:
  "dump_name bs58 sig k b = ''result'' @ CHR ''-'' # bs58 sig @ CHR ''-'' # (''step'' @ display_nat k @ ''-batch'' @ BatchId_display b) @ ''.vec-postcard''"
  by (simp add: dump_name_def)

lemma key_of_dump:
  assumes "str_find ''step'' (bs58 sig) = None"
  shows "contribution_key (dump_name bs58 sig k b) = Some (''step'' @ display_nat k @ ''-batch'' @ BatchId_display b)"
proof -
  have "str_find ''step'' (dump_name bs58 sig k b) = Some (length ''result-'' + length (bs58 sig) + 1)"
    unfolding dump_name_dashes find_step_skip find_step_result assms append_assoc str_find_here by simp
  then have "contribution_key (dump_name bs58 sig k b) = Some ((''step'' @ display_nat k @ ''-batch'') @ BatchId_display b)"
    by (rule key_from) (simp add: dump_name_def)
  then show ?thesis by simp
qed

lemma committer_of_dump:
  assumes "CHR ''-'' \<notin> set (bs58 sig)"
  shows "parse_committer (dump_name bs58 sig k b) = Some (bs58 sig)"
proof -
  let ?rest = "bs58 sig @ ''-step'' @ display_nat k @ ''-batch'' @ BatchId_display b @ ''.vec-postcard''"
  have "str_strip_prefix ''result-'' (dump_name bs58 sig k b) = Some ?rest"
    by (simp add: str_strip_prefix_def dump_name_def starts_with_def)
  moreover have "str_find ''-step'' ?rest = Some (length (bs58 sig))"
    using str_find_skip [OF refl assms, of "''step''" "''-step'' @ display_nat k @ ''-batch'' @ BatchId_display b @ ''.vec-postcard''"]
      str_find_here [of "''-step''" "display_nat k @ ''-batch'' @ BatchId_display b @ ''.vec-postcard''"] by (simp del: str_find.simps)
  ultimately show ?thesis
    by (simp add: parse_committer_def)
qed

lemma split_batch: "CHR ''-'' \<notin> set u \<Longrightarrow> split_once ''-batchB'' (u @ ''-batchB'' @ s) = Some (u, s)"
  using str_find_skip [of "''-batchB''" "CHR ''-''" "''batchB''" u "''-batchB'' @ s"] str_find_here [of "''-batchB''" s]
  by (simp add: split_once_def del: str_find.simps)

lemma assignment_of_key:
  assumes "k < 2 ^ 32" "a < b" "b < 2 ^ 64"
  shows "parse_assignment_key (''step'' @ display_nat k @ ''-batch'' @ BatchId_display (BatchId \<lparr>iv_start = a, iv_end = b\<rparr>))
    = Ok (Some (k, BatchId \<lparr>iv_start = a, iv_end = b\<rparr>))"
proof -
  let ?x = "display_nat a" and ?y = "display_nat b"
  have "''step'' @ display_nat k @ ''-batch'' @ BatchId_display (BatchId \<lparr>iv_start = a, iv_end = b\<rparr>)
      = (''step'' @ display_nat k) @ ''-batchB'' @ ''['' @ ?x @ '', '' @ ?y @ '']''"
    using assms(2) by (simp add: BatchId_display_def display_interval_def)
  moreover have "split_once ''-batchB'' ((''step'' @ display_nat k) @ ''-batchB'' @ ''['' @ ?x @ '', '' @ ?y @ '']'')
      = Some (''step'' @ display_nat k, ''['' @ ?x @ '', '' @ ?y @ '']'')"
    by (rule split_batch) simp
  moreover have "str_strip_prefix ''step'' (''step'' @ display_nat k) = Some (display_nat k)"
    by (simp add: str_strip_prefix_def starts_with_def)
  moreover have hds: "hd ?x \<noteq> CHR ''[''" "hd (rev ?y) \<noteq> CHR '']''"
    by (metis display_nat_no(2) display_nat_not_Nil hd_in_set)
      (metis display_nat_no(3) display_nat_not_Nil hd_in_set rev_is_Nil_conv set_rev)
  moreover have "dropWhile (\<lambda>c. c = CHR ''['') (''['' @ ?x @ '', '' @ ?y @ '']'') = ?x @ '', '' @ ?y @ '']''"
    using hds(1) by (cases ?x) auto
  moreover have "trim_end (\<lambda>c. c = CHR '']'') (?x @ '', '' @ ?y @ '']'') = ?x @ '', '' @ ?y"
    using hds(2) by (cases "rev ?y") (auto simp: trim_end_def)
  moreover have "split_once '','' (?x @ '', '' @ ?y) = Some (?x, CHR '' '' # ?y)"
    using split_once_comma [OF display_nat_no(4), of a "CHR '' '' # ?y"] by simp
  ultimately show ?thesis
    using assms by (simp add: parse_assignment_key_def u32_display u64_display iv_new_def Let_def assert_ok_def)
qed

text \<open>
  (C34) Dumps are recognised by their names. For a signer whose base58 text has no dash and does not contain
  \<open>step\<close>, and a batch of more than one sample, the key, the committer, the bounds and the assignment that
  the daemon reads from the name that a client writes are those of the result.
\<close>

theorem dump_names_parse:
  assumes "CHR ''-'' \<notin> set (bs58 sig)" "str_find ''step'' (bs58 sig) = None" "k < 2 ^ 32" "a < b" "b < 2 ^ 64"
  defines "name \<equiv> dump_name bs58 sig k (BatchId \<lparr>iv_start = a, iv_end = b\<rparr>)"
  shows "\<exists>file_key. contribution_key name = Some file_key \<and> parse_committer name = Some (bs58 sig)
    \<and> parse_batch_bounds file_key = Ok (Some (a, b))
    \<and> parse_assignment_key file_key = Ok (Some (k, BatchId \<lparr>iv_start = a, iv_end = b\<rparr>))"
  unfolding name_def key_of_dump [of bs58 sig, OF assms(2)] committer_of_dump [of bs58 sig, OF assms(1)]
  using assignment_of_key [OF assms(3-5)] key_bounds [of k "BatchId \<lparr>iv_start = a, iv_end = b\<rparr>"] assms(4,5) by simp

theorem dump_names_parse_witness:
  "\<exists>file_key. contribution_key ''result-abc-step7-batchB[4, 5].vec-postcard'' = Some file_key
    \<and> parse_committer ''result-abc-step7-batchB[4, 5].vec-postcard'' = Some ''abc'' \<and> parse_batch_bounds file_key = Ok (Some (4, 5))
    \<and> parse_assignment_key file_key = Ok (Some (7, BatchId \<lparr>iv_start = 4, iv_end = 5\<rparr>))"
proof -
  have "dump_name (\<lambda>_. ''abc'') [] 7 (BatchId \<lparr>iv_start = 4, iv_end = 5\<rparr>) = ''result-abc-step7-batchB[4, 5].vec-postcard''"
    by (simp add: dump_name_def BatchId_display_def display_interval_def digit_char_def char_of_def bit_simps
        display_nat.simps [of 7] display_nat.simps [of 4] display_nat.simps [of 5])
  then show ?thesis
    using dump_names_parse [of "\<lambda>_. ''abc''" "[]" 7 4 5] by (simp add: starts_with_def)
qed

section \<open>Contributions that are never looked at\<close>

definition bounds_differ :: "(string, (string \<times> nat \<times> nat) set) res \<Rightarrow> bool" where
  "bounds_differ r \<longleftrightarrow> (\<forall>acc x a b. r = Ok acc \<longrightarrow> (x, a, b) \<in> acc \<longrightarrow> a \<noteq> b)"

lemma add_audit_differ: "bounds_differ r \<Longrightarrow> bounds_differ (add_audit bs58 au r)"
  using bounds_of_interval [of "[]" "aa_batch_id au"]
  by (auto simp: bounds_differ_def add_audit_def Let_def split: option.splits if_splits)

lemma add_audits_differ: "bounds_differ r \<Longrightarrow> bounds_differ (fold (add_audit bs58) audits r)"
  by (induction audits arbitrary: r) (simp_all add: add_audit_differ)

lemma assigned_bounds_differ: "assigned_audits X E c n = Ok as \<Longrightarrow> (x, a, b) \<in> as \<Longrightarrow> a \<noteq> b"
  using add_audits_differ [of "Ok {}" "de_bs58 E"] by (fastforce simp: assigned_audits_def bounds_differ_def split: res.splits)

text \<open>
  The batch of a single sample is never audited. Its id is printed without brackets, so a daemon that
  audits what it is assigned passes over every dump of such a batch, whoever is assigned to it.
\<close>

theorem single_sample_unaudited:
  assumes "assigned_audits X E c n = Ok as" "iv_start (bid_interval b) = iv_end (bid_interval b)"
  shows "audit_file X E cfg c (Some as) reference (''step'' @ display_nat k @ ''-batch'' @ BatchId_display b, path) st = (Ok (), st)"
proof -
  have "parse_batch_bounds (''step'' @ display_nat k @ ''-batch'' @ BatchId_display b) = Ok None"
    using key_bounds [of k b] assms(2) by (simp add: Let_def)
  moreover have "(x, 0, 0) \<notin> as" for x
    using assigned_bounds_differ [OF assms(1)] by blast
  ultimately show ?thesis
    by (simp add: audit_file_def Let_def split: option.splits)
qed

lemma vanity_key:
  assumes "str_find ''step'' (bs58 sig) = Some i" "CHR ''-'' \<notin> set (bs58 sig)"
  shows "contribution_key (dump_name bs58 sig k b) = Some ((drop i (bs58 sig) @ ''-step'' @ display_nat k @ ''-batch'') @ BatchId_display b)"
    "parse_assignment_key ((drop i (bs58 sig) @ ''-step'' @ display_nat k @ ''-batch'') @ BatchId_display b) = Ok None"
proof -
  let ?u = "drop i (bs58 sig)"
  have i: "i \<le> length (bs58 sig)"
    using str_find_Some [OF assms(1)] by simp
  have dash: "CHR ''-'' \<notin> set ?u"
    using assms(2) set_drop_subset [of i "bs58 sig"] by blast
  have "str_find ''step'' (dump_name bs58 sig k b) = Some (length ''result-'' + i)"
    unfolding dump_name_dashes find_step_skip find_step_result assms(1) by simp
  then show "contribution_key (dump_name bs58 sig k b) = Some ((?u @ ''-step'' @ display_nat k @ ''-batch'') @ BatchId_display b)"
    by (rule key_from) (use i in \<open>simp add: dump_name_def\<close>)
  let ?rest = "display_interval (bid_interval b)"
  have key: "(?u @ ''-step'' @ display_nat k @ ''-batch'') @ BatchId_display b
      = ?u @ CHR ''-'' # (''step'' @ display_nat k) @ ''-batchB'' @ ?rest"
    by (simp add: BatchId_display_def)
  have "str_find ''-batchB'' ((''step'' @ display_nat k) @ ''-batchB'' @ ?rest) = Some (length (''step'' @ display_nat k))"
    using str_find_skip [of "''-batchB''" "CHR ''-''" "''batchB''" "''step'' @ display_nat k" "''-batchB'' @ ?rest"]
      str_find_here [of "''-batchB''" ?rest] by (simp del: str_find.simps)
  then have "str_find ''-batchB'' (CHR ''-'' # (''step'' @ display_nat k) @ ''-batchB'' @ ?rest) = Some (5 + length (display_nat k))"
    by (simp add: starts_with_def)
  then have "str_find ''-batchB'' (?u @ CHR ''-'' # (''step'' @ display_nat k) @ ''-batchB'' @ ?rest) = Some (length (?u @ ''-step'' @ display_nat k))"
    using str_find_skip [of "''-batchB''" "CHR ''-''" "''batchB''" ?u, OF refl dash] by (simp del: str_find.simps)
  then have "split_once ''-batchB'' ((?u @ ''-step'' @ display_nat k @ ''-batch'') @ BatchId_display b) = Some (?u @ ''-step'' @ display_nat k, ?rest)"
    using split_once_at [of "''-batchB''" "?u @ ''-step'' @ display_nat k" ?rest] unfolding key by simp
  moreover have "Option.bind (str_strip_prefix ''step'' (?u @ ''-step'' @ display_nat k)) u32_from_str = None"
  proof (cases "str_strip_prefix ''step'' (?u @ ''-step'' @ display_nat k)")
    case (Some rest)
    have "CHR ''-'' \<in> set rest"
    proof -
      have "starts_with ''step'' ?u"
        using str_find_Some [OF assms(1)] by simp
      then have "\<exists>v. rest = v @ ''-step'' @ display_nat k"
        using Some by (auto simp: str_strip_prefix_def starts_with_def split: if_splits dest: arg_cong [where f = length])
      then show ?thesis by auto
    qed
    then have "u64_from_str rest = None"
      by (rule u64_from_str_None) (simp_all add: digit_value_def)
    then show ?thesis
      using Some by (simp add: u32_from_str_def)
  qed simp
  ultimately show "parse_assignment_key ((?u @ ''-step'' @ display_nat k @ ''-batch'') @ BatchId_display b) = Ok None"
    by (simp add: parse_assignment_key_def)
qed

text \<open>
  A signer can put itself out of reach. If the base58 text of a signer contains \<open>step\<close>, which takes
  a few hundred thousand tries to find, the key of its dumps starts inside the signer, no step is read from
  it, and a daemon that replays passes over every one of them.
\<close>

theorem vanity_signer_unaudited:
  assumes "str_find ''step'' (de_bs58 E sig) = Some i" "set (de_bs58 E sig) \<inter> set ''-[]'' = {}" "de_replay E \<noteq> None"
    "cfg_replay_step cfg = Some step"
  shows "\<exists>file_key. contribution_key (dump_name (de_bs58 E) sig k b) = Some file_key
    \<and> audit_file X E cfg c asg None (file_key, dump_name (de_bs58 E) sig k b) st = (Ok (), st)"
proof -
  let ?u = "drop i (de_bs58 E sig) @ ''-step'' @ display_nat k @ ''-batch''"
  have dash: "CHR ''-'' \<notin> set (de_bs58 E sig)"
    using assms(2) by simp
  have "CHR ''['' \<notin> set ?u" "CHR '']'' \<notin> set ?u"
    using assms(2) set_drop_subset [of i "de_bs58 E sig"] by auto
  then obtain bounds where "parse_batch_bounds (?u @ BatchId_display b) = Ok bounds"
    using bounds_of_interval [of ?u b] by (simp only: Let_def) blast
  moreover have "reference_delta E cfg None (?u @ BatchId_display b) roster w = (Ok None, w)" for roster w
    using vanity_key(2) [of "de_bs58 E" sig i, OF assms(1) dash, of k b] assms(3,4) by (auto simp: reference_delta_def)
  ultimately have "audit_file X E cfg c asg None (?u @ BatchId_display b, dump_name (de_bs58 E) sig k b) st = (Ok (), st)"
    using committer_of_dump [of "de_bs58 E" sig, OF dash] by (simp add: audit_file_def Let_def)
  then show ?thesis
    using vanity_key(1) [of "de_bs58 E" sig i, OF assms(1) dash, of k b] by blast
qed

section \<open>One bad dump stops the pass\<close>

lemma audit_files_append:
  "audit_files turn (pre @ fs) st = (case audit_files turn pre st of (Ok _, st') \<Rightarrow> audit_files turn fs st' | (r, st') \<Rightarrow> (r, st'))"
  by (induction pre arbitrary: st) (auto split: prod.splits res.splits)

text \<open>
  A dump of the wrong length disables the daemon. When the loop comes to a contribution it has to audit
  and the dump has another length than the reference, the pass ends with an error: the contribution is
  neither convicted nor marked, and no contribution behind it is looked at.
\<close>

theorem wrong_length_stops_pass:
  assumes "audit_setup X E cfg = Ok (c, asg, pre @ (file_key, path) # post, Some ref)"
    "audit_files (audit_file X E cfg c asg (Some ref)) pre \<lparr>ps_judged = judged, ps_convictions = 0, ps_world = w, ps_sent = []\<rparr> = (Ok (), st)"
    "parse_committer path = Some committer" "file_key \<notin> ps_judged st" "parse_batch_bounds file_key = Ok (Some bounds)"
    "\<forall>as. asg = Some as \<longrightarrow> (committer, bounds) \<in> as" "map_of ref file_key = Some q" "de_reference_dump E q = Ok delta"
    "de_submitted_dump E path = Ok sub" "length sub \<noteq> length delta"
  shows "audit_pass X E cfg judged w = (Err ''verify'', st)"
proof -
  have "\<exists>e. verify_within_band (vals sub) (vals delta) (cfg_band cfg) = Err e"
    using assms(10) by (simp add: verify_within_band_def relative_l2_distance_def vals_def)
  then obtain e where "verify_within_band (vals sub) (vals delta) (cfg_band cfg) = Err e" ..
  moreover have "(case asg of Some as \<Rightarrow> (committer, bounds) \<notin> as | None \<Rightarrow> False) = False"
    using assms(6) by (cases asg) simp_all
  moreover have "reference_delta E cfg (Some ref) file_key roster v = (Ok (Some delta), v)" for roster v
    using assms(7,8) by (simp add: reference_delta_def)
  ultimately have "audit_file X E cfg c asg (Some ref) (file_key, path) st = (Err ''verify'', st)"
    using assms(3-5,9) by (simp add: audit_file_def judge_contribution_def Let_def)
  then show ?thesis
    using assms(1,2) by (simp add: audit_pass_def audit_files_append)
qed

section \<open>A pass on one file\<close>

definition demo_batch :: BatchId where
  "demo_batch = BatchId \<lparr>iv_start = 4, iv_end = 5\<rparr>"

definition demo_name :: string where
  "demo_name = dump_name (\<lambda>_. ''abc'') [] 7 demo_batch"

definition demo_key :: string where
  "demo_key = ''step'' @ display_nat 7 @ ''-batch'' @ BatchId_display demo_batch"

definition demo_daemon :: "32 word list \<Rightarrow> unit daemon_env" where
  "demo_daemon sub = \<lparr>de_run = Ok (Some 1), de_state = Ok (Some demo_auditing), de_submitted = Ok [demo_name],
     de_reference = Some (Ok [demo_name]), de_submitted_dump = (\<lambda>_. Ok sub), de_reference_dump = (\<lambda>_. Ok [0]), de_replay = None,
     de_submit = (\<lambda>_ w. (Ok (), w)), de_bs58 = (\<lambda>s. if s = [1] then ''abc'' else ''xyz'')\<rparr>"

definition demo_audit_config :: AuditConfig where
  "demo_audit_config = \<lparr>cfg_band = Fin 0, cfg_audit_assigned = False, cfg_dry_run = False, cfg_verdict_mode = True, cfg_replay_step = None\<rparr>"

lemma demo_names:
  "contribution_key demo_name = Some demo_key" "parse_committer demo_name = Some ''abc''" "parse_batch_bounds demo_key = Ok (Some (4, 5))"
proof -
  show "contribution_key demo_name = Some demo_key"
    unfolding demo_name_def demo_key_def by (rule key_of_dump) (simp add: starts_with_def)
  show "parse_committer demo_name = Some ''abc''"
    unfolding demo_name_def by (rule committer_of_dump [of "\<lambda>_. ''abc''"]) simp
  show "parse_batch_bounds demo_key = Ok (Some (4, 5))"
    unfolding demo_key_def using key_bounds [of 7 demo_batch] by (simp add: demo_batch_def)
qed

lemma demo_setup: "audit_setup X (demo_daemon sub) demo_audit_config = Ok (demo_auditing, None, [(demo_key, demo_name)], Some [(demo_key, demo_name)])"
  by (simp add: audit_setup_def demo_daemon_def demo_audit_config_def index_dir_def demo_names opt_res_def guard_err_def)


theorem wrong_length_stops_pass_witness:
  "audit_pass demo_identity (demo_daemon [0, 0]) demo_audit_config {} ()
     = (Err ''verify'', \<lparr>ps_judged = {}, ps_convictions = 0, ps_world = (), ps_sent = []\<rparr>)"
  using wrong_length_stops_pass [of demo_identity "demo_daemon [0, 0]" demo_audit_config demo_auditing None "[]" demo_key demo_name "[]"
      "[(demo_key, demo_name)]" "{}" "()" _ "''abc''" "(4, 5)" demo_name "[0]" "[0, 0]"] demo_setup demo_names
  by (simp add: demo_daemon_def)

lemma add_audits_ok: "\<exists>as. fold (add_audit bs58) audits (Ok acc) = Ok as"
proof (induction audits arbitrary: acc)
  case (Cons au audits)
  have "\<exists>acc'. add_audit bs58 au (Ok acc) = Ok acc'"
    using bounds_of_interval [of "[]" "aa_batch_id au"] by (simp add: add_audit_def Let_def)
  then show ?case
    using Cons by auto
qed simp

theorem single_sample_unaudited_witness:
  "\<exists>as. assigned_audits demo_X (demo_daemon [0x7fc00000]) demo_auditing 1 = Ok as
     \<and> audit_file demo_X (demo_daemon [0x7fc00000]) demo_audit_config demo_auditing (Some as) None
         (''step'' @ display_nat 7 @ ''-batch'' @ BatchId_display (BatchId \<lparr>iv_start = 4, iv_end = 4\<rparr>), demo_name)
         \<lparr>ps_judged = {}, ps_convictions = 0, ps_world = (), ps_sent = []\<rparr>
       = (Ok (), \<lparr>ps_judged = {}, ps_convictions = 0, ps_world = (), ps_sent = []\<rparr>)"
proof -
  obtain s where s: "in_round demo_X s 1 demo_auditing" "length (trainers demo_X s demo_auditing) = 3"
    using demo_auditing_round by blast
  then have "trainers demo_X s demo_auditing \<noteq> []" "0 < round_batch demo_auditing"
    using demo_auditing_batch(2) by auto
  then obtain audits where "select_audits_for_current_round demo_X demo_auditing 1 = Ok audits"
    using select_audits_eq [OF s(1) demo_auditing_batch(1)] by blast
  then obtain as where as: "assigned_audits demo_X (demo_daemon [0x7fc00000]) demo_auditing 1 = Ok as"
    using add_audits_ok by (fastforce simp: assigned_audits_def)
  then show ?thesis
    using single_sample_unaudited [OF as, of "BatchId \<lparr>iv_start = 4, iv_end = 4\<rparr>"] by simp
qed

theorem vanity_signer_unaudited_witness:
  "\<exists>file_key. contribution_key (dump_name (\<lambda>_. ''9stepX'') [1] 7 demo_batch) = Some file_key
     \<and> audit_file demo_identity ((demo_daemon [0x7fc00000])\<lparr>de_bs58 := (\<lambda>_. ''9stepX''), de_replay := Some (\<lambda>i w. (Ok [0], w))\<rparr>)
         (demo_audit_config\<lparr>cfg_replay_step := Some 7\<rparr>) demo_auditing None None (file_key, dump_name (\<lambda>_. ''9stepX'') [1] 7 demo_batch)
         \<lparr>ps_judged = {}, ps_convictions = 0, ps_world = (), ps_sent = []\<rparr>
       = (Ok (), \<lparr>ps_judged = {}, ps_convictions = 0, ps_world = (), ps_sent = []\<rparr>)"
  using vanity_signer_unaudited [of "(demo_daemon [0x7fc00000])\<lparr>de_bs58 := (\<lambda>_. ''9stepX''), de_replay := Some (\<lambda>i w. (Ok [0], w))\<rparr>" "[1]" 1
      "demo_audit_config\<lparr>cfg_replay_step := Some 7\<rparr>" 7 7 demo_batch]
  by (simp add: starts_with_def)

end
