(* ===== verification/Distributor.thy ===== *)
theory Distributor
  imports Solana
begin

text \<open>
  The distributor program (solana-distributor): an airdrop holds collateral and the root of a Merkle tree
  of allocations; whoever proves an allocation redeems what has vested of it. The state holds the
  airdrops by key, the claims by airdrop, claimer and nonce, and the token accounts.
\<close>

section \<open>State\<close>

datatype DistributorError =
    AirdropClaimFreezeIsTrue
  | ParamsMerkleProofIsInvalid
  | ParamsMerkleRootIsZeroed
  | ParamsCollateralAmountIsTooLarge
  | VestingElapsedSecondsOverflow
  | VestingNumeratorCollateralAmountOverflow
  | VestingDenominatorCollateralAmountOverflow
  | VestingVestedCollateralAmountOverflow
  | AccountingUpdatesOverflow

type_synonym 'a distributor_res = "(DistributorError anchor_error, 'a) res"

record Vesting =
  start_unix_timestamp :: int
  duration_seconds :: nat
  end_collateral_amount :: nat

record Allocation =
  al_claimer :: pubkey
  al_nonce :: nat
  al_vesting :: Vesting

type_synonym MerkleHash = bytes

record Airdrop =
  ad_bump :: nat
  ad_id :: nat
  ad_authority :: pubkey
  ad_collateral_mint :: pubkey
  ad_total_claimed :: nat
  ad_claim_freeze :: bool
  ad_merkle_root :: MerkleHash
  ad_metadata :: bytes

record Claim =
  claim_bump :: nat
  claim_claimed :: nat

record distribution =
  ds_airdrops :: "pubkey \<Rightarrow> Airdrop option"
  ds_claims :: "pubkey \<times> pubkey \<times> nat \<Rightarrow> Claim option"
  ds_ledger :: ledger

definition DISTRIBUTOR_ID :: string where
  "DISTRIBUTOR_ID = ''GQEX84Laeg8JSJiiP5hL9L1vi3gGAMB3E6r1eWhf2fjS''"

section \<open>Vesting and Merkle proofs\<close>

definition compute_vested_collateral_amount :: "Vesting \<Rightarrow> int \<Rightarrow> nat distributor_res" where
  "compute_vested_collateral_amount v now =
     (if now < start_unix_timestamp v then Ok 0
      else if duration_seconds v = 0 then Ok (end_collateral_amount v)
      else rbind (i64_sub now (start_unix_timestamp v)) (\<lambda>elapsed.
           rbind (fail_if (elapsed < 0) VestingElapsedSecondsOverflow) (\<lambda>_.
             let numerator = end_collateral_amount v * nat elapsed in
             rbind (fail_if (2 ^ 128 \<le> numerator) VestingNumeratorCollateralAmountOverflow) (\<lambda>_.
             rbind (fail_if (duration_seconds v = 0) VestingDenominatorCollateralAmountOverflow) (\<lambda>_.
               let vested = numerator div duration_seconds v in
               if end_collateral_amount v < vested then Ok (end_collateral_amount v)
               else rbind (fail_if (2 ^ 64 \<le> vested) VestingVestedCollateralAmountOverflow) (\<lambda>_. Ok vested))))))"

text \<open>\<open><=\<close> of byte arrays is lexicographic.\<close>

fun bytes_le :: "bytes \<Rightarrow> bytes \<Rightarrow> bool" where
  "bytes_le [] ys = True"
| "bytes_le (x # xs) [] = False"
| "bytes_le (x # xs) (y # ys) = (x < y \<or> x = y \<and> bytes_le xs ys)"

definition from_parts :: "externs \<Rightarrow> bytes list \<Rightarrow> MerkleHash" where
  "from_parts X parts = sha256v X ([0] # parts)"

definition from_pair :: "externs \<Rightarrow> MerkleHash \<Rightarrow> MerkleHash \<Rightarrow> MerkleHash" where
  "from_pair X a b = (let (low, high) = (if bytes_le a b then (a, b) else (b, a)) in sha256v X [[1], low, high])"

primrec merkle_fold :: "externs \<Rightarrow> MerkleHash \<Rightarrow> MerkleHash list \<Rightarrow> MerkleHash" where
  "merkle_fold X h [] = h"
| "merkle_fold X h (n # ns) = merkle_fold X (from_pair X h n) ns"

definition is_valid_proof :: "externs \<Rightarrow> MerkleHash \<Rightarrow> MerkleHash \<Rightarrow> MerkleHash list \<Rightarrow> bool" where
  "is_valid_proof X root leaf path = (merkle_fold X leaf path = root)"

definition to_merkle_hash :: "externs \<Rightarrow> Allocation \<Rightarrow> MerkleHash" where
  "to_merkle_hash X a = from_parts X
     [al_claimer a, to_le_bytes 8 (al_nonce a), to_le_bytes 8 (i64_as_u64 (start_unix_timestamp (al_vesting a))),
      to_le_bytes 4 (duration_seconds (al_vesting a)), to_le_bytes 8 (end_collateral_amount (al_vesting a))]"

section \<open>Instructions\<close>

definition find_airdrop :: "runtime \<Rightarrow> nat \<Rightarrow> pubkey \<times> nat" where
  "find_airdrop R i = find_program_address R DISTRIBUTOR_ID [str_bytes ''Airdrop'', to_le_bytes 8 i]"

definition airdrop_create ::
  "runtime \<Rightarrow> pubkey \<Rightarrow> pubkey \<Rightarrow> nat \<Rightarrow> MerkleHash \<Rightarrow> bytes \<Rightarrow> distribution \<Rightarrow> distribution distributor_res" where
  "airdrop_create R authority collateral_mint i merkle_root metadata s =
     (let (airdrop, bump) = find_airdrop R i in
      rbind (init_account (ds_airdrops s) airdrop) (\<lambda>_.
      rbind (init_associated_token R (ds_ledger s) collateral_mint airdrop) (\<lambda>L.
        Ok (s\<lparr>ds_airdrops := (ds_airdrops s)(airdrop \<mapsto>
               \<lparr>ad_bump = bump, ad_id = i, ad_authority = authority, ad_collateral_mint = collateral_mint,
                ad_total_claimed = 0, ad_claim_freeze = False, ad_merkle_root = merkle_root, ad_metadata = metadata\<rparr>),
             ds_ledger := L\<rparr>))))"

definition airdrop_update ::
  "pubkey \<Rightarrow> pubkey \<Rightarrow> bool option \<Rightarrow> MerkleHash option \<Rightarrow> bytes option \<Rightarrow> distribution \<Rightarrow> distribution distributor_res" where
  "airdrop_update authority airdrop claim_freeze merkle_root metadata s =
     rbind (load (ds_airdrops s) airdrop) (\<lambda>a.
     rbind (require_constraint (ad_authority a = authority)) (\<lambda>_.
       let a1 = (case claim_freeze of None \<Rightarrow> a | Some b \<Rightarrow> a\<lparr>ad_claim_freeze := b\<rparr>) in
       rbind (case merkle_root of
                None \<Rightarrow> Ok a1
              | Some r \<Rightarrow> rbind (fail_if (r = replicate 32 0) ParamsMerkleRootIsZeroed) (\<lambda>_. Ok (a1\<lparr>ad_merkle_root := r\<rparr>))) (\<lambda>a2.
         let a3 = (case metadata of None \<Rightarrow> a2 | Some m \<Rightarrow> a2\<lparr>ad_metadata := m\<rparr>) in
         Ok (s\<lparr>ds_airdrops := (ds_airdrops s)(airdrop \<mapsto> a3)\<rparr>))))"

definition airdrop_withdraw ::
  "runtime \<Rightarrow> pubkey \<Rightarrow> pubkey \<Rightarrow> pubkey \<Rightarrow> pubkey \<Rightarrow> pubkey \<Rightarrow> nat \<Rightarrow> distribution \<Rightarrow> distribution distributor_res" where
  "airdrop_withdraw R authority receiver_collateral airdrop airdrop_collateral collateral_mint amount s =
     rbind (load (ds_airdrops s) airdrop) (\<lambda>a.
     rbind (load (ds_ledger s) receiver_collateral) (\<lambda>receiver.
     rbind (require_constraint (ta_mint receiver = ad_collateral_mint a \<and> ta_delegate receiver = None)) (\<lambda>_.
     rbind (require_constraint (ad_authority a = authority)) (\<lambda>_.
     rbind (vault_account R (ds_ledger s) airdrop_collateral collateral_mint airdrop) (\<lambda>_.
     rbind (transfer R (ds_ledger s) airdrop_collateral receiver_collateral airdrop amount) (\<lambda>L.
       Ok (s\<lparr>ds_ledger := L\<rparr>)))))))"

definition claim_create :: "runtime \<Rightarrow> pubkey \<Rightarrow> pubkey \<Rightarrow> nat \<Rightarrow> distribution \<Rightarrow> distribution distributor_res" where
  "claim_create R claimer airdrop nonce s =
     rbind (load (ds_airdrops s) airdrop) (\<lambda>a.
     rbind (init_account (ds_claims s) (airdrop, claimer, nonce)) (\<lambda>_.
     rbind (fail_if (ad_claim_freeze a) AirdropClaimFreezeIsTrue) (\<lambda>_.
       let bump = snd (find_program_address R DISTRIBUTOR_ID [str_bytes ''Claim'', airdrop, claimer, to_le_bytes 8 nonce]) in
       Ok (s\<lparr>ds_claims := (ds_claims s)((airdrop, claimer, nonce) \<mapsto> \<lparr>claim_bump = bump, claim_claimed = 0\<rparr>)\<rparr>))))"

definition claim_redeem ::
  "externs \<Rightarrow> runtime \<Rightarrow> Clock \<Rightarrow> pubkey \<Rightarrow> pubkey \<Rightarrow> pubkey \<Rightarrow> pubkey \<Rightarrow> pubkey \<Rightarrow> nat \<Rightarrow> Vesting \<Rightarrow> nat \<Rightarrow> MerkleHash list
   \<Rightarrow> distribution \<Rightarrow> distribution distributor_res" where
  "claim_redeem X R clock claimer receiver_collateral airdrop airdrop_collateral collateral_mint nonce vesting amount path s =
     rbind (load (ds_airdrops s) airdrop) (\<lambda>a.
     rbind (load (ds_ledger s) receiver_collateral) (\<lambda>receiver.
     rbind (require_constraint (ta_mint receiver = ad_collateral_mint a \<and> ta_delegate receiver = None)) (\<lambda>_.
     rbind (require_constraint (ad_collateral_mint a = collateral_mint)) (\<lambda>_.
     rbind (vault_account R (ds_ledger s) airdrop_collateral (ad_collateral_mint a) airdrop) (\<lambda>_.
     rbind (load (ds_claims s) (airdrop, claimer, nonce)) (\<lambda>claim.
     rbind (fail_if (ad_claim_freeze a) AirdropClaimFreezeIsTrue) (\<lambda>_.
       let allocation = \<lparr>al_claimer = claimer, al_nonce = nonce, al_vesting = vesting\<rparr> in
       rbind (fail_if (\<not> is_valid_proof X (ad_merkle_root a) (to_merkle_hash X allocation) path) ParamsMerkleProofIsInvalid) (\<lambda>_.
       rbind (compute_vested_collateral_amount vesting (clk_unix_timestamp clock)) (\<lambda>vested.
       rbind (fail_if (vested - claim_claimed claim < amount) ParamsCollateralAmountIsTooLarge) (\<lambda>_.
       rbind (u_add 64 (claim_claimed claim) amount) (\<lambda>claimed.
       rbind (u_add 64 (ad_total_claimed a) amount) (\<lambda>total.
       rbind (transfer R (ds_ledger s) airdrop_collateral receiver_collateral airdrop amount) (\<lambda>L.
         Ok (s\<lparr>ds_airdrops := (ds_airdrops s)(airdrop \<mapsto> a\<lparr>ad_total_claimed := total\<rparr>),
              ds_claims := (ds_claims s)((airdrop, claimer, nonce) \<mapsto> claim\<lparr>claim_claimed := claimed\<rparr>),
              ds_ledger := L\<rparr>))))))))))))))"

inductive distributor_step :: "externs \<Rightarrow> runtime \<Rightarrow> distribution \<Rightarrow> distribution \<Rightarrow> bool" for X R where
  ds_create: "airdrop_create R authority mint i root md s = Ok s' \<Longrightarrow> distributor_step X R s s'"
| ds_update: "airdrop_update authority airdrop freeze root md s = Ok s' \<Longrightarrow> distributor_step X R s s'"
| ds_withdraw: "airdrop_withdraw R authority receiver airdrop vault mint n s = Ok s' \<Longrightarrow> distributor_step X R s s'"
| ds_claim: "claim_create R claimer airdrop nonce s = Ok s' \<Longrightarrow> distributor_step X R s s'"
| ds_redeem: "claim_redeem X R clock claimer receiver airdrop vault mint nonce vesting n path s = Ok s' \<Longrightarrow> distributor_step X R s s'"
| ds_tokens: "distributor_step X R s (s\<lparr>ds_ledger := L\<rparr>)"

section \<open>Vesting\<close>

text \<open>
  The vesting schedule. For every time at which the subtraction of the start does not leave the
  \<open>i64\<close> range the computation returns: nothing before the start, the linear share of the end amount
  rounded down during the vesting period, and the end amount from its end on. The amount never decreases
  with time and never exceeds the end amount; none of the overflow errors can occur.
\<close>

theorem vesting_schedule:
  assumes "end_collateral_amount v < 2 ^ 64" "now - start_unix_timestamp v < 2 ^ 63" "now \<le> later"
    "later - start_unix_timestamp v < 2 ^ 63"
  shows "\<exists>a b. compute_vested_collateral_amount v now = Ok a \<and> compute_vested_collateral_amount v later = Ok b
     \<and> a \<le> b \<and> b \<le> end_collateral_amount v
     \<and> (now < start_unix_timestamp v \<longrightarrow> a = 0)
     \<and> (start_unix_timestamp v + int (duration_seconds v) \<le> now \<longrightarrow> a = end_collateral_amount v)
     \<and> (start_unix_timestamp v \<le> now \<and> now < start_unix_timestamp v + int (duration_seconds v) \<longrightarrow>
          a = end_collateral_amount v * nat (now - start_unix_timestamp v) div duration_seconds v)"
proof -
  let ?e = "end_collateral_amount v" and ?d = "duration_seconds v" and ?s = "start_unix_timestamp v"
  have eq: "compute_vested_collateral_amount v t =
      Ok (if t < ?s then 0 else if ?d = 0 then ?e else min ?e (?e * nat (t - ?s) div ?d))" if t: "t - ?s < 2 ^ 63" for t
  proof (cases "t < ?s \<or> ?d = 0")
    case True
    then show ?thesis by (auto simp: compute_vested_collateral_amount_def)
  next
    case False
    then have n: "?e * nat (t - ?s) < 2 ^ 64 * 2 ^ 63"
      using assms(1) t by (intro mult_strict_mono') (auto simp: nat_less_iff)
    have "t - ?s \<ge> - (2 ^ 63)"
      using False by simp
    then have "i64_sub t ?s = (Ok (t - ?s) :: int distributor_res)"
      using t by (simp add: i64_sub_def)
    moreover have "\<not> 2 ^ 128 \<le> ?e * nat (t - ?s)"
      using n by simp
    ultimately show ?thesis
      using False assms(1) by (simp add: compute_vested_collateral_amount_def fail_if_def guard_err_def Let_def min_def)
  qed
  have lin: "?e * nat (t - ?s) div ?d \<ge> ?e" if "?s + int ?d \<le> t" "?d \<noteq> 0" for t
    using that div_le_mono [of "?e * ?d" "?e * nat (t - ?s)" ?d] by (simp add: nat_le_iff le_nat_iff)
  have below: "?e * nat (t - ?s) div ?d \<le> ?e" if "t < ?s + int ?d" for t
    using that div_le_mono [of "?e * nat (t - ?s)" "?e * ?d" ?d]
    by (cases "?d = 0") (auto simp: nat_le_iff intro: mult_le_mono2)
  have mono: "?e * nat (now - ?s) div ?d \<le> ?e * nat (later - ?s) div ?d"
    using assms(3) by (intro div_le_mono mult_le_mono2 nat_mono) simp
  show ?thesis
    unfolding eq [OF assms(2)] eq [OF assms(4)]
    using assms(3) mono lin [of now] below [of now] by (auto simp: min_def)
qed

theorem vesting_schedule_witness:
  "compute_vested_collateral_amount \<lparr>start_unix_timestamp = 100, duration_seconds = 10, end_collateral_amount = 1000\<rparr> 105 = Ok 500"
  using vesting_schedule [of "\<lparr>start_unix_timestamp = 100, duration_seconds = 10, end_collateral_amount = 1000\<rparr>" 105 105]
  by auto

section \<open>Running totals\<close>

definition airdrop_total :: "pubkey \<Rightarrow> distribution \<Rightarrow> nat" where
  "airdrop_total k s = (case ds_airdrops s k of None \<Rightarrow> 0 | Some a \<Rightarrow> ad_total_claimed a)"

definition redeemed :: "pubkey \<Rightarrow> distribution \<Rightarrow> pubkey \<times> nat \<Rightarrow> nat" where
  "redeemed k s c = (case ds_claims s (k, c) of None \<Rightarrow> 0 | Some cl \<Rightarrow> claim_claimed cl)"

lemma claim_redeem_Ok:
  assumes "claim_redeem X R clock claimer receiver airdrop vault mint nonce vesting n path s = Ok s'"
  obtains a cl vested L where "ds_airdrops s airdrop = Some a" "ds_claims s (airdrop, claimer, nonce) = Some cl"
    "\<not> ad_claim_freeze a" "vault = associated_token R (ad_collateral_mint a) airdrop"
    "is_valid_proof X (ad_merkle_root a) (to_merkle_hash X \<lparr>al_claimer = claimer, al_nonce = nonce, al_vesting = vesting\<rparr>) path"
    "compute_vested_collateral_amount vesting (clk_unix_timestamp clock) = Ok vested" "n \<le> vested - claim_claimed cl"
    "token_transfer R (ds_ledger s) vault receiver airdrop n = Some L"
    "s' = s\<lparr>ds_airdrops := (ds_airdrops s)(airdrop \<mapsto> a\<lparr>ad_total_claimed := ad_total_claimed a + n\<rparr>),
       ds_claims := (ds_claims s)((airdrop, claimer, nonce) \<mapsto> cl\<lparr>claim_claimed := claim_claimed cl + n\<rparr>), ds_ledger := L\<rparr>"
  using assms by (auto simp: claim_redeem_def Let_def not_less)

lemma redeem_effect:
  assumes "claim_redeem X R clock claimer receiver airdrop vault mint nonce vesting n path s = Ok s'"
  shows "c \<noteq> (claimer, nonce) \<Longrightarrow> redeemed k s' c = redeemed k s c"
    "airdrop_total k s' + redeemed k s (claimer, nonce) = airdrop_total k s + redeemed k s' (claimer, nonce)"
  using assms by (elim claim_redeem_Ok; cases "k = airdrop"; simp add: airdrop_total_def redeemed_def)+

lemma claim_create_effect:
  assumes "claim_create R claimer airdrop nonce s = Ok s'"
  shows "redeemed k s' = redeemed k s" "airdrop_total k s' = airdrop_total k s"
proof -
  obtain b where "s' = s\<lparr>ds_claims := (ds_claims s)((airdrop, claimer, nonce) \<mapsto> \<lparr>claim_bump = b, claim_claimed = 0\<rparr>)\<rparr>"
      "ds_claims s (airdrop, claimer, nonce) = None"
    using assms by (auto simp: claim_create_def)
  then show "redeemed k s' = redeemed k s" "airdrop_total k s' = airdrop_total k s"
    by (simp_all add: redeemed_def airdrop_total_def fun_eq_iff)
qed

lemma claims_kept:
  "airdrop_create R authority mint i r m s = Ok s' \<Longrightarrow> ds_claims s' = ds_claims s"
  "airdrop_update authority airdrop freeze root md s = Ok s' \<Longrightarrow> ds_claims s' = ds_claims s"
  "airdrop_withdraw R authority receiver airdrop vault mint n s = Ok s' \<Longrightarrow> ds_claims s' = ds_claims s"
  by (auto simp: airdrop_create_def airdrop_update_def airdrop_withdraw_def Let_def split: prod.splits)

lemma redeemed_frame: "ds_claims s' = ds_claims s \<Longrightarrow> redeemed k s' = redeemed k s"
  by (simp add: redeemed_def fun_eq_iff)

lemma airdrop_update_total:
  assumes "airdrop_update authority airdrop freeze root md s = Ok s'"
  shows "airdrop_total k s' = airdrop_total k s"
proof -
  obtain a a' where "ds_airdrops s airdrop = Some a" "ds_airdrops s' = (ds_airdrops s)(airdrop \<mapsto> a')"
      "ad_total_claimed a' = ad_total_claimed a"
    using assms by (cases freeze; cases root; cases md) (auto simp: airdrop_update_def)
  then show ?thesis by (simp add: airdrop_total_def)
qed

lemma airdrop_totals_kept:
  "airdrop_create R authority mint i root md s = Ok s' \<Longrightarrow> airdrop_total k s' = airdrop_total k s"
  "airdrop_withdraw R authority receiver airdrop vault mint n s = Ok s' \<Longrightarrow> airdrop_total k s' = airdrop_total k s"
  by (auto simp: airdrop_create_def airdrop_withdraw_def airdrop_total_def Let_def split: prod.splits)

interpretation airdrops: ledger_total "distributor_step X R" "airdrop_total k" "redeemed k" for X R k
proof
  fix s s' assume "distributor_step X R s s'"
  then show "\<exists>c. (\<forall>j. j \<noteq> c \<longrightarrow> redeemed k s' j = redeemed k s j)
      \<and> airdrop_total k s' + redeemed k s c = airdrop_total k s + redeemed k s' c"
  proof (cases rule: distributor_step.cases)
    case (ds_redeem clock claimer receiver airdrop vault mint nonce vesting n path)
    then show ?thesis
      by (intro exI [of _ "(claimer, nonce)"] conjI allI impI redeem_effect [OF ds_redeem])
  next
    case (ds_tokens L)
    then show ?thesis by (simp add: airdrop_total_def redeemed_def)
  qed (simp_all add: claims_kept [THEN redeemed_frame] airdrop_update_total airdrop_totals_kept claim_create_effect)
qed

text \<open>
  The total of an airdrop. Along every sequence of instructions from an empty program, with
  whatever accounts and token movements in between, the total an airdrop has paid out is the sum over
  its claims, whose amounts are what their claimers have redeemed.
\<close>

theorem airdrop_totals:
  assumes "(distributor_step X R)\<^sup>*\<^sup>* s0 s" "ds_airdrops s0 = Map.empty" "ds_claims s0 = Map.empty" "ds_airdrops s k = Some a"
  shows "finite {c. redeemed k s c \<noteq> 0} \<and> ad_total_claimed a = (\<Sum>c | redeemed k s c \<noteq> 0. redeemed k s c)"
proof -
  have "airdrops.balanced k s0"
    using assms(2,3) by (simp add: airdrops.balanced_def airdrop_total_def redeemed_def)
  then have "airdrops.balanced k s"
    using airdrops.balanced_steps [OF assms(1)] by blast
  then show ?thesis
    using assms(4) by (simp add: airdrops.balanced_def airdrop_total_def)
qed

definition demo_distribution :: distribution where
  "demo_distribution = \<lparr>ds_airdrops = Map.empty, ds_claims = Map.empty, ds_ledger = Map.empty\<rparr>"

theorem airdrop_totals_witness:
  "\<exists>s a. airdrop_create demo_runtime [1] [2] 0 [3] [] demo_distribution = Ok s
     \<and> ds_airdrops s (str_bytes ''Airdrop'' @ to_le_bytes 8 0) = Some a
     \<and> ad_total_claimed a = (\<Sum>c | redeemed (str_bytes ''Airdrop'' @ to_le_bytes 8 0) s c \<noteq> 0.
          redeemed (str_bytes ''Airdrop'' @ to_le_bytes 8 0) s c)"
proof -
  obtain s a where s: "airdrop_create demo_runtime [1] [2] 0 [3] [] demo_distribution = Ok s"
      "ds_airdrops s (str_bytes ''Airdrop'' @ to_le_bytes 8 0) = Some a"
    by (simp add: airdrop_create_def find_airdrop_def demo_runtime_def demo_distribution_def init_account_def guard_err_def
        init_associated_token_def ok_or_def)
  then have st: "(distributor_step \<lparr>sha256 = (\<lambda>b. b), fnv_hash = (\<lambda>k b. k)\<rparr> demo_runtime)\<^sup>*\<^sup>* demo_distribution s"
    by (blast intro: ds_create)
  have "ds_airdrops demo_distribution = Map.empty" "ds_claims demo_distribution = Map.empty"
    by (simp_all add: demo_distribution_def)
  from airdrop_totals [OF st this s(2)] s show ?thesis
    by blast
qed

section \<open>Merkle proofs\<close>

text \<open>A tree of allocations, its root, and the byte strings that are hashed to compute it.\<close>

datatype mtree = MLeaf Allocation | MNode mtree mtree

primrec tree_root :: "externs \<Rightarrow> mtree \<Rightarrow> MerkleHash" where
  "tree_root X (MLeaf a) = to_merkle_hash X a"
| "tree_root X (MNode l r) = from_pair X (tree_root X l) (tree_root X r)"

primrec allocations :: "mtree \<Rightarrow> Allocation set" where
  "allocations (MLeaf a) = {a}"
| "allocations (MNode l r) = allocations l \<union> allocations r"

definition leaf_preimage :: "Allocation \<Rightarrow> bytes" where
  "leaf_preimage a = 0 # al_claimer a @ to_le_bytes 8 (al_nonce a)
     @ to_le_bytes 8 (i64_as_u64 (start_unix_timestamp (al_vesting a)))
     @ to_le_bytes 4 (duration_seconds (al_vesting a)) @ to_le_bytes 8 (end_collateral_amount (al_vesting a))"

definition pair_preimage :: "MerkleHash \<Rightarrow> MerkleHash \<Rightarrow> bytes" where
  "pair_preimage a b = 1 # (if bytes_le a b then a @ b else b @ a)"

primrec tree_preimages :: "externs \<Rightarrow> mtree \<Rightarrow> bytes set" where
  "tree_preimages X (MLeaf a) = {leaf_preimage a}"
| "tree_preimages X (MNode l r) =
     insert (pair_preimage (tree_root X l) (tree_root X r)) (tree_preimages X l \<union> tree_preimages X r)"

primrec path_preimages :: "externs \<Rightarrow> MerkleHash \<Rightarrow> MerkleHash list \<Rightarrow> bytes set" where
  "path_preimages X h [] = {}"
| "path_preimages X h (n # ns) = insert (pair_preimage h n) (path_preimages X (from_pair X h n) ns)"

definition allocation_wf :: "Allocation \<Rightarrow> bool" where
  "allocation_wf a \<longleftrightarrow> length (al_claimer a) = 32 \<and> al_nonce a < 2 ^ 64
     \<and> - (2 ^ 63) \<le> start_unix_timestamp (al_vesting a) \<and> start_unix_timestamp (al_vesting a) < 2 ^ 63
     \<and> duration_seconds (al_vesting a) < 2 ^ 32 \<and> end_collateral_amount (al_vesting a) < 2 ^ 64"

lemma to_merkle_hash_eq: "to_merkle_hash X a = sha256 X (leaf_preimage a)"
  by (simp add: to_merkle_hash_def from_parts_def sha256v_def leaf_preimage_def)

lemma from_pair_eq: "from_pair X a b = sha256 X (pair_preimage a b)"
  by (simp add: from_pair_def sha256v_def pair_preimage_def)

lemma merkle_fold_snoc: "merkle_fold X h (ns @ [n]) = from_pair X (merkle_fold X h ns) n"
  by (induction ns arbitrary: h) simp_all

lemma path_preimages_snoc:
  "path_preimages X h (ns @ [n]) = insert (pair_preimage (merkle_fold X h ns) n) (path_preimages X h ns)"
  by (induction ns arbitrary: h) auto

lemma pair_preimage_inj:
  assumes "pair_preimage a b = pair_preimage c d" "length a = 32" "length b = 32" "length c = 32" "length d = 32"
  shows "a = c \<or> a = d"
  using assms by (auto simp: pair_preimage_def split: if_splits)

lemma to_le_bytes_inj: "to_le_bytes k m = to_le_bytes k n \<Longrightarrow> m < 256 ^ k \<Longrightarrow> n < 256 ^ k \<Longrightarrow> m = n"
  by (metis from_le_bytes_to_le_bytes)

lemma i64_as_u64_inj:
  assumes "i64_as_u64 x = i64_as_u64 y" "- (2 ^ 63) \<le> x" "x < 2 ^ 63" "- (2 ^ 63) \<le> y" "y < 2 ^ 63"
  shows "x = y"
proof -
  have "x mod 2 ^ 64 = y mod 2 ^ 64"
    using assms(1) by (simp add: i64_as_u64_def eq_nat_nat_iff)
  then have "(2 ^ 64 :: int) dvd x - y"
    by (simp add: mod_eq_dvd_iff)
  moreover have "\<bar>x - y\<bar> < 2 ^ 64"
    using assms(2-5) by simp
  ultimately show ?thesis
    using zdvd_not_zless [of "\<bar>x - y\<bar>" "2 ^ 64"] by (cases "x = y") auto
qed

lemma leaf_preimage_inj:
  assumes "leaf_preimage a = leaf_preimage b" "allocation_wf a" "allocation_wf b"
  shows "a = b"
proof -
  let ?v = "al_vesting a" and ?w = "al_vesting b"
  have h: "al_claimer a = al_claimer b" "to_le_bytes 8 (al_nonce a) = to_le_bytes 8 (al_nonce b)"
      "to_le_bytes 8 (i64_as_u64 (start_unix_timestamp ?v)) = to_le_bytes 8 (i64_as_u64 (start_unix_timestamp ?w))"
      "to_le_bytes 4 (duration_seconds ?v) = to_le_bytes 4 (duration_seconds ?w)"
      "to_le_bytes 8 (end_collateral_amount ?v) = to_le_bytes 8 (end_collateral_amount ?w)"
    using assms by (simp_all add: leaf_preimage_def allocation_wf_def)
  have u: "i64_as_u64 x < 2 ^ 64" for x
    by (simp add: i64_as_u64_def nat_less_iff)
  have "al_nonce a = al_nonce b" "duration_seconds ?v = duration_seconds ?w"
      "end_collateral_amount ?v = end_collateral_amount ?w"
    using to_le_bytes_inj [OF h(2)] to_le_bytes_inj [OF h(4)] to_le_bytes_inj [OF h(5)] assms(2,3)
    by (simp_all add: allocation_wf_def)
  moreover have "start_unix_timestamp ?v = start_unix_timestamp ?w"
    using i64_as_u64_inj [OF to_le_bytes_inj [OF h(3)]] u assms(2,3) by (simp add: allocation_wf_def)
  ultimately show ?thesis
    using h(1) by (cases a; cases b; cases ?v; cases ?w) simp
qed

lemma length_merkle_fold:
  assumes "\<forall>b. length (sha256 X b) = 32" "length h = 32"
  shows "length (merkle_fold X h ns) = 32"
  using assms(2) by (induction ns arbitrary: h) (simp_all add: from_pair_eq assms(1))

lemma length_tree_root: "\<forall>b. length (sha256 X b) = 32 \<Longrightarrow> length (tree_root X t) = 32"
  by (cases t) (simp_all add: from_pair_eq to_merkle_hash_eq)

text \<open>A valid path ends in a leaf of the tree, unless two of the hashed strings collide.\<close>

lemma path_reaches_leaf:
  assumes len: "\<forall>b. length (sha256 X b) = 32" and "\<forall>n\<in>set path. length n = 32"
    and "inj_on (sha256 X) S" "tree_preimages X t \<subseteq> S" "leaf_preimage a \<in> S"
    and "path_preimages X (to_merkle_hash X a) path \<subseteq> S" "merkle_fold X (to_merkle_hash X a) path = tree_root X t"
  shows "\<exists>b\<in>allocations t. leaf_preimage a = leaf_preimage b"
  using assms(2,4,6,7)
proof (induction path arbitrary: t rule: rev_induct)
  case Nil
  show ?case
  proof (cases t)
    case (MLeaf b)
    then show ?thesis
      using Nil assms(3,5) by (auto simp: to_merkle_hash_eq dest: inj_onD)
  next
    case (MNode l r)
    then have "leaf_preimage a = pair_preimage (tree_root X l) (tree_root X r)"
      using Nil assms(3,5) by (auto simp: to_merkle_hash_eq from_pair_eq dest: inj_onD)
    then show ?thesis by (simp add: leaf_preimage_def pair_preimage_def)
  qed
next
  case (snoc n ns)
  let ?h = "merkle_fold X (to_merkle_hash X a) ns"
  have mem: "pair_preimage ?h n \<in> S"
    using snoc.prems(3) by (simp add: path_preimages_snoc)
  have eq: "sha256 X (pair_preimage ?h n) = tree_root X t"
    using snoc.prems(4) by (simp add: merkle_fold_snoc from_pair_eq)
  show ?case
  proof (cases t)
    case (MLeaf b)
    then have "pair_preimage ?h n = leaf_preimage b"
      using eq mem snoc.prems(2) assms(3) by (auto simp: to_merkle_hash_eq dest: inj_onD)
    then show ?thesis by (simp add: leaf_preimage_def pair_preimage_def)
  next
    case (MNode l r)
    then have "pair_preimage ?h n = pair_preimage (tree_root X l) (tree_root X r)"
      using eq mem snoc.prems(2) assms(3) by (auto simp: from_pair_eq dest: inj_onD)
    then have "?h = tree_root X l \<or> ?h = tree_root X r"
      by (rule pair_preimage_inj)
        (use snoc.prems(1) len in \<open>simp_all add: length_merkle_fold length_tree_root to_merkle_hash_eq\<close>)
    then show ?thesis
      using snoc.IH [of l] snoc.IH [of r] snoc.prems MNode by (auto simp: path_preimages_snoc)
  qed
qed

lemma vested_le_end:
  assumes "compute_vested_collateral_amount v now = Ok x"
  shows "x \<le> end_collateral_amount v"
  using assms by (auto simp: compute_vested_collateral_amount_def Let_def split: if_splits)

text \<open>
  (C22) What a redemption pays out. Let the root of the airdrop be the root of a tree of well-formed
  allocations, and let SHA-256 have no collision among the strings hashed for the tree and for the
  submitted path. Then a redemption that succeeds is for an allocation of the tree with exactly this
  claimer, nonce and vesting; the claim's total afterwards is at most what has vested by now, hence at
  most the end amount of the allocation; and exactly the amount leaves the airdrop's vault for the
  receiver and is added to the totals.
\<close>

theorem redeem_pays_allocations:
  fixes X R clock claimer nonce vesting
  defines "al \<equiv> \<lparr>al_claimer = claimer, al_nonce = nonce, al_vesting = vesting\<rparr>"
  assumes "token_laws R" "claim_redeem X R clock claimer receiver airdrop vault mint nonce vesting n path s = Ok s'"
    and "ds_airdrops s airdrop = Some a" "ad_merkle_root a = tree_root X t"
    and "allocation_wf al" "\<forall>b\<in>allocations t. allocation_wf b"
    and "\<forall>b. length (sha256 X b) = 32" "\<forall>h\<in>set path. length h = 32"
    and "inj_on (sha256 X) (tree_preimages X t \<union> insert (leaf_preimage al) (path_preimages X (to_merkle_hash X al) path))"
  shows "al \<in> allocations t
     \<and> (\<exists>vested. compute_vested_collateral_amount vesting (clk_unix_timestamp clock) = Ok vested
          \<and> vested \<le> end_collateral_amount vesting
          \<and> (0 < n \<longrightarrow> redeemed airdrop s' (claimer, nonce) \<le> vested))
     \<and> redeemed airdrop s' (claimer, nonce) = redeemed airdrop s (claimer, nonce) + n
     \<and> airdrop_total airdrop s' = airdrop_total airdrop s + n
     \<and> (receiver \<noteq> vault \<longrightarrow> balance (ds_ledger s') receiver = balance (ds_ledger s) receiver + n
          \<and> balance (ds_ledger s') vault + n = balance (ds_ledger s) vault)"
proof -
  obtain a' cl vested L where r: "ds_airdrops s airdrop = Some a'" "ds_claims s (airdrop, claimer, nonce) = Some cl"
    "is_valid_proof X (ad_merkle_root a') (to_merkle_hash X al) path"
    "compute_vested_collateral_amount vesting (clk_unix_timestamp clock) = Ok vested" "n \<le> vested - claim_claimed cl"
    "token_transfer R (ds_ledger s) vault receiver airdrop n = Some L"
    "s' = s\<lparr>ds_airdrops := (ds_airdrops s)(airdrop \<mapsto> a'\<lparr>ad_total_claimed := ad_total_claimed a' + n\<rparr>),
       ds_claims := (ds_claims s)((airdrop, claimer, nonce) \<mapsto> cl\<lparr>claim_claimed := claim_claimed cl + n\<rparr>), ds_ledger := L\<rparr>"
    using assms(3) unfolding al_def by (rule claim_redeem_Ok)
  obtain b where b: "b \<in> allocations t" "leaf_preimage al = leaf_preimage b"
    using path_reaches_leaf [OF assms(8,9,10), of t al] r(1,3) assms(4,5) by (auto simp: is_valid_proof_def)
  then have "al \<in> allocations t"
    using leaf_preimage_inj [of al b] assms(6,7) by simp
  moreover have "redeemed airdrop s' (claimer, nonce) = redeemed airdrop s (claimer, nonce) + n"
      "airdrop_total airdrop s' = airdrop_total airdrop s + n"
    using r(1,2,7) by (simp_all add: redeemed_def airdrop_total_def)
  moreover have "0 < n \<longrightarrow> redeemed airdrop s' (claimer, nonce) \<le> vested"
    using r(2,5,7) by (auto simp: redeemed_def)
  moreover have "receiver \<noteq> vault \<longrightarrow> balance L receiver = balance (ds_ledger s) receiver + n
      \<and> balance L vault + n = balance (ds_ledger s) vault"
    using transfer_moves(1,2,4) [OF assms(2) r(6)] by auto
  ultimately show ?thesis
    using vested_le_end [OF r(4)] r(4,7) by auto
qed

definition demo_hash :: externs where
  "demo_hash = \<lparr>sha256 = (\<lambda>b. replicate 32 (if hd b = 0 then b ! 1 else 99)), fnv_hash = (\<lambda>k b. k)\<rparr>"

definition demo_vesting :: Vesting where
  "demo_vesting = \<lparr>start_unix_timestamp = 100, duration_seconds = 0, end_collateral_amount = 50\<rparr>"

definition demo_allocation :: "8 word \<Rightarrow> Allocation" where
  "demo_allocation b = \<lparr>al_claimer = replicate 32 b, al_nonce = 0, al_vesting = demo_vesting\<rparr>"

definition demo_airdrop :: Airdrop where
  "demo_airdrop = \<lparr>ad_bump = 255, ad_id = 0, ad_authority = [1], ad_collateral_mint = [3], ad_total_claimed = 0,
     ad_claim_freeze = False, ad_merkle_root = replicate 32 99, ad_metadata = []\<rparr>"

definition demo_open :: distribution where
  "demo_open = \<lparr>ds_airdrops = [[9] \<mapsto> demo_airdrop],
     ds_claims = [([9], replicate 32 1, 0) \<mapsto> \<lparr>claim_bump = 255, claim_claimed = 0\<rparr>],
     ds_ledger = [[7, 3, 9] \<mapsto> \<lparr>ta_mint = [3], ta_owner = [9], ta_delegate = None, ta_amount = 80\<rparr>,
                  [10] \<mapsto> \<lparr>ta_mint = [3], ta_owner = [1], ta_delegate = None, ta_amount = 0\<rparr>]\<rparr>"

lemma demo_leaf: "to_merkle_hash demo_hash (demo_allocation b) = replicate 32 b"
  by (simp add: to_merkle_hash_eq demo_hash_def leaf_preimage_def demo_allocation_def nth_append)

lemma demo_pair: "from_pair demo_hash a b = replicate 32 99"
  by (simp add: from_pair_eq demo_hash_def pair_preimage_def)

theorem redeem_pays_allocations_witness:
  "\<exists>s'. claim_redeem demo_hash demo_runtime \<lparr>clk_unix_timestamp = 200, clk_slot = 0\<rparr> (replicate 32 1) [10] [9] [7, 3, 9] [3] 0
        demo_vesting 40 [replicate 32 2] demo_open = Ok s'
     \<and> redeemed [9] s' (replicate 32 1, 0) = 40 \<and> balance (ds_ledger s') [10] = 40"
proof -
  let ?t = "MNode (MLeaf (demo_allocation 1)) (MLeaf (demo_allocation 2))" and ?n = "[replicate 32 (2 :: 8 word)]"
  have al: "\<lparr>al_claimer = replicate 32 1, al_nonce = 0, al_vesting = demo_vesting\<rparr> = demo_allocation 1"
    by (simp add: demo_allocation_def)
  obtain s' where s': "claim_redeem demo_hash demo_runtime \<lparr>clk_unix_timestamp = 200, clk_slot = 0\<rparr> (replicate 32 1) [10] [9]
        [7, 3, 9] [3] 0 demo_vesting 40 ?n demo_open = Ok s'"
    by (simp add: claim_redeem_def al demo_leaf demo_pair is_valid_proof_def demo_open_def demo_airdrop_def demo_runtime_def
        vault_account_def demo_transfer_def compute_vested_collateral_amount_def demo_vesting_def rust_ctrl rust_arith
        del: rbind_eq_Ok)
  have wf: "allocation_wf (demo_allocation b)" for b
    by (simp add: allocation_wf_def demo_allocation_def demo_vesting_def)
  have root: "ad_merkle_root demo_airdrop = tree_root demo_hash ?t"
    by (simp add: demo_airdrop_def demo_pair)
  have look: "ds_airdrops demo_open [9] = Some demo_airdrop" "redeemed [9] demo_open (replicate 32 1, 0) = 0"
      "balance (ds_ledger demo_open) [10] = 0"
    by (simp_all add: demo_open_def redeemed_def balance_def)
  have len: "\<forall>b. length (sha256 demo_hash b) = 32"
    by (simp add: demo_hash_def)
  have "hd (leaf_preimage a) = 0" "hd (pair_preimage x y) = 1" for a x y
    by (simp_all add: leaf_preimage_def pair_preimage_def)
  moreover have "leaf_preimage (demo_allocation b) ! 1 = b" for b
    by (simp add: leaf_preimage_def demo_allocation_def nth_append)
  ultimately have inj: "inj_on (sha256 demo_hash) (tree_preimages demo_hash ?t \<union> insert (leaf_preimage (demo_allocation 1))
      (path_preimages demo_hash (to_merkle_hash demo_hash (demo_allocation 1)) ?n))"
    by (simp add: inj_on_def demo_leaf) (simp add: demo_hash_def)
  have "redeemed [9] s' (replicate 32 1, 0) = redeemed [9] demo_open (replicate 32 1, 0) + 40"
      "balance (ds_ledger s') [10] = balance (ds_ledger demo_open) [10] + 40"
    using redeem_pays_allocations [OF demo_token_laws s' look(1) root, unfolded al, OF wf _ len _ inj] wf by auto
  then show ?thesis
    using s' look by auto
qed

end
