(* ===== verification/Merkle_Layers.thy ===== *)
theory Merkle_Layers
  imports Rust_Prelude
begin

text \<open>
  Layered hash trees, shared by the Merkle tree of shared/core and the airdrop tree of solana-tooling: a
  layer is combined pairwise into the next one, an odd last element with itself. The locale \<open>layered\<close>
  fixes the combination.
\<close>

fun pair_up :: "('a \<Rightarrow> 'a \<Rightarrow> 'a) \<Rightarrow> 'a list \<Rightarrow> 'a list" where
  "pair_up h [] = []"
| "pair_up h [x] = [h x x]"
| "pair_up h (x # y # zs) = h x y # pair_up h zs"

lemma length_pair_up [simp]: "length (pair_up h xs) = (length xs + 1) div 2"
  by (induction h xs rule: pair_up.induct) auto

lemma pair_up_Nil [simp]: "pair_up h xs = [] \<longleftrightarrow> xs = []"
  by (cases "(h, xs)" rule: pair_up.cases) auto

lemma pair_up_shrinks: "1 < length xs \<Longrightarrow> length (pair_up h xs) < length xs"
  by simp

lemma nth_pair_up:
  "i < length (pair_up h xs) \<Longrightarrow>
   pair_up h xs ! i = h (xs ! (2 * i)) (xs ! (2 * i + (if 2 * i + 1 < length xs then 1 else 0)))"
proof (induction h xs arbitrary: i rule: pair_up.induct)
  case (3 h x y zs)
  then show ?case by (cases i) auto
qed auto

text \<open>The element an index is combined with, and on which side it stands.\<close>

definition partner :: "nat \<Rightarrow> nat \<Rightarrow> nat" where
  "partner n i = (if odd i then i - 1 else if i + 1 < n then i + 1 else i)"

lemma partner_less: "i < n \<Longrightarrow> partner n i < n"
  by (auto simp: partner_def)

lemma pair_up_partner:
  assumes "i < length xs"
  shows "i div 2 < length (pair_up h xs)"
    "pair_up h xs ! (i div 2) = (if odd i then h (xs ! partner (length xs) i) (xs ! i) else h (xs ! i) (xs ! partner (length xs) i))"
proof -
  show less: "i div 2 < length (pair_up h xs)"
    using assms by simp
  show "pair_up h xs ! (i div 2) = (if odd i then h (xs ! partner (length xs) i) (xs ! i) else h (xs ! i) (xs ! partner (length xs) i))"
  proof (cases "odd i")
    case True
    then have "2 * (i div 2) = i - 1" "i - 1 + 1 = i"
      by (auto elim: oddE)
    then show ?thesis
      using True assms nth_pair_up [OF less] by (simp add: partner_def)
  next
    case False
    then have "2 * (i div 2) = i"
      by simp
    then show ?thesis
      using False nth_pair_up [OF less] by (simp add: partner_def)
  qed
qed

function layers :: "('a \<Rightarrow> 'a \<Rightarrow> 'a) \<Rightarrow> 'a list \<Rightarrow> 'a list list" where
  "layers h xs = (if length xs \<le> 1 then [xs] else xs # layers h (pair_up h xs))"
  by pat_completeness auto
termination
  by (relation "measure (\<lambda>(h, xs). length xs)") auto

declare layers.simps [simp del]

text \<open>The partners on the way from an element to the root.\<close>

function partners :: "('a \<Rightarrow> 'a \<Rightarrow> 'a) \<Rightarrow> 'a list \<Rightarrow> nat \<Rightarrow> 'a list" where
  "partners h xs i = (if length xs \<le> 1 then [] else xs ! partner (length xs) i # partners h (pair_up h xs) (i div 2))"
  by pat_completeness auto
termination
  by (relation "measure (\<lambda>(h, xs, i). length xs)") auto

declare partners.simps [simp del]

lemma layers_not_Nil [simp]: "layers h xs \<noteq> []"
  by (subst layers.simps) simp

lemma layers_hd: "layers h xs = xs # tl (layers h xs)"
  by (subst layers.simps, subst (2) layers.simps) simp

lemma concat_layers_Nil: "concat (layers h xs) = [] \<longleftrightarrow> xs = []"
  by (cases "xs = []") (simp add: layers.simps, subst layers_hd, simp)

locale layered =
  fixes h :: "'a \<Rightarrow> 'a \<Rightarrow> 'a"
begin

lemma layers_induct [consumes 1, case_names single more]:
  assumes "xs \<noteq> []"
    and "\<And>x. P [x]"
    and "\<And>xs. 1 < length xs \<Longrightarrow> P (pair_up h xs) \<Longrightarrow> P xs"
  shows "P xs"
  using assms(1)
proof (induction "length xs" arbitrary: xs rule: less_induct)
  case less
  show ?case
  proof (cases "length xs = 1")
    case True
    then show ?thesis using assms(2) by (auto simp: length_Suc_conv)
  next
    case False
    then have "1 < length xs" using less.prems by (cases xs) auto
    then show ?thesis
      using less.hyps [of "pair_up h xs"] less.prems assms(3) by simp
  qed
qed

lemma layers_single: "layers h [x] = [[x]]"
  by (simp add: layers.simps)

lemma layers_more: "1 < length xs \<Longrightarrow> layers h xs = xs # layers h (pair_up h xs)"
  by (subst layers.simps) simp

lemma layers_root: "xs \<noteq> [] \<Longrightarrow> \<exists>r. last (layers h xs) = [r]"
  by (induction xs rule: layers_induct) (auto simp: layers_single layers_more)

definition root :: "'a list \<Rightarrow> 'a" where
  "root xs = hd (last (layers h xs))"

lemma root_single: "root [x] = x"
  by (simp add: root_def layers_single)

lemma root_more: "1 < length xs \<Longrightarrow> root xs = root (pair_up h xs)"
  by (simp add: root_def layers_more)

lemma last_concat_layers: "xs \<noteq> [] \<Longrightarrow> last (concat (layers h xs)) = root xs"
proof (induction xs rule: layers_induct)
  case (more xs)
  have "concat (layers h (pair_up h xs)) \<noteq> []"
    using more.hyps by (subst layers_hd) auto
  then show ?case
    using more by (simp add: layers_more root_more)
qed (simp add: layers_single root_single)

end

text \<open>When the sides do not matter, combining an element with its partners gives the root.\<close>

locale symmetric_layers = layered +
  assumes commute: "h x y = h y x"
begin

lemma fold_partners: "xs \<noteq> [] \<Longrightarrow> i < length xs \<Longrightarrow> foldl h (xs ! i) (partners h xs i) = root xs"
proof (induction xs arbitrary: i rule: layers_induct)
  case (single x)
  then show ?case by (simp add: partners.simps root_single)
next
  case (more xs)
  have "h (xs ! i) (xs ! partner (length xs) i) = pair_up h xs ! (i div 2)"
    using pair_up_partner(2) [OF more.prems, of h] commute by auto
  then show ?case
    using more.hyps more.IH [OF pair_up_partner(1) [OF more.prems]] by (subst partners.simps) (simp add: root_more)
qed

end

text \<open>A map that commutes with the combination commutes with the layers.\<close>

locale layer_morphism = source: layered h + target: layered g for h :: "'a \<Rightarrow> 'a \<Rightarrow> 'a" and g :: "'b \<Rightarrow> 'b \<Rightarrow> 'b" +
  fixes f :: "'a \<Rightarrow> 'b"
  assumes morphism: "f (h x y) = g (f x) (f y)"
begin

lemma map_pair_up: "map f (pair_up h xs) = pair_up g (map f xs)"
proof -
  have "k = h \<Longrightarrow> map f (pair_up k xs) = pair_up g (map f xs)" for k
    by (induction k xs rule: pair_up.induct) (simp_all add: morphism)
  then show ?thesis by simp
qed

lemma root_map: "xs \<noteq> [] \<Longrightarrow> f (source.root xs) = target.root (map f xs)"
proof (induction xs rule: source.layers_induct)
  case (more xs)
  then show ?case by (simp add: source.root_more target.root_more map_pair_up)
qed (simp add: source.root_single target.root_single)

end

end
