(* ===== verification/Airdrop_Tree.thy ===== *)
theory Airdrop_Tree
  imports Distributor Merkle_Layers
begin

text \<open>
  The tree from which solana-tooling takes the root of an airdrop and the proofs its claimers present to
  the distributor program.
\<close>

record AirdropMerkleTree =
  at_allocations :: "Allocation list"
  at_merkle_layers :: "MerkleHash list list"

datatype AirdropTreeError = AllocationsEmpty | MerkleTreeEmpty

text \<open>\<open>slice.chunks(2)\<close>, and the parents of a layer.\<close>

fun chunks2 :: "'a list \<Rightarrow> 'a list list" where
  "chunks2 [] = []"
| "chunks2 [x] = [[x]]"
| "chunks2 (x # y # zs) = [x, y] # chunks2 zs"

definition merkle_parents :: "externs \<Rightarrow> MerkleHash list \<Rightarrow> MerkleHash list" where
  "merkle_parents X layer = map (\<lambda>pair. from_pair X (pair ! 0) (if length pair = 2 then pair ! 1 else pair ! 0)) (chunks2 layer)"

partial_function (option) airdrop_layers :: "externs \<Rightarrow> MerkleHash list \<Rightarrow> MerkleHash list list \<Rightarrow> MerkleHash list list option" where
  "airdrop_layers X layer ls =
     (if 1 < length layer then let parents = merkle_parents X layer in airdrop_layers X parents (ls @ [parents])
      else Some ls)"

definition AirdropMerkleTree_try_from :: "externs \<Rightarrow> Allocation list \<Rightarrow> (AirdropTreeError, AirdropMerkleTree) res option" where
  "AirdropMerkleTree_try_from X allocs =
     (if allocs = [] then Some (Err AllocationsEmpty)
      else let layer = map (to_merkle_hash X) allocs in
        map_option (\<lambda>ls. Ok \<lparr>at_allocations = allocs, at_merkle_layers = ls\<rparr>) (airdrop_layers X layer [layer]))"

definition airdrop_root :: "AirdropMerkleTree \<Rightarrow> (AirdropTreeError, MerkleHash) res" where
  "airdrop_root t = ok_or MerkleTreeEmpty
     (if at_merkle_layers t = [] \<or> last (at_merkle_layers t) = [] then None else Some (hd (last (at_merkle_layers t))))"

definition allocations_indexes_for_claimer :: "AirdropMerkleTree \<Rightarrow> pubkey \<Rightarrow> nat list" where
  "allocations_indexes_for_claimer t claimer =
     filter (\<lambda>i. al_claimer (at_allocations t ! i) = claimer) [0..<length (at_allocations t)]"

primrec proof_loop :: "MerkleHash list list \<Rightarrow> nat \<Rightarrow> MerkleHash list \<Rightarrow> (AirdropTreeError, MerkleHash list) res" where
  "proof_loop [] index path = Ok path"
| "proof_loop (layer # ls) index path =
     (if length layer = 1 then Ok path
      else let sibling_index = (if index mod 2 = 0 then index + 1 else index - 1) in
        rbind (if length layer \<le> sibling_index then slice_index layer index else slice_index layer sibling_index) (\<lambda>h.
          proof_loop ls (index div 2) (path @ [h])))"

definition proof_at_allocation_index :: "AirdropMerkleTree \<Rightarrow> nat \<Rightarrow> (AirdropTreeError, MerkleHash list) res" where
  "proof_at_allocation_index t index = proof_loop (at_merkle_layers t) index []"

section \<open>The layers\<close>

lemma bytes_le_antisym: "bytes_le a b \<Longrightarrow> bytes_le b a \<Longrightarrow> a = b"
proof (induction a b rule: bytes_le.induct)
  case (1 ys)
  then show ?case by (cases ys) auto
qed auto

lemma bytes_le_total: "bytes_le a b \<or> bytes_le b a"
  by (induction a b rule: bytes_le.induct) auto

interpretation airdrop: symmetric_layers "from_pair X" for X
proof
  show "from_pair X a b = from_pair X b a" for a b
    using bytes_le_antisym [of a b] bytes_le_total [of a b] by (auto simp: from_pair_def)
qed

interpretation airdrop_nodes: layer_morphism MNode "from_pair X" "tree_root X" for X
  by unfold_locales simp

interpretation airdrop_leaves: layer_morphism MNode "(\<union>)" allocations
  by unfold_locales simp

lemma merkle_parents_eq: "merkle_parents X layer = pair_up (from_pair X) layer"
  by (induction layer rule: chunks2.induct) (simp_all add: merkle_parents_def)

lemma airdrop_layers_eq:
  "layer \<noteq> [] \<Longrightarrow> airdrop_layers X layer (ls @ [layer]) = Some (ls @ layers (from_pair X) layer)"
proof (induction layer arbitrary: ls rule: airdrop.layers_induct [of _ _ X])
  case (single x)
  then show ?case by (subst airdrop_layers.simps) (simp add: airdrop.layers_single)
next
  case (more xs)
  show ?case
    using more.hyps more.IH [of "ls @ [xs]"]
    by (subst airdrop_layers.simps) (simp add: airdrop.layers_more merkle_parents_eq Let_def)
qed

lemma proof_loop_partners:
  "xs \<noteq> [] \<Longrightarrow> i < length xs \<Longrightarrow> proof_loop (layers (from_pair X) xs) i path = Ok (path @ partners (from_pair X) xs i)"
proof (induction xs arbitrary: i path rule: airdrop.layers_induct [of _ _ X])
  case (single x)
  then show ?case by (simp add: airdrop.layers_single partners.simps)
next
  case (more xs)
  let ?s = "if i mod 2 = 0 then i + 1 else i - 1"
  have "(if length xs \<le> ?s then slice_index xs i else slice_index xs ?s) = (Ok (xs ! partner (length xs) i) :: (AirdropTreeError, MerkleHash) res)"
    using more.prems by (auto simp: slice_index_def partner_def even_iff_mod_2_eq_zero)
  then show ?case
    using more.hyps more.IH [OF pair_up_partner(1) [OF more.prems]]
    by (subst partners.simps) (simp add: airdrop.layers_more Let_def)
qed

lemma union_root:
  fixes xs :: "Allocation set list"
  shows "xs \<noteq> [] \<Longrightarrow> layered.root (\<union>) xs = \<Union> (set xs)"
proof (induction xs rule: airdrop_leaves.target.layers_induct)
  case (more xs)
  have "\<Union> (set (pair_up (\<union>) ys)) = \<Union> (set ys)" for ys :: "Allocation set list"
    by (induction "(\<union>) :: Allocation set \<Rightarrow> Allocation set \<Rightarrow> Allocation set" ys rule: pair_up.induct) auto
  with more show ?case by (simp add: airdrop_leaves.target.root_more)
qed (simp add: airdrop_leaves.target.root_single)

lemma merkle_fold_foldl: "merkle_fold X h ns = foldl (from_pair X) h ns"
  by (induction ns arbitrary: h) simp_all

text \<open>
  (C26) The proofs of the tool are the ones the program accepts. For every non-empty list of allocations the
  tree is built, its root is the root of a tree of exactly these allocations, as the guarantee about
  redemptions requires, and the proof at every index is valid on chain for the allocation there.
\<close>

theorem airdrop_tree_serves:
  assumes "allocs \<noteq> []"
  shows "\<exists>t m. AirdropMerkleTree_try_from X allocs = Some (Ok t) \<and> airdrop_root t = Ok (tree_root X m) \<and> allocations m = set allocs
     \<and> (\<forall>i<length allocs. \<exists>path. proof_at_allocation_index t i = Ok path
          \<and> is_valid_proof X (tree_root X m) (to_merkle_hash X (allocs ! i)) path)"
proof -
  let ?xs = "map (to_merkle_hash X) allocs" and ?m = "layered.root MNode (map MLeaf allocs)"
  let ?t = "\<lparr>at_allocations = allocs, at_merkle_layers = layers (from_pair X) ?xs\<rparr>"
  have xs: "map (tree_root X) (map MLeaf allocs) = ?xs" "map allocations (map MLeaf allocs) = map (\<lambda>a. {a}) allocs"
    by simp_all
  have r: "tree_root X ?m = airdrop.root X ?xs"
    using airdrop_nodes.root_map [of "map MLeaf allocs" X] assms unfolding xs(1) by simp
  have "AirdropMerkleTree_try_from X allocs = Some (Ok ?t)"
    using assms airdrop_layers_eq [of ?xs X "[]"] by (simp add: AirdropMerkleTree_try_from_def Let_def)
  moreover have "airdrop_root ?t = Ok (tree_root X ?m)"
    using airdrop.layers_root [of ?xs X] assms r by (auto simp: airdrop_root_def airdrop.root_def)
  moreover have "allocations ?m = set allocs"
    using airdrop_leaves.root_map [of "map MLeaf allocs"] union_root [of "map (\<lambda>a. {a}) allocs"] assms unfolding xs(2) by simp
  moreover have "\<exists>path. proof_at_allocation_index ?t i = Ok path \<and> is_valid_proof X (tree_root X ?m) (to_merkle_hash X (allocs ! i)) path"
    if "i < length allocs" for i
    using proof_loop_partners [of ?xs i X "[]"] airdrop.fold_partners [of ?xs i X] assms that
    by (simp add: proof_at_allocation_index_def is_valid_proof_def merkle_fold_foldl r)
  ultimately show ?thesis
    by blast
qed

theorem airdrop_tree_serves_witness:
  "\<exists>t m path. let a = \<lparr>al_claimer = [1], al_nonce = 0, al_vesting = \<lparr>start_unix_timestamp = 0, duration_seconds = 0, end_collateral_amount = 5\<rparr>\<rparr>;
                  X = \<lparr>sha256 = (\<lambda>d. d), fnv_hash = (\<lambda>k d. k)\<rparr> in
     AirdropMerkleTree_try_from X [a, a\<lparr>al_nonce := 1\<rparr>, a\<lparr>al_nonce := 2\<rparr>] = Some (Ok t)
     \<and> proof_at_allocation_index t 2 = Ok path \<and> is_valid_proof X (tree_root X m) (to_merkle_hash X (a\<lparr>al_nonce := 2\<rparr>)) path
     \<and> a \<in> allocations m"
proof -
  define a where "a = \<lparr>al_claimer = [1], al_nonce = 0,
     al_vesting = \<lparr>start_unix_timestamp = 0, duration_seconds = 0, end_collateral_amount = 5\<rparr>\<rparr>"
  define X where "X = \<lparr>sha256 = (\<lambda>d. d), fnv_hash = (\<lambda>k d. k)\<rparr>"
  let ?as = "[a, a\<lparr>al_nonce := 1\<rparr>, a\<lparr>al_nonce := 2\<rparr>]"
  obtain t m where h: "AirdropMerkleTree_try_from X ?as = Some (Ok t)" "allocations m = set ?as"
      "\<forall>i<length ?as. \<exists>path. proof_at_allocation_index t i = Ok path
          \<and> is_valid_proof X (tree_root X m) (to_merkle_hash X (?as ! i)) path"
    using airdrop_tree_serves [of ?as X] by blast
  obtain path where "proof_at_allocation_index t 2 = Ok path" "is_valid_proof X (tree_root X m) (to_merkle_hash X (a\<lparr>al_nonce := 2\<rparr>)) path"
    using h(3) [rule_format, of 2] by auto
  then show ?thesis
    using h(1,2) unfolding a_def [symmetric] X_def [symmetric] Let_def by auto
qed

end
