(* ===== verification/Merkle_Tree.thy ===== *)
theory Merkle_Tree
  imports Merkle_Layers
begin

text \<open>
  The Merkle tree of shared/core/src/merkle_tree.rs: the tree as one vector of nodes with its layers
  behind each other, the loops that build it and walk it, and the two kinds of proofs. The loops are
  \<open>partial_function\<close>s, so that a loop that does not end has no value. Vector lengths stay below the
  address space, so index arithmetic does not overflow.
\<close>

definition LEAF_PREFIX :: bytes where
  "LEAF_PREFIX = [0]"

definition INTERMEDIATE_PREFIX :: bytes where
  "INTERMEDIATE_PREFIX = [1]"

definition hash_leaf :: "externs \<Rightarrow> bytes \<Rightarrow> bytes" where
  "hash_leaf X d = sha256v X [LEAF_PREFIX, d]"

definition hash_intermediate :: "externs \<Rightarrow> bytes \<Rightarrow> bytes \<Rightarrow> bytes" where
  "hash_intermediate X l r = sha256v X [INTERMEDIATE_PREFIX, l, r]"

record MerkleTree =
  mt_leaf_count :: nat
  mt_nodes :: "bytes list"

record ProofEntry =
  pe_target :: bytes
  pe_left_sibling :: "bytes option"
  pe_right_sibling :: "bytes option"

definition ProofEntry_new :: "bytes \<Rightarrow> bytes option \<Rightarrow> bytes option \<Rightarrow> ('e, ProofEntry) res" where
  "ProofEntry_new target l r = rbind (assert_ok ((l = None) \<noteq> (r = None))) (\<lambda>_.
     Ok \<lparr>pe_target = target, pe_left_sibling = l, pe_right_sibling = r\<rparr>)"

definition next_level_len :: "nat \<Rightarrow> nat" where
  "next_level_len level_len = (if level_len = 1 then 0 else div_ceil level_len 2)"

text \<open>One layer: the hashes of the layer before are read from the nodes and the new ones pushed behind them.\<close>

primrec hash_level :: "externs \<Rightarrow> nat \<Rightarrow> nat \<Rightarrow> nat list \<Rightarrow> bytes list \<Rightarrow> (unit, bytes list) res" where
  "hash_level X prev_start prev_len [] nodes = Ok nodes"
| "hash_level X prev_start prev_len (i # is) nodes =
     rbind (slice_index nodes (prev_start + 2 * i)) (\<lambda>lsib.
     rbind (if 2 * i + 1 < prev_len then slice_index nodes (prev_start + 2 * i + 1)
            else slice_index nodes (prev_start + 2 * i)) (\<lambda>rsib.
       hash_level X prev_start prev_len is (nodes @ [hash_intermediate X lsib rsib])))"

lemma case_res_mono [partial_function_mono]:
  assumes "\<And>x. mono_option (\<lambda>f. F f x)" "\<And>e. mono_option (\<lambda>f. G f e)" "mono_option H"
  shows "mono_option (\<lambda>f. case r of Ok x \<Rightarrow> F f x | Err e \<Rightarrow> G f e | Panic \<Rightarrow> H f)"
  using assms by (cases r) simp_all

partial_function (option) merkle_levels ::
  "externs \<Rightarrow> nat \<Rightarrow> nat \<Rightarrow> nat \<Rightarrow> nat \<Rightarrow> bytes list \<Rightarrow> (unit, bytes list) res option" where
  "merkle_levels X level_len level_start prev_len prev_start nodes =
     (if 0 < level_len then
        case hash_level X prev_start prev_len [0..<level_len] nodes of
          Ok nodes' \<Rightarrow> merkle_levels X (next_level_len level_len) (level_start + level_len) level_len level_start nodes'
        | Err e \<Rightarrow> Some (Err e)
        | Panic \<Rightarrow> Some Panic
      else Some (Ok nodes))"

definition MerkleTree_new :: "externs \<Rightarrow> bytes list \<Rightarrow> (unit, MerkleTree) res option" where
  "MerkleTree_new X items =
     (let leaves = map (hash_leaf X) items in
      map_option (\<lambda>r. rbind r (\<lambda>nodes. Ok \<lparr>mt_leaf_count = length items, mt_nodes = nodes\<rparr>))
        (merkle_levels X (next_level_len (length items)) (length items) (length items) 0 leaves))"

definition mt_get_root :: "MerkleTree \<Rightarrow> bytes option" where
  "mt_get_root t = (if mt_nodes t = [] then None else Some (last (mt_nodes t)))"

text \<open>One turn of the loop of \<open>find_path\<close>: the entry of this layer, and the siblings for the next.\<close>

definition path_turn ::
  "bytes list \<Rightarrow> nat \<Rightarrow> nat \<Rightarrow> nat \<Rightarrow> bytes option \<Rightarrow> bytes option \<Rightarrow> ProofEntry list
   \<Rightarrow> (unit, bytes option \<times> bytes option \<times> ProofEntry list) res" where
  "path_turn nodes level_len level_start node_index lsib rsib path =
     rbind (assert_ok (level_start + level_len \<le> length nodes)) (\<lambda>_.
       let level = take level_len (drop level_start nodes) in
       rbind (slice_index level node_index) (\<lambda>target.
       rbind (if lsib \<noteq> None \<or> rsib \<noteq> None then rbind (ProofEntry_new target lsib rsib) (\<lambda>e. Ok (path @ [e])) else Ok path) (\<lambda>path'.
         if node_index mod 2 = 0 then
           rbind (if node_index + 1 < length level then slice_index level (node_index + 1)
                  else slice_index level node_index) (\<lambda>r. Ok (None, Some r, path'))
         else rbind (slice_index level (node_index - 1)) (\<lambda>l. Ok (Some l, None, path')))))"

partial_function (option) path_loop ::
  "bytes list \<Rightarrow> nat \<Rightarrow> nat \<Rightarrow> nat \<Rightarrow> bytes option \<Rightarrow> bytes option \<Rightarrow> ProofEntry list
   \<Rightarrow> (unit, ProofEntry list) res option" where
  "path_loop nodes level_len level_start node_index lsib rsib path =
     (if 0 < level_len then
        case path_turn nodes level_len level_start node_index lsib rsib path of
          Ok (lsib', rsib', path') \<Rightarrow>
            path_loop nodes (next_level_len level_len) (level_start + level_len) (node_index div 2) lsib' rsib' path'
        | Err e \<Rightarrow> Some (Err e)
        | Panic \<Rightarrow> Some Panic
      else Some (Ok path))"

definition find_path :: "MerkleTree \<Rightarrow> nat \<Rightarrow> (unit, ProofEntry list option) res option" where
  "find_path t index =
     (if mt_leaf_count t \<le> index then Some (Ok None)
      else map_option (\<lambda>r. rbind r (\<lambda>path. Ok (Some path)))
             (path_loop (mt_nodes t) (mt_leaf_count t) 0 index None None []))"

section \<open>Proofs\<close>

primrec proof_verify :: "externs \<Rightarrow> ProofEntry list \<Rightarrow> bytes \<Rightarrow> bool" where
  "proof_verify X [] candidate = True"
| "proof_verify X (pe # es) candidate =
     (let lsib = (case pe_left_sibling pe of Some l \<Rightarrow> l | None \<Rightarrow> candidate);
          rsib = (case pe_right_sibling pe of Some r \<Rightarrow> r | None \<Rightarrow> candidate);
          hash = hash_intermediate X lsib rsib in
      hash = pe_target pe \<and> proof_verify X es hash)"

definition proof_verify_item :: "externs \<Rightarrow> ProofEntry list \<Rightarrow> bytes \<Rightarrow> bool" where
  "proof_verify_item X p item = proof_verify X p (hash_leaf X item)"

definition proof_get_root :: "ProofEntry list \<Rightarrow> bytes option" where
  "proof_get_root p = (if p = [] then None else Some (pe_target (last p)))"

text \<open>
  The owned form has the same entries; its verification reads the sibling on the right as the left
  operand and the one on the left as the right operand.
\<close>

primrec owned_verify :: "externs \<Rightarrow> ProofEntry list \<Rightarrow> bytes \<Rightarrow> bool" where
  "owned_verify X [] candidate = True"
| "owned_verify X (pe # es) candidate =
     (let lsib = (case pe_right_sibling pe of Some r \<Rightarrow> r | None \<Rightarrow> candidate);
          rsib = (case pe_left_sibling pe of Some l \<Rightarrow> l | None \<Rightarrow> candidate);
          hash = hash_intermediate X lsib rsib in
      hash = pe_target pe \<and> owned_verify X es hash)"

definition owned_verify_item :: "externs \<Rightarrow> ProofEntry list \<Rightarrow> bytes \<Rightarrow> bool" where
  "owned_verify_item X p item = owned_verify X p (hash_leaf X item)"

section \<open>The loops follow the layers\<close>

interpretation merkle: layered "hash_intermediate X" for X .

lemma next_level_len_single [simp]: "next_level_len (Suc 0) = 0"
  by (simp add: next_level_len_def)

lemma next_level_len_more: "length xs \<noteq> 1 \<Longrightarrow> next_level_len (length xs) = length (pair_up f xs)"
  unfolding next_level_len_def div_ceil_def length_pair_up by presburger

lemma hash_level_pairs:
  assumes "k \<le> length (pair_up (hash_intermediate X) xs)"
  shows "hash_level X (length pre) (length xs) [k..<length (pair_up (hash_intermediate X) xs)]
           (pre @ xs @ take k (pair_up (hash_intermediate X) xs)) = Ok (pre @ xs @ pair_up (hash_intermediate X) xs)"
  using assms
proof (induction "length (pair_up (hash_intermediate X) xs) - k" arbitrary: k)
  case (Suc m)
  let ?ys = "pair_up (hash_intermediate X) xs" and ?i = "2 * k + (if 2 * k + 1 < length xs then 1 else 0)"
  let ?n = "pre @ xs @ take k ?ys"
  have k: "k < length ?ys"
    using Suc.hyps(2) by linarith
  then have i: "2 * k < length xs" "?i < length xs"
    by auto
  then have "?n ! (length pre + 2 * k) = xs ! (2 * k)" "?n ! (length pre + ?i) = xs ! ?i"
    by (simp_all only: nth_append_length_plus) (simp_all add: nth_append)
  then have reads: "slice_index ?n (length pre + 2 * k) = (Ok (xs ! (2 * k)) :: (unit, bytes) res)"
      "slice_index ?n (length pre + ?i) = (Ok (xs ! ?i) :: (unit, bytes) res)"
    using i by (simp_all add: slice_index_def)
  have push: "?n @ [hash_intermediate X (xs ! (2 * k)) (xs ! ?i)] = pre @ xs @ take (Suc k) ?ys"
    using nth_pair_up [OF k] k by (simp add: take_Suc_conv_app_nth)
  have "[k..<length ?ys] = k # [Suc k..<length ?ys]"
    using k by (rule upt_conv_Cons)
  moreover have "hash_level X (length pre) (length xs) [Suc k..<length ?ys] (pre @ xs @ take (Suc k) ?ys) = Ok (pre @ xs @ ?ys)"
    using Suc.hyps k by (intro Suc.hyps(1)) linarith+
  ultimately show ?case
    using reads push by (cases "2 * k + 1 < length xs") (simp_all del: length_pair_up)
qed simp

lemma merkle_levels_layers:
  "xs \<noteq> [] \<Longrightarrow> merkle_levels X (next_level_len (length xs)) (length pre + length xs) (length xs) (length pre) (pre @ xs)
     = Some (Ok (pre @ concat (layers (hash_intermediate X) xs)))"
proof (induction xs arbitrary: pre rule: merkle.layers_induct [of _ _ X])
  case (single x)
  then show ?case by (subst merkle_levels.simps) (simp add: merkle.layers_single)
next
  case (more xs)
  let ?ys = "pair_up (hash_intermediate X) xs"
  have "hash_level X (length pre) (length xs) [0..<length ?ys] (pre @ xs) = Ok (pre @ xs @ ?ys)"
    using hash_level_pairs [of 0 X xs pre] by simp
  moreover have "0 < length ?ys" "next_level_len (length xs) = length ?ys"
    using more.hyps next_level_len_more [of xs "hash_intermediate X"] by auto
  ultimately show ?case
    using more.IH [of "pre @ xs"] more.hyps
    by (subst merkle_levels.simps) (simp add: merkle.layers_more add.assoc del: length_pair_up)
qed

function entries :: "externs \<Rightarrow> bytes list \<Rightarrow> nat \<Rightarrow> ProofEntry list" where
  "entries X xs i = (if length xs \<le> 1 then [] else
     let ys = pair_up (hash_intermediate X) xs; s = xs ! partner (length xs) i in
     \<lparr>pe_target = ys ! (i div 2), pe_left_sibling = if odd i then Some s else None,
      pe_right_sibling = if odd i then None else Some s\<rparr> # entries X ys (i div 2))"
  by pat_completeness auto
termination
  by (relation "measure (\<lambda>(X, xs, i). length xs)") auto

declare entries.simps [simp del]

lemma path_turn_layers:
  assumes "i < length xs" "nodes = pre @ concat (layers (hash_intermediate X) xs)" "(l = None) \<or> (r = None)"
  shows "path_turn nodes (length xs) (length pre) i l r path =
     Ok (if odd i then Some (xs ! partner (length xs) i) else None, if odd i then None else Some (xs ! partner (length xs) i),
         path @ (if l = None \<and> r = None then [] else [\<lparr>pe_target = xs ! i, pe_left_sibling = l, pe_right_sibling = r\<rparr>]))"
proof -
  have n: "nodes = pre @ xs @ concat (tl (layers (hash_intermediate X) xs))"
    unfolding assms(2) by (subst layers_hd) simp
  then have "length pre + length xs \<le> length nodes" "take (length xs) (drop (length pre) nodes) = xs"
    by simp_all
  then show ?thesis
    using assms(1,3)
    by (auto simp: path_turn_def Let_def assert_ok_def slice_index_def ProofEntry_new_def partner_def even_iff_mod_2_eq_zero)
qed

lemma path_loop_layers:
  "xs \<noteq> [] \<Longrightarrow> i < length xs \<Longrightarrow> nodes = pre @ concat (layers (hash_intermediate X) xs) \<Longrightarrow> l = None \<or> r = None \<Longrightarrow>
   path_loop nodes (length xs) (length pre) i l r path =
     Some (Ok (path @ (if l = None \<and> r = None then [] else [\<lparr>pe_target = xs ! i, pe_left_sibling = l, pe_right_sibling = r\<rparr>])
       @ entries X xs i))"
proof (induction xs arbitrary: pre i l r path rule: merkle.layers_induct [of _ _ X])
  case (single x)
  note t = path_turn_layers [OF single.prems]
  show ?case
    by (subst path_loop.simps, subst t) (simp add: path_loop.simps [of _ 0] entries.simps)
next
  case (more xs)
  let ?ys = "pair_up (hash_intermediate X) xs"
  note t = path_turn_layers [OF more.prems]
  have n: "nodes = (pre @ xs) @ concat (layers (hash_intermediate X) ?ys)"
    using more.prems(2) more.hyps by (simp add: merkle.layers_more)
  have len: "next_level_len (length xs) = length ?ys"
    using more.hyps next_level_len_more [of xs] by simp
  show ?case
    using more.hyps pair_up_partner(1) [OF more.prems(1), of "hash_intermediate X"] more.IH [OF _ n]
    by (subst path_loop.simps, subst t) (auto simp: len entries.simps [of X xs] Let_def simp del: length_pair_up)
qed

section \<open>Properties\<close>

lemma MerkleTree_new_layers:
  assumes "items \<noteq> []"
  shows "MerkleTree_new X items =
    Some (Ok \<lparr>mt_leaf_count = length items, mt_nodes = concat (layers (hash_intermediate X) (map (hash_leaf X) items))\<rparr>)"
  using merkle_levels_layers [of "map (hash_leaf X) items" X "[]"] assms by (simp add: MerkleTree_new_def)

lemma MerkleTree_new_empty: "MerkleTree_new X [] = Some (Ok \<lparr>mt_leaf_count = 0, mt_nodes = []\<rparr>)"
  by (subst MerkleTree_new_def, subst merkle_levels.simps) (simp add: next_level_len_def div_ceil_def)

lemma find_path_entries:
  assumes "i < length items" "MerkleTree_new X items = Some (Ok t)"
  shows "find_path t i = Some (Ok (Some (entries X (map (hash_leaf X) items) i)))"
proof -
  have "items \<noteq> []"
    using assms(1) by auto
  then show ?thesis
    using assms MerkleTree_new_layers [of items X]
      path_loop_layers [of "map (hash_leaf X) items" i _ "[]" X None None "[]"] by (auto simp: find_path_def)
qed

lemma entries_verify: "xs \<noteq> [] \<Longrightarrow> i < length xs \<Longrightarrow> proof_verify X (entries X xs i) (xs ! i)"
proof (induction xs arbitrary: i rule: merkle.layers_induct [of _ _ X])
  case (single x)
  then show ?case by (simp add: entries.simps)
next
  case (more xs)
  have "proof_verify X (entries X (pair_up (hash_intermediate X) xs) (i div 2)) (pair_up (hash_intermediate X) xs ! (i div 2))"
    by (rule more.IH [OF pair_up_partner(1) [OF more.prems]])
  then show ?case
    using more.hyps pair_up_partner(2) [OF more.prems, of "hash_intermediate X"]
    by (subst entries.simps) (auto simp: Let_def split: if_splits)
qed

lemma entries_root:
  "xs \<noteq> [] \<Longrightarrow> i < length xs \<Longrightarrow> 1 < length xs \<Longrightarrow> entries X xs i \<noteq> [] \<and> pe_target (last (entries X xs i)) = merkle.root X xs"
proof (induction xs arbitrary: i rule: merkle.layers_induct [of _ _ X])
  case (more xs)
  let ?ys = "pair_up (hash_intermediate X) xs"
  have j: "i div 2 < length ?ys"
    by (rule pair_up_partner(1) [OF more.prems(1)])
  show ?case
  proof (cases "1 < length ?ys")
    case True
    then show ?thesis
      using more.hyps more.IH [OF j] by (subst entries.simps, subst (2) entries.simps) (simp add: Let_def merkle.root_more del: length_pair_up)
  next
    case False
    then obtain y where "?ys = [y]"
      using j by (cases ?ys) auto
    then show ?thesis
      using more.hyps j by (subst entries.simps, subst (2) entries.simps)
        (simp add: Let_def merkle.root_more merkle.root_single entries.simps [of X "[y]"])
  qed
qed simp

lemma layers_size: "xs \<noteq> [] \<Longrightarrow> length xs \<le> 2 ^ k \<Longrightarrow> length (concat (layers f xs)) \<le> 2 * length xs + k"
proof (induction k arbitrary: xs)
  case 0
  then obtain x where "xs = [x]"
    by (cases xs) auto
  then show ?case by (simp add: layers.simps)
next
  case (Suc k)
  show ?case
  proof (cases "1 < length xs")
    case True
    have "length (pair_up f xs) \<le> 2 ^ k"
      using Suc.prems(2) by simp
    then have "length (concat (layers f (pair_up f xs))) \<le> 2 * ((length xs + 1) div 2) + k"
      using Suc.IH [of "pair_up f xs"] Suc.prems(1) by simp
    moreover have "length (concat (layers f xs)) = length xs + length (concat (layers f (pair_up f xs)))"
      using True by (subst layers.simps) simp
    moreover have "2 * ((length xs + 1) div 2) \<le> length xs + 1"
      by simp
    ultimately show ?thesis
      by linarith
  next
    case False
    then show ?thesis by (subst layers.simps) simp
  qed
qed

text \<open>
  (C25) The loops of the Merkle tree end. On every list of items the tree is built, without an index out of
  range, with at most \<open>2 n + log2 n\<close> nodes, which is what the vector is allocated for; and a path is
  found exactly for the indices of leaves.
\<close>

theorem merkle_loops_end:
  "\<exists>t. MerkleTree_new X items = Some (Ok t)
     \<and> (\<forall>k. length items \<le> 2 ^ k \<longrightarrow> length (mt_nodes t) \<le> 2 * length items + k)
     \<and> (\<forall>i. \<exists>path. find_path t i = Some (Ok path) \<and> (path = None \<longleftrightarrow> length items \<le> i))"
proof (cases "items = []")
  case True
  then show ?thesis
    by (intro exI [of _ "\<lparr>mt_leaf_count = 0, mt_nodes = []\<rparr>"]) (auto simp: MerkleTree_new_empty find_path_def)
next
  case False
  let ?t = "\<lparr>mt_leaf_count = length items, mt_nodes = concat (layers (hash_intermediate X) (map (hash_leaf X) items))\<rparr>"
  have new: "MerkleTree_new X items = Some (Ok ?t)"
    by (rule MerkleTree_new_layers [OF False])
  moreover have "length (mt_nodes ?t) \<le> 2 * length items + k" if "length items \<le> 2 ^ k" for k
    using layers_size [of "map (hash_leaf X) items" k] False that by simp
  moreover have "\<exists>path. find_path ?t i = Some (Ok path) \<and> (path = None \<longleftrightarrow> length items \<le> i)" for i
  proof (cases "length items \<le> i")
    case True
    then show ?thesis by (simp add: find_path_def)
  next
    case False
    then show ?thesis using find_path_entries [OF _ new, of i] by simp
  qed
  ultimately show ?thesis
    by blast
qed

lemma hash_leaf_inj: "hash_leaf X a = hash_leaf X b \<Longrightarrow> a \<noteq> b \<Longrightarrow> collision X"
  unfolding collision_def hash_leaf_def sha256v_def
  by (intro exI [of _ "LEAF_PREFIX @ a"] exI [of _ "LEAF_PREFIX @ b"]) simp

lemma hash_intermediate_inj: "hash_intermediate X l r = hash_intermediate X l' r' \<Longrightarrow> l @ r \<noteq> l' @ r' \<Longrightarrow> collision X"
  unfolding collision_def hash_intermediate_def sha256v_def
  by (intro exI [of _ "INTERMEDIATE_PREFIX @ l @ r"] exI [of _ "INTERMEDIATE_PREFIX @ l' @ r'"]) simp

lemma proof_binds:
  assumes "proof_verify_item X (pe # es) a" "proof_verify_item X (pe # es) b" "a \<noteq> b"
    "(pe_left_sibling pe = None) \<noteq> (pe_right_sibling pe = None)"
  shows "collision X"
proof (cases "hash_leaf X a = hash_leaf X b")
  case True
  then show ?thesis using hash_leaf_inj assms(3) by blast
next
  case False
  have "\<exists>l r l' r'. hash_intermediate X l r = hash_intermediate X l' r' \<and> l @ r \<noteq> l' @ r'"
  proof (cases "pe_left_sibling pe")
    case None
    then obtain r where "pe_right_sibling pe = Some r" using assms(4) by auto
    then show ?thesis
      using assms(1,2) None False by (intro exI [of _ "hash_leaf X a"] exI [of _ r] exI [of _ "hash_leaf X b"])
        (simp add: proof_verify_item_def Let_def)
  next
    case (Some l)
    then have "pe_right_sibling pe = None" using assms(4) by auto
    then show ?thesis
      using assms(1,2) Some False by (intro exI [of _ l] exI [of _ "hash_leaf X a"] exI [of _ l] exI [of _ "hash_leaf X b"])
        (simp add: proof_verify_item_def Let_def)
  qed
  then show ?thesis using hash_intermediate_inj by blast
qed

text \<open>
  Every path of the tree proves its item. For every hash function, the path of an index verifies for
  the item at that index and leads to the root of the tree; and two different items for which one path
  verifies give two different strings with the same digest.
\<close>

theorem merkle_paths_prove:
  assumes "i < length items" "MerkleTree_new X items = Some (Ok t)"
  shows "\<exists>path. find_path t i = Some (Ok (Some path)) \<and> proof_verify_item X path (items ! i)
     \<and> (1 < length items \<longrightarrow> proof_get_root path = mt_get_root t)
     \<and> (\<forall>item. 1 < length items \<and> proof_verify_item X path item \<and> item \<noteq> items ! i \<longrightarrow> collision X)"
proof -
  let ?xs = "map (hash_leaf X) items"
  let ?p = "entries X ?xs i"
  have ne: "items \<noteq> []"
    using assms(1) by auto
  have v: "proof_verify_item X ?p (items ! i)"
    using entries_verify [of ?xs i X] assms(1) ne by (simp add: proof_verify_item_def)
  have t: "mt_nodes t = concat (layers (hash_intermediate X) ?xs)" "mt_nodes t \<noteq> []"
    using MerkleTree_new_layers [OF ne, of X] assms(2) concat_layers_Nil [of "hash_intermediate X" ?xs] ne by auto
  have "proof_get_root ?p = mt_get_root t" if "1 < length items"
    using entries_root [of ?xs i X] merkle.last_concat_layers [of ?xs X] t that assms(1) ne
    by (simp add: proof_get_root_def mt_get_root_def)
  moreover have "collision X" if "1 < length items" "proof_verify_item X ?p item" "item \<noteq> items ! i" for item
    using proof_binds [of X _ _ item "items ! i"] v that by (subst (asm) (1 2) entries.simps) (auto simp: Let_def)
  ultimately show ?thesis
    using find_path_entries [OF assms] v by blast
qed

definition demo_digest :: externs where
  "demo_digest = \<lparr>sha256 = (\<lambda>d. take 32 (d @ replicate 32 0)), fnv_hash = (\<lambda>k d. k)\<rparr>"

theorem merkle_loops_end_witness:
  "\<exists>t. MerkleTree_new demo_digest [[1], [2], [3]] = Some (Ok t) \<and> length (mt_nodes t) \<le> 8
     \<and> (\<exists>path. find_path t 2 = Some (Ok (Some path))) \<and> find_path t 3 = Some (Ok None)"
proof -
  obtain t where t: "MerkleTree_new demo_digest [[1], [2], [3]] = Some (Ok t)"
      "length [[1 :: 8 word], [2], [3]] \<le> 2 ^ 2 \<longrightarrow> length (mt_nodes t) \<le> 2 * length [[1 :: 8 word], [2], [3]] + 2"
      "\<forall>i. \<exists>path. find_path t i = Some (Ok path) \<and> (path = None \<longleftrightarrow> length [[1 :: 8 word], [2], [3]] \<le> i)"
    using merkle_loops_end [of demo_digest "[[1], [2], [3]]"] by blast
  moreover have "length (mt_nodes t) \<le> 8"
    using t(2) by simp
  moreover have "\<exists>path. find_path t 2 = Some (Ok (Some path))" "find_path t 3 = Some (Ok None)"
    using spec [OF t(3), of 2] spec [OF t(3), of 3] by auto
  ultimately show ?thesis
    by blast
qed

theorem merkle_paths_prove_witness:
  "\<exists>t path. MerkleTree_new demo_digest [[1], [2], [3]] = Some (Ok t) \<and> find_path t 2 = Some (Ok (Some path))
     \<and> proof_verify_item demo_digest path [3] \<and> proof_get_root path = mt_get_root t"
proof -
  obtain t where t: "MerkleTree_new demo_digest [[1], [2], [3]] = Some (Ok t)"
    using MerkleTree_new_layers [of "[[1], [2], [3]]" demo_digest] by auto
  then show ?thesis
    using merkle_paths_prove [OF _ t, of 2] by auto
qed

text \<open>
  The owned form of a proof is verified with the operands exchanged. In a tree of two different
  items the path of the first one verifies, and its owned form does not, unless the hash function has a
  collision.
\<close>

theorem owned_proof_rejected:
  assumes "a \<noteq> b" "\<forall>d. length (sha256 X d) = 32" "MerkleTree_new X [a, b] = Some (Ok t)"
  shows "\<exists>path. find_path t 0 = Some (Ok (Some path)) \<and> proof_verify_item X path a
     \<and> (owned_verify_item X path a \<longrightarrow> collision X)"
proof -
  let ?p = "entries X [hash_leaf X a, hash_leaf X b] 0"
  have f: "find_path t 0 = Some (Ok (Some ?p))"
    using find_path_entries [OF _ assms(3), of 0] by simp
  have p: "?p = [\<lparr>pe_target = hash_intermediate X (hash_leaf X a) (hash_leaf X b), pe_left_sibling = None,
      pe_right_sibling = Some (hash_leaf X b)\<rparr>]"
    by (simp add: entries.simps partner_def)
  have "collision X" if "owned_verify_item X ?p a"
  proof (cases "hash_leaf X a = hash_leaf X b")
    case True
    then show ?thesis using hash_leaf_inj assms(1) by blast
  next
    case False
    have "length (hash_leaf X a) = length (hash_leaf X b)"
      by (simp add: hash_leaf_def sha256v_def assms(2))
    then have "hash_leaf X a @ hash_leaf X b \<noteq> hash_leaf X b @ hash_leaf X a"
      using False by simp
    then show ?thesis
      using that hash_intermediate_inj [of X "hash_leaf X b" "hash_leaf X a" "hash_leaf X a" "hash_leaf X b"]
      by (auto simp: owned_verify_item_def p)
  qed
  moreover have "proof_verify_item X ?p a"
    by (simp add: proof_verify_item_def p)
  ultimately show ?thesis
    using f by blast
qed

theorem owned_proof_rejected_witness:
  "\<exists>t path. MerkleTree_new demo_digest [[1], [2]] = Some (Ok t) \<and> find_path t 0 = Some (Ok (Some path))
     \<and> proof_verify_item demo_digest path [1]"
proof -
  obtain t where t: "MerkleTree_new demo_digest [[1], [2]] = Some (Ok t)"
    using MerkleTree_new_layers [of "[[1], [2]]" demo_digest] by auto
  have "\<forall>d. length (sha256 demo_digest d) = 32"
    by (simp add: demo_digest_def min_def)
  then show ?thesis
    using owned_proof_rejected [OF _ _ t] t by auto
qed

end
