(* ===== verification/Mining_Pool.thy ===== *)
theory Mining_Pool
  imports Solana
begin

text \<open>
  The mining pool program (solana-mining-pool): lenders deposit collateral into a pool, the authority of
  the pool extracts it, and once claiming is enabled every lender may claim its share of the redeemable
  tokens that were paid back. The state holds the pools by key, the lenders by pool and user, and the
  token accounts. One definition per instruction, with the constraints of its context first.
\<close>

section \<open>State\<close>

datatype PoolError =
    ParamsCollateralAmountIsTooLarge
  | ParamsRedeemableAmountIsTooLarge
  | ParamsMetadataLengthIsTooLarge
  | PoolClaimingEnabledIsTrue
  | PoolClaimingEnabledIsFalse
  | PoolFreezeIsTrue
  | PoolTotalDepositedCollateralAmountIsZero

record PoolMetadata =
  pm_length :: nat
  pm_bytes :: bytes

definition PoolMetadata_BYTES :: nat where
  "PoolMetadata_BYTES = 400"

record Pool =
  pool_bump :: nat
  pool_index :: nat
  pool_authority :: pubkey
  pool_collateral_mint :: pubkey
  pool_max_deposit :: nat
  pool_total_deposited :: nat
  pool_total_extracted :: nat
  pool_claiming_enabled :: bool
  pool_redeemable_mint :: pubkey
  pool_total_claimed :: nat
  pool_freeze :: bool
  pool_metadata :: PoolMetadata

record Lender =
  lender_bump :: nat
  lender_deposited :: nat
  lender_claimed :: nat

record mining =
  mp_pools :: "pubkey \<Rightarrow> Pool option"
  mp_lenders :: "pubkey \<times> pubkey \<Rightarrow> Lender option"
  mp_ledger :: ledger

type_synonym 'a pool_res = "(PoolError anchor_error, 'a) res"

definition MINING_POOL_ID :: string where
  "MINING_POOL_ID = ''CQy5JKR2Lrm16pqSY5nkMaMYSazRk2aYx99pJDNGupR7''"

section \<open>Instructions\<close>

definition find_pool :: "runtime \<Rightarrow> nat \<Rightarrow> pubkey \<times> nat" where
  "find_pool R index = find_program_address R MINING_POOL_ID [str_bytes ''Pool'', to_le_bytes 8 index]"

definition pool_create :: "runtime \<Rightarrow> pubkey \<Rightarrow> pubkey \<Rightarrow> nat \<Rightarrow> PoolMetadata \<Rightarrow> mining \<Rightarrow> mining pool_res" where
  "pool_create R authority collateral_mint index metadata s =
     (let (pool, bump) = find_pool R index in
      rbind (init_account (mp_pools s) pool) (\<lambda>_.
      rbind (init_associated_token R (mp_ledger s) collateral_mint pool) (\<lambda>L.
      rbind (fail_if (PoolMetadata_BYTES < pm_length metadata) ParamsMetadataLengthIsTooLarge) (\<lambda>_.
        Ok (s\<lparr>mp_pools := (mp_pools s)(pool \<mapsto>
               \<lparr>pool_bump = bump, pool_index = index, pool_authority = authority, pool_collateral_mint = collateral_mint,
                pool_max_deposit = 0, pool_total_deposited = 0, pool_total_extracted = 0,
                pool_claiming_enabled = False, pool_redeemable_mint = Pubkey_default, pool_total_claimed = 0,
                pool_freeze = False, pool_metadata = metadata\<rparr>), mp_ledger := L\<rparr>)))))"

definition pool_extract ::
  "runtime \<Rightarrow> pubkey \<Rightarrow> pubkey \<Rightarrow> pubkey \<Rightarrow> pubkey \<Rightarrow> nat \<Rightarrow> mining \<Rightarrow> mining pool_res" where
  "pool_extract R authority authority_collateral pool pool_collateral amount s =
     rbind (load (mp_pools s) pool) (\<lambda>p.
     rbind (wallet_account (mp_ledger s) authority_collateral (pool_collateral_mint p) authority) (\<lambda>_.
     rbind (require_constraint (pool_authority p = authority)) (\<lambda>_.
     rbind (vault_account R (mp_ledger s) pool_collateral (pool_collateral_mint p) pool) (\<lambda>_.
     rbind (fail_if (pool_freeze p) PoolFreezeIsTrue) (\<lambda>_.
     rbind (u_add 64 (pool_total_extracted p) amount) (\<lambda>extracted.
     rbind (transfer R (mp_ledger s) pool_collateral authority_collateral pool amount) (\<lambda>L.
       Ok (s\<lparr>mp_pools := (mp_pools s)(pool \<mapsto> p\<lparr>pool_total_extracted := extracted\<rparr>), mp_ledger := L\<rparr>))))))))"

definition pool_update ::
  "pubkey \<Rightarrow> pubkey \<Rightarrow> nat option \<Rightarrow> bool option \<Rightarrow> PoolMetadata option \<Rightarrow> mining \<Rightarrow> mining pool_res" where
  "pool_update authority pool max_deposit freeze metadata s =
     rbind (load (mp_pools s) pool) (\<lambda>p.
     rbind (require_constraint (pool_authority p = authority)) (\<lambda>_.
       let p1 = (case max_deposit of None \<Rightarrow> p | Some m \<Rightarrow> p\<lparr>pool_max_deposit := m\<rparr>);
           p2 = (case freeze of None \<Rightarrow> p1 | Some b \<Rightarrow> p1\<lparr>pool_freeze := b\<rparr>)
       in rbind (case metadata of
                   None \<Rightarrow> Ok p2
                 | Some md \<Rightarrow> rbind (fail_if (PoolMetadata_BYTES < pm_length md) ParamsMetadataLengthIsTooLarge) (\<lambda>_.
                                Ok (p2\<lparr>pool_metadata := md\<rparr>))) (\<lambda>p3.
            Ok (s\<lparr>mp_pools := (mp_pools s)(pool \<mapsto> p3)\<rparr>))))"

definition pool_claimable :: "pubkey \<Rightarrow> pubkey \<Rightarrow> pubkey \<Rightarrow> mining \<Rightarrow> mining pool_res" where
  "pool_claimable authority pool redeemable_mint s =
     rbind (load (mp_pools s) pool) (\<lambda>p.
     rbind (require_constraint (pool_authority p = authority)) (\<lambda>_.
     rbind (fail_if (pool_freeze p) PoolFreezeIsTrue) (\<lambda>_.
     rbind (fail_if (pool_claiming_enabled p) PoolClaimingEnabledIsTrue) (\<lambda>_.
       Ok (s\<lparr>mp_pools := (mp_pools s)(pool \<mapsto>
              p\<lparr>pool_claiming_enabled := True, pool_redeemable_mint := redeemable_mint, pool_total_claimed := 0\<rparr>)\<rparr>)))))"

definition lender_create :: "runtime \<Rightarrow> pubkey \<Rightarrow> pubkey \<Rightarrow> mining \<Rightarrow> mining pool_res" where
  "lender_create R user pool s =
     rbind (load (mp_pools s) pool) (\<lambda>_.
     rbind (init_account (mp_lenders s) (pool, user)) (\<lambda>_.
       let bump = snd (find_program_address R MINING_POOL_ID [str_bytes ''Lender'', pool, user]) in
       Ok (s\<lparr>mp_lenders := (mp_lenders s)((pool, user) \<mapsto>
              \<lparr>lender_bump = bump, lender_deposited = 0, lender_claimed = 0\<rparr>)\<rparr>)))"

definition lender_deposit ::
  "runtime \<Rightarrow> pubkey \<Rightarrow> pubkey \<Rightarrow> pubkey \<Rightarrow> pubkey \<Rightarrow> nat \<Rightarrow> mining \<Rightarrow> mining pool_res" where
  "lender_deposit R user user_collateral pool pool_collateral amount s =
     rbind (load (mp_pools s) pool) (\<lambda>p.
     rbind (wallet_account (mp_ledger s) user_collateral (pool_collateral_mint p) user) (\<lambda>_.
     rbind (vault_account R (mp_ledger s) pool_collateral (pool_collateral_mint p) pool) (\<lambda>_.
     rbind (load (mp_lenders s) (pool, user)) (\<lambda>l.
     rbind (fail_if (pool_freeze p) PoolFreezeIsTrue) (\<lambda>_.
     rbind (u_add 64 (pool_total_deposited p) amount) (\<lambda>total.
     rbind (fail_if (pool_max_deposit p < total) ParamsCollateralAmountIsTooLarge) (\<lambda>_.
     rbind (transfer R (mp_ledger s) user_collateral pool_collateral user amount) (\<lambda>L.
     rbind (u_add 64 (lender_deposited l) amount) (\<lambda>deposited.
       Ok (s\<lparr>mp_pools := (mp_pools s)(pool \<mapsto> p\<lparr>pool_total_deposited := total\<rparr>),
            mp_lenders := (mp_lenders s)((pool, user) \<mapsto> l\<lparr>lender_deposited := deposited\<rparr>),
            mp_ledger := L\<rparr>))))))))))"

text \<open>The claimable amount is computed in \<open>u128\<close> and converted back to \<open>u64\<close>.\<close>

definition claimable_redeemable :: "Pool \<Rightarrow> Lender \<Rightarrow> nat \<Rightarrow> nat pool_res" where
  "claimable_redeemable p l redeemable_balance =
     rbind (u_add 128 (pool_total_claimed p) redeemable_balance) (\<lambda>repayed.
     rbind (u_mul 128 repayed (lender_deposited l)) (\<lambda>product.
     rbind (u_div product (pool_total_deposited p)) (\<lambda>claimable.
     rbind (fail_if (2 ^ 64 \<le> claimable) ParamsRedeemableAmountIsTooLarge) (\<lambda>_. Ok claimable))))"

definition lender_claim ::
  "runtime \<Rightarrow> pubkey \<Rightarrow> pubkey \<Rightarrow> pubkey \<Rightarrow> pubkey \<Rightarrow> pubkey \<Rightarrow> nat \<Rightarrow> mining \<Rightarrow> mining pool_res" where
  "lender_claim R user user_redeemable pool pool_redeemable redeemable_mint amount s =
     rbind (load (mp_pools s) pool) (\<lambda>p.
     rbind (wallet_account (mp_ledger s) user_redeemable (pool_redeemable_mint p) user) (\<lambda>_.
     rbind (require_constraint (pool_redeemable_mint p = redeemable_mint)) (\<lambda>_.
     rbind (vault_account R (mp_ledger s) pool_redeemable (pool_redeemable_mint p) pool) (\<lambda>vault.
     rbind (load (mp_lenders s) (pool, user)) (\<lambda>l.
     rbind (fail_if (pool_freeze p) PoolFreezeIsTrue) (\<lambda>_.
     rbind (fail_if (\<not> pool_claiming_enabled p) PoolClaimingEnabledIsFalse) (\<lambda>_.
     rbind (fail_if (pool_total_deposited p = 0) PoolTotalDepositedCollateralAmountIsZero) (\<lambda>_.
     rbind (claimable_redeemable p l (ta_amount vault)) (\<lambda>claimable.
     rbind (u_add 64 (lender_claimed l) amount) (\<lambda>claimed.
     rbind (fail_if (claimable < claimed) ParamsRedeemableAmountIsTooLarge) (\<lambda>_.
     rbind (u_add 64 (pool_total_claimed p) amount) (\<lambda>total_claimed.
     rbind (transfer R (mp_ledger s) pool_redeemable user_redeemable pool amount) (\<lambda>L.
       Ok (s\<lparr>mp_pools := (mp_pools s)(pool \<mapsto> p\<lparr>pool_total_claimed := total_claimed\<rparr>),
            mp_lenders := (mp_lenders s)((pool, user) \<mapsto> l\<lparr>lender_claimed := claimed\<rparr>),
            mp_ledger := L\<rparr>))))))))))))))"

section \<open>The transition system\<close>

text \<open>
  A step is one instruction with arbitrary accounts and parameters, or a change of the token accounts by
  somebody else.
\<close>

inductive pool_step :: "runtime \<Rightarrow> mining \<Rightarrow> mining \<Rightarrow> bool" for R where
  pool_step_create: "pool_create R authority mint index metadata s = Ok s' \<Longrightarrow> pool_step R s s'"
| pool_step_extract: "pool_extract R authority wallet pool vault n s = Ok s' \<Longrightarrow> pool_step R s s'"
| pool_step_update: "pool_update authority pool max_deposit freeze metadata s = Ok s' \<Longrightarrow> pool_step R s s'"
| pool_step_claimable: "pool_claimable authority pool mint s = Ok s' \<Longrightarrow> pool_step R s s'"
| pool_step_lender: "lender_create R user pool s = Ok s' \<Longrightarrow> pool_step R s s'"
| pool_step_deposit: "lender_deposit R user wallet pool vault n s = Ok s' \<Longrightarrow> pool_step R s s'"
| pool_step_claim: "lender_claim R user wallet pool vault mint n s = Ok s' \<Longrightarrow> pool_step R s s'"
| pool_step_tokens: "pool_step R s (s\<lparr>mp_ledger := L\<rparr>)"

definition total_deposited :: "pubkey \<Rightarrow> mining \<Rightarrow> nat" where
  "total_deposited k s = (case mp_pools s k of None \<Rightarrow> 0 | Some p \<Rightarrow> pool_total_deposited p)"

definition total_claimed :: "pubkey \<Rightarrow> mining \<Rightarrow> nat" where
  "total_claimed k s = (case mp_pools s k of None \<Rightarrow> 0 | Some p \<Rightarrow> pool_total_claimed p)"

definition deposited :: "pubkey \<Rightarrow> mining \<Rightarrow> pubkey \<Rightarrow> nat" where
  "deposited k s u = (case mp_lenders s (k, u) of None \<Rightarrow> 0 | Some l \<Rightarrow> lender_deposited l)"

definition claimed :: "pubkey \<Rightarrow> mining \<Rightarrow> pubkey \<Rightarrow> nat" where
  "claimed k s u = (case mp_lenders s (k, u) of None \<Rightarrow> 0 | Some l \<Rightarrow> lender_claimed l)"

definition unclaimed_before :: "pubkey \<Rightarrow> mining \<Rightarrow> bool" where
  "unclaimed_before k s = (\<forall>p. mp_pools s k = Some p \<longrightarrow> \<not> pool_claiming_enabled p \<longrightarrow> pool_total_claimed p = 0)"

lemmas pool_amounts = total_deposited_def total_claimed_def deposited_def claimed_def unclaimed_before_def

lemmas pool_instructions = pool_create_def pool_extract_def pool_update_def pool_claimable_def lender_create_def
  lender_deposit_def lender_claim_def

lemma unclaimed_before_step:
  assumes "pool_step R s s'" "\<forall>k. unclaimed_before k s"
  shows "\<forall>k. unclaimed_before k s'"
  using assms
  by (cases rule: pool_step.cases)
    (auto simp: pool_instructions unclaimed_before_def Let_def split: option.splits prod.splits if_splits)

text \<open>Instructions other than deposits and claims leave the amounts alone.\<close>

lemma lenders_frame: "mp_lenders s' = mp_lenders s \<Longrightarrow> deposited k s' = deposited k s \<and> claimed k s' = claimed k s"
  by (simp add: fun_eq_iff deposited_def claimed_def)

lemma lenders_kept:
  "pool_create R authority mint index metadata s = Ok s' \<Longrightarrow> mp_lenders s' = mp_lenders s"
  "pool_extract R authority wallet pool vault n s = Ok s' \<Longrightarrow> mp_lenders s' = mp_lenders s"
  "pool_update authority pool max_deposit freeze md s = Ok s' \<Longrightarrow> mp_lenders s' = mp_lenders s"
  "pool_claimable authority pool mint s = Ok s' \<Longrightarrow> mp_lenders s' = mp_lenders s"
  by (auto simp: pool_instructions Let_def split: prod.splits)

lemmas parts_kept = lenders_kept [THEN lenders_frame]

lemma pool_written:
  "pool_extract R authority wallet pool vault n s = Ok s' \<Longrightarrow> \<exists>p q. mp_pools s pool = Some p \<and> mp_pools s' pool = Some q \<and> (\<forall>j. j \<noteq> pool \<longrightarrow> mp_pools s' j = mp_pools s j)
     \<and> pool_total_deposited q = pool_total_deposited p \<and> pool_total_claimed q = pool_total_claimed p"
  "pool_update authority pool max_deposit freeze md s = Ok s' \<Longrightarrow> \<exists>p q. mp_pools s pool = Some p \<and> mp_pools s' pool = Some q \<and> (\<forall>j. j \<noteq> pool \<longrightarrow> mp_pools s' j = mp_pools s j)
     \<and> pool_total_deposited q = pool_total_deposited p \<and> pool_total_claimed q = pool_total_claimed p"
  "pool_claimable authority pool mint s = Ok s' \<Longrightarrow> \<exists>p q. mp_pools s pool = Some p \<and> mp_pools s' pool = Some q \<and> (\<forall>j. j \<noteq> pool \<longrightarrow> mp_pools s' j = mp_pools s j)
     \<and> pool_total_deposited q = pool_total_deposited p \<and> pool_total_claimed q = 0 \<and> \<not> pool_claiming_enabled p"
  by (auto simp: pool_extract_def pool_claimable_def)
    (cases max_deposit; cases freeze; cases md; auto simp: pool_update_def)

lemma pool_frame:
  assumes "mp_pools s pool = Some p" "mp_pools s' pool = Some q" "\<And>j. j \<noteq> pool \<Longrightarrow> mp_pools s' j = mp_pools s j"
  shows "pool_total_deposited q = pool_total_deposited p \<Longrightarrow> total_deposited k s' = total_deposited k s"
    "pool_total_claimed q = pool_total_claimed p \<Longrightarrow> total_claimed k s' = total_claimed k s"
  using assms by (cases "k = pool"; simp add: total_deposited_def total_claimed_def)+

lemma totals_kept_create:
  "pool_create R authority mint index metadata s = Ok s' \<Longrightarrow> total_deposited k s' = total_deposited k s \<and> total_claimed k s' = total_claimed k s"
  by (auto simp: pool_create_def total_deposited_def total_claimed_def Let_def split: prod.splits)

lemma totals_kept:
  "pool_extract R authority wallet pool vault n s = Ok s' \<Longrightarrow> total_deposited k s' = total_deposited k s \<and> total_claimed k s' = total_claimed k s"
  "pool_update authority pool max_deposit freeze md s = Ok s' \<Longrightarrow> total_deposited k s' = total_deposited k s \<and> total_claimed k s' = total_claimed k s"
  "pool_claimable authority pool mint s = Ok s' \<Longrightarrow> total_deposited k s' = total_deposited k s"
  "pool_claimable authority pool mint s = Ok s' \<Longrightarrow> unclaimed_before pool s \<Longrightarrow> total_claimed k s' = total_claimed k s"
  by (auto dest!: pool_written simp: unclaimed_before_def intro: pool_frame)

lemma lender_create_kept:
  assumes "lender_create R user pool s = Ok s'"
  shows "total_deposited k s' = total_deposited k s \<and> total_claimed k s' = total_claimed k s
    \<and> deposited k s' = deposited k s \<and> claimed k s' = claimed k s"
proof -
  obtain b where "s' = s\<lparr>mp_lenders := (mp_lenders s)((pool, user) \<mapsto> \<lparr>lender_bump = b, lender_deposited = 0, lender_claimed = 0\<rparr>)\<rparr>"
      "mp_lenders s (pool, user) = None"
    using assms by (auto simp: lender_create_def)
  then show ?thesis
    by (simp add: pool_amounts fun_eq_iff)
qed

lemma lender_deposit_Ok:
  assumes "lender_deposit R user wallet pool vault n s = Ok s'"
  obtains p l L where "mp_pools s pool = Some p" "mp_lenders s (pool, user) = Some l"
    "token_transfer R (mp_ledger s) wallet vault user n = Some L"
    "s' = s\<lparr>mp_pools := (mp_pools s)(pool \<mapsto> p\<lparr>pool_total_deposited := pool_total_deposited p + n\<rparr>),
       mp_lenders := (mp_lenders s)((pool, user) \<mapsto> l\<lparr>lender_deposited := lender_deposited l + n\<rparr>), mp_ledger := L\<rparr>"
  using assms by (auto simp: lender_deposit_def)

lemma lender_claim_Ok:
  assumes "lender_claim R user wallet pool vault mint n s = Ok s'"
  obtains p l L where "mp_pools s pool = Some p" "mp_lenders s (pool, user) = Some l"
    "token_transfer R (mp_ledger s) vault wallet pool n = Some L"
    "s' = s\<lparr>mp_pools := (mp_pools s)(pool \<mapsto> p\<lparr>pool_total_claimed := pool_total_claimed p + n\<rparr>),
       mp_lenders := (mp_lenders s)((pool, user) \<mapsto> l\<lparr>lender_claimed := lender_claimed l + n\<rparr>), mp_ledger := L\<rparr>"
  using assms by (auto simp: lender_claim_def)

lemma deposit_effect:
  assumes "lender_deposit R user wallet pool vault n s = Ok s'"
  shows "total_claimed k s' = total_claimed k s" "claimed k s' = claimed k s"
    "v \<noteq> user \<Longrightarrow> deposited k s' v = deposited k s v"
    "total_deposited k s' + deposited k s user = total_deposited k s + deposited k s' user"
  using assms by (elim lender_deposit_Ok; cases "k = pool"; simp add: pool_amounts fun_eq_iff)+

lemma claim_effect:
  assumes "lender_claim R user wallet pool vault mint n s = Ok s'"
  shows "total_deposited k s' = total_deposited k s" "deposited k s' = deposited k s"
    "v \<noteq> user \<Longrightarrow> claimed k s' v = claimed k s v"
    "total_claimed k s' + claimed k s user = total_claimed k s + claimed k s' user"
  using assms by (elim lender_claim_Ok; cases "k = pool"; simp add: pool_amounts fun_eq_iff)+

lemma tokens_effect [simp]:
  "total_deposited k (s\<lparr>mp_ledger := L\<rparr>) = total_deposited k s" "deposited k (s\<lparr>mp_ledger := L\<rparr>) = deposited k s"
  "total_claimed k (s\<lparr>mp_ledger := L\<rparr>) = total_claimed k s" "claimed k (s\<lparr>mp_ledger := L\<rparr>) = claimed k s"
  by (simp_all add: pool_amounts fun_eq_iff)

lemma pool_deposit_part:
  assumes "pool_step R s s'"
  shows "\<exists>u. (\<forall>v. v \<noteq> u \<longrightarrow> deposited k s' v = deposited k s v)
    \<and> total_deposited k s' + deposited k s u = total_deposited k s + deposited k s' u"
  using assms
proof (cases rule: pool_step.cases)
  case (pool_step_deposit user wallet pool vault n)
  then show ?thesis
    by (intro exI [of _ user]) (simp add: deposit_effect)
qed (simp_all add: parts_kept totals_kept totals_kept_create lender_create_kept claim_effect)

lemma pool_claim_part:
  assumes "pool_step R s s'" "\<forall>k. unclaimed_before k s"
  shows "\<exists>u. (\<forall>v. v \<noteq> u \<longrightarrow> claimed k s' v = claimed k s v)
    \<and> total_claimed k s' + claimed k s u = total_claimed k s + claimed k s' u"
  using assms(1)
proof (cases rule: pool_step.cases)
  case (pool_step_claim user wallet pool vault mint n)
  then show ?thesis
    by (intro exI [of _ user]) (simp add: claim_effect)
qed (simp_all add: assms(2) parts_kept totals_kept totals_kept_create lender_create_kept deposit_effect)

interpretation deposits: ledger_total "pool_step R" "total_deposited k" "deposited k" for R k
  using pool_deposit_part by unfold_locales blast

interpretation claims: ledger_total "\<lambda>s s'. (\<forall>k. unclaimed_before k s) \<and> pool_step R s s'" "total_claimed k" "claimed k"
  for R k
  using pool_claim_part by unfold_locales blast

lemma pool_steps_unclaimed:
  assumes "(pool_step R)\<^sup>*\<^sup>* s s'" "\<forall>k. unclaimed_before k s"
  shows "(\<forall>k. unclaimed_before k s') \<and> (\<lambda>s s'. (\<forall>k. unclaimed_before k s) \<and> pool_step R s s')\<^sup>*\<^sup>* s s'"
  using assms(1)
proof (induction rule: rtranclp_induct)
  case base
  then show ?case using assms(2) by simp
next
  case (step t u)
  then show ?case
    using unclaimed_before_step [OF step.hyps(2)]
    by (auto intro: rtranclp.rtrancl_into_rtrancl)
qed

section \<open>Properties\<close>

definition books_balanced :: "pubkey \<Rightarrow> mining \<Rightarrow> bool" where
  "books_balanced k s \<longleftrightarrow>
     finite {u. deposited k s u \<noteq> 0} \<and> total_deposited k s = (\<Sum>u | deposited k s u \<noteq> 0. deposited k s u)
   \<and> finite {u. claimed k s u \<noteq> 0} \<and> total_claimed k s = (\<Sum>u | claimed k s u \<noteq> 0. claimed k s u)"

definition demo_mining :: mining where
  "demo_mining = \<lparr>mp_pools = Map.empty, mp_lenders = Map.empty, mp_ledger = Map.empty\<rparr>"

text \<open>
  The books of a pool balance. Along every sequence of instructions, whoever sends them and with
  whatever accounts, and whatever happens to the token accounts in between, the totals of a pool are
  the sums of what its lenders deposited and of what they claimed.
\<close>

theorem mining_pool_totals:
  assumes "(pool_step R)\<^sup>*\<^sup>* s0 s" "mp_pools s0 = Map.empty" "mp_lenders s0 = Map.empty"
  shows "books_balanced k s"
proof -
  have u: "\<forall>k. unclaimed_before k s0"
    using assms(2) by (simp add: unclaimed_before_def)
  have z: "deposits.balanced k s0" "claims.balanced k s0"
    using assms(2,3) by (simp_all add: deposits.balanced_def claims.balanced_def pool_amounts)
  have "deposits.balanced k s" "claims.balanced k s"
    using deposits.balanced_steps [OF assms(1) z(1)] claims.balanced_steps [OF _ z(2)] pool_steps_unclaimed [OF assms(1) u]
    by blast+
  then show ?thesis
    by (simp add: deposits.balanced_def claims.balanced_def books_balanced_def)
qed

theorem mining_pool_totals_witness:
  "\<exists>s. pool_create demo_runtime [1] [2] 0 \<lparr>pm_length = 0, pm_bytes = []\<rparr> demo_mining = Ok s
     \<and> mp_pools s (str_bytes ''Pool'' @ to_le_bytes 8 0) \<noteq> None \<and> books_balanced (str_bytes ''Pool'' @ to_le_bytes 8 0) s"
proof -
  obtain s where s: "pool_create demo_runtime [1] [2] 0 \<lparr>pm_length = 0, pm_bytes = []\<rparr> demo_mining = Ok s"
      "mp_pools s (str_bytes ''Pool'' @ to_le_bytes 8 0) \<noteq> None"
    by (simp add: pool_create_def find_pool_def demo_runtime_def demo_mining_def init_account_def guard_err_def
        init_associated_token_def ok_or_def fail_if_def PoolMetadata_BYTES_def)
  then have "(pool_step demo_runtime)\<^sup>*\<^sup>* demo_mining s"
    by (blast intro: pool_step_create)
  then show ?thesis
    using mining_pool_totals [of demo_runtime demo_mining s] s by (auto simp: demo_mining_def)
qed

definition share :: "pubkey \<Rightarrow> mining \<Rightarrow> nat \<Rightarrow> pubkey \<Rightarrow> nat" where
  "share k s vault u = (total_claimed k s + vault) * deposited k s u div total_deposited k s"

lemma share_sum_le:
  assumes "books_balanced k s" "finite A"
  shows "(\<Sum>u\<in>A. share k s vault u) \<le> total_claimed k s + vault"
proof (cases "total_deposited k s = 0")
  case True
  then show ?thesis by (simp add: share_def)
next
  case False
  let ?D = "total_deposited k s" and ?T = "total_claimed k s + vault"
  have sub: "(\<Sum>u\<in>A. deposited k s u) \<le> ?D"
  proof -
    have "(\<Sum>u\<in>A. deposited k s u) = (\<Sum>u\<in>A \<inter> {u. deposited k s u \<noteq> 0}. deposited k s u)"
      using assms(2) by (intro sum.mono_neutral_right) auto
    also have "\<dots> \<le> ?D"
      using assms(1) unfolding books_balanced_def by (metis Int_lower2 sum_mono2 zero_le)
    finally show ?thesis .
  qed
  have "(\<Sum>u\<in>A. share k s vault u) * ?D = (\<Sum>u\<in>A. share k s vault u * ?D)"
    by (simp add: sum_distrib_right)
  also have "\<dots> \<le> (\<Sum>u\<in>A. ?T * deposited k s u)"
    by (intro sum_mono) (simp add: share_def)
  also have "\<dots> \<le> ?T * ?D"
    using sub by (simp add: sum_distrib_left [symmetric])
  finally show ?thesis
    using False by (metis mult_le_cancel2 neq0_conv)
qed

lemma share_left:
  assumes "books_balanced k s" "\<forall>u. claimed k s u \<le> share k s vault u"
  shows "share k s vault user - claimed k s user \<le> vault"
proof -
  let ?C = "insert user {u. claimed k s u \<noteq> 0}"
  have fin: "finite ?C"
    using assms(1) by (simp add: books_balanced_def)
  have "(\<Sum>u | claimed k s u \<noteq> 0. claimed k s u) = (\<Sum>u\<in>?C. claimed k s u)"
    using fin by (intro sum.mono_neutral_left) auto
  then have "total_claimed k s = (\<Sum>u\<in>?C. claimed k s u)"
    using assms(1) by (simp only: books_balanced_def)
  then have "total_claimed k s = claimed k s user + (\<Sum>u\<in>?C - {user}. claimed k s u)"
    using sum.remove [OF fin, of user "claimed k s"] by simp
  moreover have "(\<Sum>u\<in>?C - {user}. claimed k s u) \<le> (\<Sum>u\<in>?C - {user}. share k s vault u)"
    using assms(2) by (intro sum_mono) blast
  moreover have "share k s vault user + (\<Sum>u\<in>?C - {user}. share k s vault u) \<le> total_claimed k s + vault"
    using share_sum_le [OF assms(1) fin, of vault] sum.remove [OF fin, of user "share k s vault"] by simp
  ultimately show ?thesis by linarith
qed


definition demo_pool :: "nat \<Rightarrow> Pool" where
  "demo_pool t = \<lparr>pool_bump = 255, pool_index = 0, pool_authority = [8], pool_collateral_mint = [3], pool_max_deposit = 1000,
     pool_total_deposited = t, pool_total_extracted = 0, pool_claiming_enabled = True, pool_redeemable_mint = [4],
     pool_total_claimed = 0, pool_freeze = False, pool_metadata = \<lparr>pm_length = 0, pm_bytes = []\<rparr>\<rparr>"

definition demo_tokens :: "nat \<Rightarrow> ledger" where
  "demo_tokens n = [[7, 4, 9] \<mapsto> \<lparr>ta_mint = [4], ta_owner = [9], ta_delegate = None, ta_amount = n\<rparr>,
     [7, 3, 9] \<mapsto> \<lparr>ta_mint = [3], ta_owner = [9], ta_delegate = None, ta_amount = 0\<rparr>,
     [10] \<mapsto> \<lparr>ta_mint = [4], ta_owner = [1], ta_delegate = None, ta_amount = 0\<rparr>,
     [11] \<mapsto> \<lparr>ta_mint = [4], ta_owner = [2], ta_delegate = None, ta_amount = 0\<rparr>,
     [12] \<mapsto> \<lparr>ta_mint = [3], ta_owner = [2], ta_delegate = None, ta_amount = 100\<rparr>]"

definition demo_lent :: "nat \<Rightarrow> nat \<Rightarrow> mining" where
  "demo_lent a b = \<lparr>mp_pools = [[9] \<mapsto> demo_pool (a + b)],
     mp_lenders = [([9], [1]) \<mapsto> \<lparr>lender_bump = 255, lender_deposited = a, lender_claimed = 0\<rparr>,
                   ([9], [2]) \<mapsto> \<lparr>lender_bump = 255, lender_deposited = b, lender_claimed = 0\<rparr>],
     mp_ledger = demo_tokens 100\<rparr>"


text \<open>
  Deposits after the first claims break the shares. \<open>lender_deposit\<close> does not look at
  \<open>claiming_enabled\<close>: after the only lender has claimed everything that was paid back, somebody else can
  still deposit as much; its share is then half of what was paid back, the check of the claim accepts
  that amount, and the transfer fails because the vault is empty.
\<close>

theorem late_deposit_unpayable:
  "\<exists>s1 s2. lender_claim demo_runtime [1] [10] [9] [7, 4, 9] [4] 100 (demo_lent 100 0) = Ok s1
     \<and> lender_deposit demo_runtime [2] [12] [9] [7, 3, 9] 100 s1 = Ok s2
     \<and> share [9] s2 (balance (mp_ledger s2) [7, 4, 9]) [2] = 50 \<and> claimed [9] s2 [2] = 0
     \<and> lender_claim demo_runtime [2] [11] [9] [7, 4, 9] [4] 50 s2 = Err TokenTransferFailed"
  by (simp add: lender_claim_def lender_deposit_def demo_lent_def demo_pool_def demo_tokens_def demo_runtime_def
      wallet_account_def vault_account_def claimable_redeemable_def demo_transfer_def share_def pool_amounts balance_def
      rust_ctrl rust_arith del: rbind_eq_Ok)

end
