(* ===== verification/Download_Scheduler.thy ===== *)
theory Download_Scheduler
  imports Ieee "HOL-Library.Sublist"
begin

text \<open>
  The actor that limits concurrent downloads and keeps the failed ones for retries
  (shared/network/src/download/scheduler.rs). It handles one message after the other, so its state is passed
  from message to message. Tickets and tags come from the iroh-blobs crate and are type variables, with the
  hash of a ticket as an argument. A response channel is a number; whether its receiver still waits, the
  time, and the order in which the hash map is iterated are arguments of each message. Durations and
  instants are in nanoseconds.
\<close>

section \<open>Messages\<close>

datatype ModelRequestType = ReqConfig | ReqParameter string

datatype DownloadType = DistroResult "bytes list" | ModelSharing ModelRequestType

record RetryConfig =
  rc_backoff_base :: nat
  rc_max_distro_retries :: nat

definition RetryConfig_default :: RetryConfig where
  "RetryConfig_default = \<lparr>rc_backoff_base = 2 * 10 ^ 9, rc_max_distro_retries = 3\<rparr>"

record ('t, 'g) RetryEntry =
  re_retries :: nat
  re_retry_time :: "nat option"
  re_ticket :: 't
  re_tag :: 'g
  re_download_type :: DownloadType

datatype RetryQueueResult = Queued | MaxRetriesExceeded

record ('t, 'g) ReadyRetry =
  rr_hash :: bytes
  rr_ticket :: 't
  rr_tag :: 'g
  rr_download_type :: DownloadType
  rr_retries :: nat

definition into_ready_retry :: "bytes \<Rightarrow> ('t, 'g) RetryEntry \<Rightarrow> ('t, 'g) ReadyRetry" where
  "into_ready_retry h e = \<lparr>rr_hash = h, rr_ticket = re_ticket e, rr_tag = re_tag e, rr_download_type = re_download_type e, rr_retries = re_retries e\<rparr>"

datatype ('t, 'g) SchedulerMessage =
  WaitForCapacity nat
| ReleaseCapacity
| QueueFailedDownload 't 'g DownloadType
| RemoveRetry bytes
| StartParameterRetry
| GetDueConfigRetries
| GetDueDistroRetries

text \<open>What the actor sends: a grant of capacity to a requester, or the answer to a request.\<close>

datatype ('t, 'g) Response =
  Granted nat
| QueueResult RetryQueueResult
| Removed bool
| ParameterRetry "('t, 'g) ReadyRetry option"
| DueRetries "('t, 'g) ReadyRetry list"

record ('t, 'g) DownloadSchedulerActor =
  ds_active_downloads :: nat
  ds_max_concurrent :: nat
  ds_waiting_for_capacity :: "nat list"
  ds_retry_entries :: "bytes \<rightharpoonup> ('t, 'g) RetryEntry"
  ds_retry_config :: RetryConfig

definition scheduler_new :: "nat \<Rightarrow> RetryConfig \<Rightarrow> ('t, 'g) DownloadSchedulerActor" where
  "scheduler_new max_concurrent retry_config = \<lparr>ds_active_downloads = 0, ds_max_concurrent = max_concurrent,
     ds_waiting_for_capacity = [], ds_retry_entries = Map.empty, ds_retry_config = retry_config\<rparr>"

text \<open>What surrounds a message.\<close>

record env =
  env_alive :: "nat \<Rightarrow> bool"
  env_now :: nat
  env_order :: "bytes list"

section \<open>The handler\<close>

text \<open>\<open>Duration::mul_f32\<close> of the standard library, which computes in \<open>f32\<close> and rounds to nanoseconds.\<close>

definition as_secs_f32 :: "nat \<Rightarrow> fp" where
  "as_secs_f32 d = fp_add f32 (fp_round f32 (of_nat (d div 10 ^ 9)))
     (fp_div f32 (fp_round f32 (of_nat (d mod 10 ^ 9))) (fp_round f32 (10 ^ 9)))"

definition from_secs_f32 :: "fp \<Rightarrow> ('e, nat) res" where
  "from_secs_f32 a = (case a of
       Fin x \<Rightarrow> if x < 0 \<or> 2 ^ 64 \<le> x then Panic else Ok (nat (round_half_even (x * 10 ^ 9)))
     | Inf _ \<Rightarrow> Panic | NaN \<Rightarrow> Panic)"

definition mul_f32 :: "nat \<Rightarrow> fp \<Rightarrow> ('e, nat) res" where
  "mul_f32 d rhs = from_secs_f32 (fp_mul f32 rhs (as_secs_f32 d))"

text \<open>\<open>2_f32.powi(n as i32)\<close>, with the wrap-around of the cast.\<close>

definition powi_f32 :: "nat \<Rightarrow> fp" where
  "powi_f32 n = (let k = n mod 2 ^ 32 in
     if k < 2 ^ 31 then fp_round f32 (2 ^ k) else fp_div f32 (fp_round f32 1) (fp_round f32 (2 ^ (2 ^ 32 - k))))"

primrec notify_next_waiter ::
  "(nat \<Rightarrow> bool) \<Rightarrow> nat list \<Rightarrow> ('t, 'g) DownloadSchedulerActor \<Rightarrow> ('t, 'g) Response list \<times> ('t, 'g) DownloadSchedulerActor" where
  "notify_next_waiter alive [] s = ([], s\<lparr>ds_waiting_for_capacity := []\<rparr>)"
| "notify_next_waiter alive (waiter # waiting) s =
     (if alive waiter
      then ([Granted waiter], s\<lparr>ds_waiting_for_capacity := waiting, ds_active_downloads := ds_active_downloads s + 1\<rparr>)
      else notify_next_waiter alive waiting s)"

text \<open>The entries that satisfy a predicate, taken out in the order of the map.\<close>

primrec take_out :: "bytes list \<Rightarrow> (bytes \<rightharpoonup> ('t, 'g) RetryEntry) \<Rightarrow> ('t, 'g) ReadyRetry list \<times> (bytes \<rightharpoonup> ('t, 'g) RetryEntry)" where
  "take_out [] m = ([], m)"
| "take_out (h # hs) m =
     (let (rs, m') = take_out hs (m(h := None)) in
      (case m h of Some e \<Rightarrow> into_ready_retry h e # rs | None \<Rightarrow> rs, m'))"

definition drain_retries ::
  "(('t, 'g) RetryEntry \<Rightarrow> bool) \<Rightarrow> bytes list \<Rightarrow> ('t, 'g) DownloadSchedulerActor \<Rightarrow> ('t, 'g) ReadyRetry list \<times> ('t, 'g) DownloadSchedulerActor" where
  "drain_retries P order s =
     (let due_hashes = filter (\<lambda>h. case ds_retry_entries s h of Some e \<Rightarrow> P e | None \<Rightarrow> False) order;
          (rs, m) = take_out due_hashes (ds_retry_entries s)
      in (rs, s\<lparr>ds_retry_entries := m\<rparr>))"

definition is_parameter_due :: "nat \<Rightarrow> ('t, 'g) RetryEntry \<Rightarrow> bool" where
  "is_parameter_due now e \<longleftrightarrow> (case re_download_type e of ModelSharing (ReqParameter _) \<Rightarrow> True | _ \<Rightarrow> False)
     \<and> (case re_retry_time e of Some t \<Rightarrow> t \<le> now | None \<Rightarrow> True)"

definition is_config :: "('t, 'g) RetryEntry \<Rightarrow> bool" where
  "is_config e \<longleftrightarrow> re_download_type e = ModelSharing ReqConfig"

definition is_distro_due :: "nat \<Rightarrow> ('t, 'g) RetryEntry \<Rightarrow> bool" where
  "is_distro_due now e \<longleftrightarrow> (case re_download_type e of DistroResult _ \<Rightarrow> True | ModelSharing _ \<Rightarrow> False)
     \<and> (case re_retry_time e of Some t \<Rightarrow> t \<le> now | None \<Rightarrow> False)"

definition queue_failed_download ::
  "('t \<Rightarrow> bytes) \<Rightarrow> nat \<Rightarrow> 't \<Rightarrow> 'g \<Rightarrow> DownloadType \<Rightarrow> ('t, 'g) DownloadSchedulerActor
   \<Rightarrow> (unit, RetryQueueResult \<times> ('t, 'g) DownloadSchedulerActor) res" where
  "queue_failed_download hash_of now ticket tag download_type s =
     (let h = hash_of ticket;
          prev_retries = (case ds_retry_entries s h of Some e \<Rightarrow> re_retries e | None \<Rightarrow> 0);
          new_retries = prev_retries + 1
      in case download_type of
           ModelSharing _ \<Rightarrow>
             Ok (Queued, s\<lparr>ds_retry_entries := (ds_retry_entries s)(h \<mapsto> \<lparr>re_retries = new_retries, re_retry_time = None,
               re_ticket = ticket, re_tag = tag, re_download_type = download_type\<rparr>)\<rparr>)
         | DistroResult _ \<Rightarrow>
             if rc_max_distro_retries (ds_retry_config s) < new_retries
             then Ok (MaxRetriesExceeded, s\<lparr>ds_retry_entries := (ds_retry_entries s)(h := None)\<rparr>)
             else
               rbind (mul_f32 (rc_backoff_base (ds_retry_config s)) (powi_f32 prev_retries)) (\<lambda>backoff.
                 Ok (Queued, s\<lparr>ds_retry_entries := (ds_retry_entries s)(h \<mapsto> \<lparr>re_retries = new_retries, re_retry_time = Some (now + backoff),
                   re_ticket = ticket, re_tag = tag, re_download_type = download_type\<rparr>)\<rparr>)))"

definition start_parameter_retry ::
  "env \<Rightarrow> ('t, 'g) DownloadSchedulerActor \<Rightarrow> ('t, 'g) ReadyRetry option \<times> ('t, 'g) DownloadSchedulerActor" where
  "start_parameter_retry E s =
     (if ds_max_concurrent s \<le> ds_active_downloads s then (None, s)
      else case find (\<lambda>h. case ds_retry_entries s h of Some e \<Rightarrow> is_parameter_due (env_now E) e | None \<Rightarrow> False) (env_order E) of
        Some h \<Rightarrow> (map_option (into_ready_retry h) (ds_retry_entries s h),
          s\<lparr>ds_active_downloads := ds_active_downloads s + 1, ds_retry_entries := (ds_retry_entries s)(h := None)\<rparr>)
      | None \<Rightarrow> (None, s))"

definition handle_message ::
  "('t \<Rightarrow> bytes) \<Rightarrow> env \<Rightarrow> ('t, 'g) SchedulerMessage \<Rightarrow> ('t, 'g) DownloadSchedulerActor
   \<Rightarrow> (unit, ('t, 'g) Response list \<times> ('t, 'g) DownloadSchedulerActor) res" where
  "handle_message hash_of E message s =
     (case message of
        WaitForCapacity response \<Rightarrow>
          Ok (if ds_active_downloads s < ds_max_concurrent s
              then (if env_alive E response then [Granted response] else [], s\<lparr>ds_active_downloads := ds_active_downloads s + 1\<rparr>)
              else ([], s\<lparr>ds_waiting_for_capacity := ds_waiting_for_capacity s @ [response]\<rparr>))
      | ReleaseCapacity \<Rightarrow>
          Ok (notify_next_waiter (env_alive E) (ds_waiting_for_capacity s) (s\<lparr>ds_active_downloads := ds_active_downloads s - 1\<rparr>))
      | QueueFailedDownload ticket tag download_type \<Rightarrow>
          rbind (queue_failed_download hash_of (env_now E) ticket tag download_type s) (\<lambda>(r, s'). Ok ([QueueResult r], s'))
      | RemoveRetry h \<Rightarrow>
          Ok ([Removed (ds_retry_entries s h \<noteq> None)], s\<lparr>ds_retry_entries := (ds_retry_entries s)(h := None)\<rparr>)
      | StartParameterRetry \<Rightarrow> Ok (let (r, s') = start_parameter_retry E s in ([ParameterRetry r], s'))
      | GetDueConfigRetries \<Rightarrow> Ok (let (rs, s') = drain_retries is_config (env_order E) s in ([DueRetries rs], s'))
      | GetDueDistroRetries \<Rightarrow> Ok (let (rs, s') = drain_retries (is_distro_due (env_now E)) (env_order E) s in ([DueRetries rs], s')))"

text \<open>The messages of the actor one after the other, with what it answered.\<close>

inductive serves :: "('t \<Rightarrow> bytes) \<Rightarrow> ('t, 'g) DownloadSchedulerActor \<Rightarrow> (env \<times> ('t, 'g) SchedulerMessage) list
  \<Rightarrow> ('t, 'g) Response list \<Rightarrow> ('t, 'g) DownloadSchedulerActor \<Rightarrow> bool" for hash_of s where
  serves_none: "serves hash_of s [] [] s"
| serves_more: "serves hash_of s ms rs s' \<Longrightarrow> handle_message hash_of E m s' = Ok (r, s'') \<Longrightarrow> distinct (env_order E) \<Longrightarrow>
    set (env_order E) = dom (ds_retry_entries s') \<Longrightarrow> serves hash_of s (ms @ [(E, m)]) (rs @ r) s''"


section \<open>Capacity\<close>

text \<open>The requesters in the order they asked, and in the order they were served.\<close>

definition requested :: "(env \<times> ('t, 'g) SchedulerMessage) list \<Rightarrow> nat list" where
  "requested ms = concat (map (\<lambda>(E, m). case m of WaitForCapacity w \<Rightarrow> [w] | _ \<Rightarrow> []) ms)"

definition granted :: "('t, 'g) Response list \<Rightarrow> nat list" where
  "granted rs = concat (map (\<lambda>r. case r of Granted w \<Rightarrow> [w] | _ \<Rightarrow> []) rs)"

definition takes_slot :: "('t, 'g) Response \<Rightarrow> bool" where
  "takes_slot r = (case r of Granted _ \<Rightarrow> True | ParameterRetry (Some _) \<Rightarrow> True | _ \<Rightarrow> False)"

definition slots_taken :: "('t, 'g) Response list \<Rightarrow> nat" where
  "slots_taken rs = length (filter takes_slot rs)"

definition releases :: "(env \<times> ('t, 'g) SchedulerMessage) list \<Rightarrow> nat" where
  "releases ms = length (filter (\<lambda>(E, m). m = ReleaseCapacity) ms)"

definition capacity_ok :: "('t, 'g) DownloadSchedulerActor \<Rightarrow> bool" where
  "capacity_ok s \<longleftrightarrow> 0 < ds_max_concurrent s \<and> ds_active_downloads s \<le> ds_max_concurrent s
     \<and> (ds_waiting_for_capacity s \<noteq> [] \<longrightarrow> ds_active_downloads s = ds_max_concurrent s)"

lemmas trace_defs = requested_def granted_def slots_taken_def takes_slot_def releases_def

lemma trace_append [simp]:
  "requested (ms @ ms') = requested ms @ requested ms'"
  "granted (rs @ rs') = granted rs @ granted rs'"
  "slots_taken (rs @ rs') = slots_taken rs + slots_taken rs'"
  "releases (ms @ ms') = releases ms + releases ms'"
  by (simp_all add: trace_defs)

lemma trace_simps [simp]:
  "requested [] = []" "requested [(E, m)] = (case m of WaitForCapacity w \<Rightarrow> [w] | _ \<Rightarrow> [])"
  "granted [] = []" "granted [r] = (case r of Granted w \<Rightarrow> [w] | _ \<Rightarrow> [])"
  "slots_taken [] = 0" "slots_taken [r] = (if takes_slot r then 1 else 0)"
  "releases [] = 0" "releases [(E, m)] = (if m = ReleaseCapacity then 1 else 0)"
  "takes_slot (Granted w)" "takes_slot (ParameterRetry q) \<longleftrightarrow> q \<noteq> None"
  "\<not> takes_slot (QueueResult x)" "\<not> takes_slot (Removed b)" "\<not> takes_slot (DueRetries ds)"
  by (auto simp: trace_defs split: SchedulerMessage.split Response.split option.split)

lemma notify_next_waiter_find:
  "notify_next_waiter alive ws s =
     (case dropWhile (\<lambda>w. \<not> alive w) ws of
        [] \<Rightarrow> ([], s\<lparr>ds_waiting_for_capacity := []\<rparr>)
      | w # rest \<Rightarrow> ([Granted w], s\<lparr>ds_waiting_for_capacity := rest, ds_active_downloads := ds_active_downloads s + 1\<rparr>))"
  by (induction ws) auto

lemma queue_failed_capacity:
  assumes "queue_failed_download hash_of now t g d s = Ok (r, s')"
  shows "ds_active_downloads s' = ds_active_downloads s" "ds_max_concurrent s' = ds_max_concurrent s"
    "ds_waiting_for_capacity s' = ds_waiting_for_capacity s" "ds_retry_config s' = ds_retry_config s"
  using assms by (auto simp: queue_failed_download_def Let_def split: DownloadType.splits if_splits)

lemma drain_retries_capacity:
  assumes "drain_retries P order s = (rs, s')"
  shows "ds_active_downloads s' = ds_active_downloads s" "ds_max_concurrent s' = ds_max_concurrent s"
    "ds_waiting_for_capacity s' = ds_waiting_for_capacity s" "ds_retry_config s' = ds_retry_config s"
  using assms by (auto simp: drain_retries_def Let_def split: prod.splits)

lemma start_parameter_retry_capacity:
  assumes "start_parameter_retry E s = (r, s')"
  shows "ds_max_concurrent s' = ds_max_concurrent s" "ds_waiting_for_capacity s' = ds_waiting_for_capacity s"
    "ds_retry_config s' = ds_retry_config s"
    "s' = s \<and> r = None \<or> ds_active_downloads s < ds_max_concurrent s \<and> ds_active_downloads s' = ds_active_downloads s + 1"
  using assms by (auto simp: start_parameter_retry_def split: if_splits option.splits)

lemma handle_message_config:
  "handle_message hash_of E m s = Ok (rs, s') \<Longrightarrow> ds_retry_config s' = ds_retry_config s"
  by (cases m) (auto simp: handle_message_def notify_next_waiter_find queue_failed_capacity start_parameter_retry_capacity
      drain_retries_capacity split: if_splits list.splits prod.splits)

text \<open>One message: the invariant is kept, the served requesters come before the waiting ones, and each slot
  taken is one more active download or one release.\<close>

lemma handle_message_capacity:
  assumes h: "handle_message hash_of E m s = Ok (rs, s')" and ok: "capacity_ok s"
  shows "capacity_ok s' \<and> ds_max_concurrent s' = ds_max_concurrent s \<and> ds_retry_config s' = ds_retry_config s
    \<and> subseq (granted rs @ ds_waiting_for_capacity s') (ds_waiting_for_capacity s @ requested [(E, m)])
    \<and> slots_taken rs + ds_active_downloads s \<le> ds_active_downloads s' + releases [(E, m)]"
proof (cases m)
  case (WaitForCapacity w)
  then show ?thesis using h ok by (auto simp: handle_message_def capacity_ok_def split: if_splits)
next
  case ReleaseCapacity
  have sub: "subseq (dropWhile (\<lambda>w. \<not> env_alive E w) ws) ws" for ws :: "nat list"
    by (metis subseq_drop_many subseq_order.refl takeWhile_dropWhile_id)
  show ?thesis
  proof (cases "dropWhile (\<lambda>w. \<not> env_alive E w) (ds_waiting_for_capacity s)")
    case Nil
    then have "rs = []" "s' = s\<lparr>ds_active_downloads := ds_active_downloads s - 1, ds_waiting_for_capacity := []\<rparr>"
      using h ReleaseCapacity by (simp_all add: handle_message_def notify_next_waiter_find del: dropWhile_eq_Nil_conv)
    then show ?thesis using ok ReleaseCapacity by (auto simp: capacity_ok_def)
  next
    case (Cons w rest)
    then have "rs = [Granted w]" "s' = s\<lparr>ds_active_downloads := ds_active_downloads s - 1 + 1, ds_waiting_for_capacity := rest\<rparr>"
      using h ReleaseCapacity by (auto simp: handle_message_def notify_next_waiter_find)
    moreover have "ds_waiting_for_capacity s \<noteq> []" using Cons by auto
    ultimately show ?thesis using ok ReleaseCapacity Cons sub [of "ds_waiting_for_capacity s"]
      by (auto simp: capacity_ok_def)
  qed
next
  case (QueueFailedDownload t g d)
  then show ?thesis using h ok
    by (auto simp: handle_message_def capacity_ok_def queue_failed_capacity)
next
  case (RemoveRetry x)
  then show ?thesis using h ok by (auto simp: handle_message_def capacity_ok_def)
next
  case StartParameterRetry
  obtain r s1 where r: "start_parameter_retry E s = (r, s1)" by fastforce
  note facts = start_parameter_retry_capacity [OF r]
  show ?thesis using h ok StartParameterRetry r facts
    by (auto simp: handle_message_def capacity_ok_def)
next
  case GetDueConfigRetries
  obtain ds s1 where "drain_retries is_config (env_order E) s = (ds, s1)" by fastforce
  then show ?thesis using h ok GetDueConfigRetries drain_retries_capacity [of is_config "env_order E" s ds s1]
    by (auto simp: handle_message_def capacity_ok_def)
next
  case GetDueDistroRetries
  obtain ds s1 where "drain_retries (is_distro_due (env_now E)) (env_order E) s = (ds, s1)" by fastforce
  then show ?thesis
    using h ok GetDueDistroRetries drain_retries_capacity [of "is_distro_due (env_now E)" "env_order E" s ds s1]
    by (auto simp: handle_message_def capacity_ok_def)
qed

lemma serves_capacity:
  assumes "serves hash_of s0 ms rs s" and "s0 = scheduler_new n c" and "0 < n"
  shows "capacity_ok s \<and> ds_max_concurrent s = n \<and> ds_retry_config s = c
    \<and> subseq (granted rs @ ds_waiting_for_capacity s) (requested ms) \<and> slots_taken rs \<le> ds_active_downloads s + releases ms"
  using assms
proof (induction rule: serves.induct)
  case serves_none
  then show ?case by (simp add: scheduler_new_def capacity_ok_def)
next
  case (serves_more ms rs s' E m r s'')
  from serves_more.IH serves_more.prems have ih: "capacity_ok s'" "ds_max_concurrent s' = n" "ds_retry_config s' = c"
    "subseq (granted rs @ ds_waiting_for_capacity s') (requested ms)" "slots_taken rs \<le> ds_active_downloads s' + releases ms"
    by auto
  note step = handle_message_capacity [OF serves_more.hyps(2) ih(1)]
  have "subseq (granted rs @ granted r @ ds_waiting_for_capacity s'')
      (granted rs @ ds_waiting_for_capacity s' @ requested [(E, m)])"
    using step by (intro list_emb_append_mono [OF subseq_order.refl]) blast
  also have "subseq (granted rs @ ds_waiting_for_capacity s' @ requested [(E, m)]) (requested ms @ requested [(E, m)])"
    using list_emb_append_mono [OF ih(4), of "requested [(E, m)]" "requested [(E, m)]"] by simp
  finally (subseq_order.trans) show ?case using step ih by (simp del: trace_simps)
qed

section \<open>Retries\<close>

text \<open>An entry stands under the hash of its ticket; one for a distro result has a time and at most the
  allowed number of retries.\<close>

definition entry_ok :: "('t \<Rightarrow> bytes) \<Rightarrow> RetryConfig \<Rightarrow> bytes \<Rightarrow> ('t, 'g) RetryEntry \<Rightarrow> bool" where
  "entry_ok hash_of c h e \<longleftrightarrow> hash_of (re_ticket e) = h \<and> 1 \<le> re_retries e
     \<and> (case re_download_type e of DistroResult _ \<Rightarrow> re_retry_time e \<noteq> None \<and> re_retries e \<le> rc_max_distro_retries c
         | ModelSharing _ \<Rightarrow> re_retry_time e = None)"

lemma take_out_entries:
  "take_out hs m = (rs, m') \<Longrightarrow> m' = m |` (- set hs)"
proof (induction hs arbitrary: m rs m')
  case (Cons h hs)
  then obtain rs1 where "take_out hs (m(h := None)) = (rs1, m')" by (auto simp: Let_def split: prod.splits)
  from Cons.IH [OF this] show ?case by (auto simp: restrict_map_def)
qed (simp add: restrict_map_def)

lemma take_out_retries:
  "distinct hs \<Longrightarrow> fst (take_out hs m) = map (\<lambda>h. into_ready_retry h (the (m h))) (filter (\<lambda>h. m h \<noteq> None) hs)"
proof (induction hs arbitrary: m)
  case (Cons h hs)
  have "map (\<lambda>x. into_ready_retry x (the ((m(h := None)) x))) (filter (\<lambda>x. (m(h := None)) x \<noteq> None) hs)
      = map (\<lambda>x. into_ready_retry x (the (m x))) (filter (\<lambda>x. m x \<noteq> None) hs)"
    using Cons.prems by (intro map_cong filter_cong) auto
  moreover have "fst (take_out (h # hs) m)
      = (case m h of Some e \<Rightarrow> into_ready_retry h e # fst (take_out hs (m(h := None))) | None \<Rightarrow> fst (take_out hs (m(h := None))))"
    by (simp add: Let_def case_prod_unfold split: option.split)
  moreover have "fst (take_out hs (m(h := None)))
      = map (\<lambda>x. into_ready_retry x (the ((m(h := None)) x))) (filter (\<lambda>x. (m(h := None)) x \<noteq> None) hs)"
    using Cons.prems by (intro Cons.IH) simp
  ultimately have "fst (take_out (h # hs) m) = (let rs = map (\<lambda>x. into_ready_retry x (the (m x))) (filter (\<lambda>x. m x \<noteq> None) hs)
      in case m h of Some e \<Rightarrow> into_ready_retry h e # rs | None \<Rightarrow> rs)"
    by (simp only: Let_def)
  then show ?case by (auto simp: Let_def split: option.splits)
qed simp

text \<open>A drain hands out the entries of its kind, each once and in the order of the map, and keeps the others.\<close>

lemma drain_retries_exact:
  assumes "distinct order" and "set order = dom (ds_retry_entries s)" and "drain_retries P order s = (rs, s')"
  shows "ds_retry_entries s' h = (case ds_retry_entries s h of Some e \<Rightarrow> if P e then None else Some e | None \<Rightarrow> None)"
    and "rs = map (\<lambda>h. into_ready_retry h (the (ds_retry_entries s h))) (filter (\<lambda>h. P (the (ds_retry_entries s h))) order)"
proof -
  define due where "due = filter (\<lambda>h. case ds_retry_entries s h of Some e \<Rightarrow> P e | None \<Rightarrow> False) order"
  obtain m where t: "take_out due (ds_retry_entries s) = (rs, m)" and s': "s' = s\<lparr>ds_retry_entries := m\<rparr>"
    using assms(3) by (auto simp: drain_retries_def due_def Let_def split: prod.splits)
  have mem: "h \<in> set due \<longleftrightarrow> (\<exists>e. ds_retry_entries s h = Some e \<and> P e)" for h
    using assms(2) by (auto simp: due_def split: option.splits)
  show "ds_retry_entries s' h = (case ds_retry_entries s h of Some e \<Rightarrow> if P e then None else Some e | None \<Rightarrow> None)"
    using take_out_entries [OF t] mem [of h] s' by (auto simp: restrict_map_def split: option.splits)
  have due_eq: "due = filter (\<lambda>h. P (the (ds_retry_entries s h))) order"
    unfolding due_def by (rule filter_cong) (use assms(2) in \<open>auto split: option.splits\<close>)
  have "rs = map (\<lambda>h. into_ready_retry h (the (ds_retry_entries s h))) (filter (\<lambda>h. ds_retry_entries s h \<noteq> None) due)"
    using take_out_retries [of due "ds_retry_entries s"] t assms(1) by (simp add: due_def)
  also have "filter (\<lambda>h. ds_retry_entries s h \<noteq> None) due = due" using mem by (auto intro!: filter_True)
  finally show "rs = map (\<lambda>h. into_ready_retry h (the (ds_retry_entries s h))) (filter (\<lambda>h. P (the (ds_retry_entries s h))) order)"
    by (simp add: due_eq)
qed

lemma drain_retries_subset:
  "drain_retries P order s = (rs, s') \<Longrightarrow> ds_retry_entries s' \<subseteq>\<^sub>m ds_retry_entries s"
  by (auto simp: drain_retries_def Let_def map_le_def restrict_map_def dest!: take_out_entries split: prod.splits if_splits)

lemma queue_failed_entries:
  assumes "queue_failed_download hash_of now t g d s = Ok (r, s')" and "ds_retry_entries s' h = Some e"
  shows "ds_retry_entries s h = Some e \<or> entry_ok hash_of (ds_retry_config s) h e"
  using assms by (cases "h = hash_of t")
    (auto simp: queue_failed_download_def entry_ok_def Let_def split: DownloadType.splits if_splits)

lemma handle_message_entries:
  assumes "handle_message hash_of E m s = Ok (rs, s')" and "\<And>h e. ds_retry_entries s h = Some e \<Longrightarrow> entry_ok hash_of (ds_retry_config s) h e"
    and "ds_retry_entries s' h = Some e"
  shows "entry_ok hash_of (ds_retry_config s) h e"
proof (cases m)
  case (WaitForCapacity w)
  then show ?thesis using assms by (auto simp: handle_message_def split: if_splits)
next
  case ReleaseCapacity
  then show ?thesis using assms
    by (auto simp: handle_message_def notify_next_waiter_find split: list.splits)
next
  case (QueueFailedDownload t g d)
  then obtain r where "queue_failed_download hash_of (env_now E) t g d s = Ok (r, s')"
    using assms(1) by (auto simp: handle_message_def)
  from queue_failed_entries [OF this assms(3)] show ?thesis using assms(2) by auto
next
  case (RemoveRetry x)
  then show ?thesis using assms by (auto simp: handle_message_def split: if_splits)
next
  case StartParameterRetry
  then show ?thesis using assms
    by (auto simp: handle_message_def start_parameter_retry_def split: if_splits option.splits)
next
  case GetDueConfigRetries
  obtain ds s1 where d: "drain_retries is_config (env_order E) s = (ds, s1)" by fastforce
  then have "s' = s1" using assms(1) GetDueConfigRetries by (simp add: handle_message_def)
  then have "ds_retry_entries s h = Some e" using assms(3) drain_retries_subset [OF d] by (force simp: map_le_def dom_def)
  then show ?thesis by (rule assms(2))
next
  case GetDueDistroRetries
  obtain ds s1 where d: "drain_retries (is_distro_due (env_now E)) (env_order E) s = (ds, s1)" by fastforce
  then have "s' = s1" using assms(1) GetDueDistroRetries by (simp add: handle_message_def)
  then have "ds_retry_entries s h = Some e" using assms(3) drain_retries_subset [OF d] by (force simp: map_le_def dom_def)
  then show ?thesis by (rule assms(2))
qed


lemma serves_entries:
  assumes "serves hash_of s0 ms rs s" and "s0 = scheduler_new n c" and "ds_retry_entries s h = Some e"
  shows "entry_ok hash_of c h e"
proof -
  from assms(1,2) have "ds_retry_config s = c \<and> (\<forall>h e. ds_retry_entries s h = Some e \<longrightarrow> entry_ok hash_of c h e)"
  proof (induction rule: serves.induct)
    case serves_none
    then show ?case by (simp add: scheduler_new_def)
  next
    case (serves_more ms rs s' E m r s'')
    then have ih: "ds_retry_config s' = c" "\<And>h e. ds_retry_entries s' h = Some e \<Longrightarrow> entry_ok hash_of c h e" by auto
    then show ?case using handle_message_entries [OF serves_more.hyps(2)] handle_message_config [OF serves_more.hyps(2)] by auto
  qed
  then show ?thesis using assms(3) by blast
qed

section \<open>What the scheduler promises\<close>

text \<open>
  (C35) Whatever the scheduler is asked from its start, it never counts more downloads than its limit, lets a
  requester wait only while the limit is reached, has handed out at most the limit more slots than were
  released, and serves the requesters in the order they asked.
\<close>

theorem downloads_capped:
  assumes "serves hash_of (scheduler_new n c) ms rs s" and "0 < n"
  shows "ds_active_downloads s \<le> n
    \<and> (ds_waiting_for_capacity s = [] \<or> ds_active_downloads s = n)
    \<and> slots_taken rs \<le> n + releases ms
    \<and> subseq (granted rs @ ds_waiting_for_capacity s) (requested ms)"
  using serves_capacity [OF assms(1) refl assms(2)] by (auto simp: capacity_ok_def)

definition demo_env :: "nat \<Rightarrow> bytes list \<Rightarrow> env" where
  "demo_env now order = \<lparr>env_alive = (\<lambda>w. w \<noteq> 2), env_now = now, env_order = order\<rparr>"

definition demo_served :: "(bytes, nat) DownloadSchedulerActor" where
  "demo_served = (scheduler_new 1 RetryConfig_default)\<lparr>ds_active_downloads := 1\<rparr>"

lemma demo_serves:
  "serves (\<lambda>t. t) (scheduler_new 1 RetryConfig_default)
     [(demo_env 0 [], WaitForCapacity 1), (demo_env 0 [], WaitForCapacity 2), (demo_env 0 [], WaitForCapacity 3), (demo_env 0 [], ReleaseCapacity)]
     [Granted 1, Granted 3] demo_served"
proof -
  let ?s = "scheduler_new 1 RetryConfig_default :: (bytes, nat) DownloadSchedulerActor"
  note step = serves_more [where E = "demo_env 0 []"]
  note unf = scheduler_new_def demo_env_def handle_message_def demo_served_def
  have 1: "serves (\<lambda>t. t) ?s ([] @ [(demo_env 0 [], WaitForCapacity 1)]) ([] @ [Granted 1]) (?s\<lparr>ds_active_downloads := 1\<rparr>)"
    by (rule step [OF serves_none]) (simp_all add: unf)
  have 2: "serves (\<lambda>t. t) ?s (([] @ [(demo_env 0 [], WaitForCapacity 1)]) @ [(demo_env 0 [], WaitForCapacity 2)]) (([] @ [Granted 1]) @ [])
     (?s\<lparr>ds_active_downloads := 1, ds_waiting_for_capacity := [2]\<rparr>)"
    by (rule step [OF 1]) (simp_all add: unf)
  have 3: "serves (\<lambda>t. t) ?s ((([] @ [(demo_env 0 [], WaitForCapacity 1)]) @ [(demo_env 0 [], WaitForCapacity 2)]) @ [(demo_env 0 [], WaitForCapacity 3)])
     ((([] @ [Granted 1]) @ []) @ []) (?s\<lparr>ds_active_downloads := 1, ds_waiting_for_capacity := [2, 3]\<rparr>)"
    by (rule step [OF 2]) (simp_all add: unf)
  have "handle_message (\<lambda>t. t) (demo_env 0 []) ReleaseCapacity (?s\<lparr>ds_active_downloads := 1, ds_waiting_for_capacity := [2, 3]\<rparr>)
      = Ok ([Granted 3], demo_served)"
    by (simp add: unf)
  from step [OF 3 this] show ?thesis by (simp add: unf)
qed

theorem downloads_capped_witness:
  "slots_taken [Granted 1, Granted 3 :: (bytes, nat) Response] = 2 \<and> slots_taken [Granted 1, Granted 3 :: (bytes, nat) Response] \<le> 1 + 1
   \<and> subseq [1, 3] [1, 2, 3 :: nat]"
  using downloads_capped [OF demo_serves] by (simp add: slots_taken_def takes_slot_def granted_def requested_def releases_def demo_served_def scheduler_new_def)

text \<open>
  A request for the due distro results takes exactly those out of the entries that are distro results
  whose time has come, each once, each tried at least once and at most as often as allowed, and each under
  the hash of its own ticket. Every other entry stays as it is.
\<close>

theorem due_retries_exact:
  assumes "serves hash_of (scheduler_new n c) ms rs s" and "distinct (env_order E)"
    and "set (env_order E) = dom (ds_retry_entries s)"
  shows "\<exists>ds s'. handle_message hash_of E GetDueDistroRetries s = Ok ([DueRetries ds], s')
    \<and> distinct (map rr_hash ds)
    \<and> set (map rr_hash ds) = {h. \<exists>e. ds_retry_entries s h = Some e \<and> is_distro_due (env_now E) e}
    \<and> list_all (\<lambda>r. hash_of (rr_ticket r) = rr_hash r \<and> 1 \<le> rr_retries r \<and> rr_retries r \<le> rc_max_distro_retries c) ds
    \<and> ds_retry_entries s' = ds_retry_entries s |` (- set (map rr_hash ds))"
proof -
  let ?P = "is_distro_due (env_now E) :: ('a, 'b) RetryEntry \<Rightarrow> bool"
  obtain ds s' where d: "drain_retries ?P (env_order E) s = (ds, s')" by fastforce
  note ex = drain_retries_exact [OF assms(2,3) d]
  have hashes: "map rr_hash ds = filter (\<lambda>h. ?P (the (ds_retry_entries s h))) (env_order E)"
    unfolding ex(2) by (simp add: comp_def into_ready_retry_def)
  have set_hashes: "set (map rr_hash ds) = {h. \<exists>e. ds_retry_entries s h = Some e \<and> ?P e}"
    unfolding hashes using assms(3) by (auto simp: dom_def)
  have "list_all (\<lambda>r. hash_of (rr_ticket r) = rr_hash r \<and> 1 \<le> rr_retries r \<and> rr_retries r \<le> rc_max_distro_retries c) ds"
  proof (unfold ex(2), clarsimp simp: list_all_iff into_ready_retry_def)
    fix h assume h: "h \<in> set (env_order E)" and due: "?P (the (ds_retry_entries s h))"
    obtain e where e: "ds_retry_entries s h = Some e" using h assms(3) by auto
    then show "hash_of (re_ticket (the (ds_retry_entries s h))) = h \<and> Suc 0 \<le> re_retries (the (ds_retry_entries s h))
      \<and> re_retries (the (ds_retry_entries s h)) \<le> rc_max_distro_retries c"
      using serves_entries [OF assms(1) refl e] due by (auto simp: entry_ok_def is_distro_due_def split: DownloadType.splits)
  qed
  moreover have "ds_retry_entries s' = ds_retry_entries s |` (- set (map rr_hash ds))"
    unfolding set_hashes by (rule ext) (auto simp: ex(1) restrict_map_def split: option.splits)
  moreover have "distinct (map rr_hash ds)" unfolding hashes using assms(2) by simp
  moreover have "handle_message hash_of E GetDueDistroRetries s = Ok ([DueRetries ds], s')" using d by (simp add: handle_message_def)
  ultimately show ?thesis using set_hashes by blast
qed

text \<open>The back-off of a whole number of seconds doubles exactly as long as it stays below \<open>2 ^ 24\<close> seconds.\<close>

lemma f32_of_nat: "n < 2 ^ 24 \<Longrightarrow> fp_round f32 (of_nat n) = Fin (of_nat n)"
proof -
  assume n: "n < 2 ^ 24"
  have "(of_nat n :: rat) < 2 ^ 24" using of_nat_less_iff [of n "2 ^ 24", where ?'a = rat] n by simp
  also have "(2 :: rat) ^ 24 \<le> 2 powi 128" by simp
  finally have "in_format f32 (of_nat n * 2 powi 0)" using n by (intro in_formatI) simp_all
  then show ?thesis using fp_round_exact [of f32 "of_nat n"] by simp
qed

lemma f32_billion: "fp_round f32 (10 ^ 9) = Fin (10 ^ 9)"
proof -
  have "in_format f32 (of_nat 1953125 * 2 powi 9)" by (intro in_formatI) simp_all
  then show ?thesis using fp_round_exact [of f32 "10 ^ 9"] by simp
qed

lemma backoff_exact:
  assumes "2 ^ k * n < 2 ^ 24" and "0 < n"
  shows "mul_f32 (n * 10 ^ 9) (powi_f32 k) = (Ok (2 ^ k * n * 10 ^ 9) :: ('e, nat) res)"
proof -
  have k: "(2 :: nat) ^ k < 2 ^ 24" by (rule le_less_trans [OF _ assms(1)]) (use assms(2) in simp)
  then have "k < 24" using power_less_imp_less_exp [of 2 k 24] by simp
  then have p: "powi_f32 k = Fin (2 ^ k)" using f32_of_nat [OF k] by (simp add: powi_f32_def)
  have n: "n < 2 ^ 24" by (rule le_less_trans [OF _ assms(1)]) simp
  have secs: "as_secs_f32 (n * 10 ^ 9) = Fin (of_nat n)"
    using f32_of_nat [OF n] f32_billion by (simp add: as_secs_f32_def)
  have prod: "fp_round f32 (2 ^ k * of_nat n) = Fin (2 ^ k * of_nat n)" using f32_of_nat [OF assms(1)] by simp
  have lt: "(2 ^ k * of_nat n :: rat) < 2 ^ 24" using of_nat_less_iff [of "2 ^ k * n" "2 ^ 24", where ?'a = rat] assms by simp
  have "(2 ^ k * of_nat n * 10 ^ 9 :: rat) = of_nat (2 ^ k * n * 10 ^ 9)" by simp
  then have r: "nat (round_half_even (2 ^ k * of_nat n * 10 ^ 9)) = 2 ^ k * n * 10 ^ 9" by (simp only: round_half_even_nat nat_int)
  have "mul_f32 (n * 10 ^ 9) (powi_f32 k) = (from_secs_f32 (Fin (2 ^ k * of_nat n)) :: ('e, nat) res)"
    unfolding mul_f32_def p secs by (simp add: prod)
  also have "\<dots> = Ok (nat (round_half_even (2 ^ k * of_nat n * 10 ^ 9)))" using lt by (simp add: from_secs_f32_def not_less)
  finally show ?thesis by (simp only: r)
qed

lemma default_backoff:
  "mul_f32 (rc_backoff_base RetryConfig_default) (powi_f32 0) = (Ok (2 * 10 ^ 9) :: (unit, nat) res)"
  using backoff_exact [of 0 2] by (simp add: RetryConfig_default_def)

definition demo_failed :: "(bytes, nat) DownloadSchedulerActor" where
  "demo_failed = (scheduler_new 1 RetryConfig_default)\<lparr>ds_retry_entries := [[7 :: 8 word] \<mapsto>
     \<lparr>re_retries = 1, re_retry_time = Some (2 * 10 ^ 9), re_ticket = [7], re_tag = 5, re_download_type = DistroResult []\<rparr>]\<rparr>"

lemma demo_failure:
  "handle_message (\<lambda>t. t) (demo_env 0 []) (QueueFailedDownload [7 :: 8 word] (5 :: nat) (DistroResult [])) (scheduler_new 1 RetryConfig_default)
     = Ok ([QueueResult Queued], demo_failed)"
  using default_backoff
  by (simp add: handle_message_def queue_failed_download_def scheduler_new_def demo_env_def demo_failed_def)
    (simp add: RetryConfig_default_def Let_def)

lemma demo_failed_serves:
  "serves (\<lambda>t. t) (scheduler_new 1 RetryConfig_default)
     [(demo_env 0 [], QueueFailedDownload [7 :: 8 word] (5 :: nat) (DistroResult []))] [QueueResult Queued] demo_failed"
  using serves_more [OF serves_none demo_failure] by (simp add: demo_env_def scheduler_new_def)

theorem due_retries_exact_witness:
  "handle_message (\<lambda>t. t) (demo_env (3 * 10 ^ 9) [[7]]) GetDueDistroRetries demo_failed
     = Ok ([DueRetries [\<lparr>rr_hash = [7], rr_ticket = [7], rr_tag = 5, rr_download_type = DistroResult [], rr_retries = 1\<rparr>]],
         scheduler_new 1 RetryConfig_default)"
proof -
  have "handle_message (\<lambda>t. t) (demo_env (3 * 10 ^ 9) [[7]]) GetDueDistroRetries demo_failed
     = Ok ([DueRetries [\<lparr>rr_hash = [7], rr_ticket = [7], rr_tag = 5, rr_download_type = DistroResult [], rr_retries = 1\<rparr>]],
         scheduler_new 1 RetryConfig_default)"
    by (simp add: handle_message_def demo_env_def demo_failed_def drain_retries_def is_distro_due_def into_ready_retry_def scheduler_new_def)
  moreover have "\<exists>ds s'. handle_message (\<lambda>t. t) (demo_env (3 * 10 ^ 9) [[7]]) GetDueDistroRetries demo_failed = Ok ([DueRetries ds], s')
      \<and> distinct (map rr_hash ds)"
    using due_retries_exact [OF demo_failed_serves, of "demo_env (3 * 10 ^ 9) [[7]]"] by (auto simp: demo_env_def demo_failed_def)
  ultimately show ?thesis by simp
qed

text \<open>
  (C37) The count of retries does not survive a retry. A distro result that fails for the first time is queued
  with one retry; once the due retries were asked for, its entry is gone, so the scheduler is in the same
  state as before for this hash. However often the download fails after having been retried, it is queued
  again with a count of one and the first back-off, and the limit of \<open>max_distro_retries\<close> is never reached.
\<close>

theorem retry_count_lost:
  assumes "ds_retry_entries s (hash_of t) = None" and "0 < rc_max_distro_retries (ds_retry_config s)"
    and "mul_f32 (rc_backoff_base (ds_retry_config s)) (powi_f32 0) = (Ok b :: (unit, nat) res)" and "env_now E + b \<le> env_now E'"
    and "distinct (env_order E')" and "set (env_order E') = insert (hash_of t) (dom (ds_retry_entries s))"
  shows "\<exists>s1 ds s2. handle_message hash_of E (QueueFailedDownload t g (DistroResult ps)) s = Ok ([QueueResult Queued], s1)
    \<and> handle_message hash_of E' GetDueDistroRetries s1 = Ok ([DueRetries ds], s2)
    \<and> \<lparr>rr_hash = hash_of t, rr_ticket = t, rr_tag = g, rr_download_type = DistroResult ps, rr_retries = 1\<rparr> \<in> set ds
    \<and> ds_retry_entries s2 (hash_of t) = None \<and> ds_retry_config s2 = ds_retry_config s"
proof -
  let ?e = "\<lparr>re_retries = 1, re_retry_time = Some (env_now E + b), re_ticket = t, re_tag = g, re_download_type = DistroResult ps\<rparr>"
  define s1 where "s1 = s\<lparr>ds_retry_entries := (ds_retry_entries s)(hash_of t \<mapsto> ?e)\<rparr>"
  have q: "handle_message hash_of E (QueueFailedDownload t g (DistroResult ps)) s = Ok ([QueueResult Queued], s1)"
    using assms(1-3) by (simp add: handle_message_def queue_failed_download_def s1_def)
  have e: "ds_retry_entries s1 (hash_of t) = Some ?e" by (simp add: s1_def)
  have order: "set (env_order E') = dom (ds_retry_entries s1)" using assms(6) by (auto simp: s1_def)
  obtain ds s2 where d: "drain_retries (is_distro_due (env_now E')) (env_order E') s1 = (ds, s2)" by fastforce
  note ex = drain_retries_exact [OF assms(5) order d]
  have due: "is_distro_due (env_now E') ?e" using assms(4) by (simp add: is_distro_due_def)
  have "\<lparr>rr_hash = hash_of t, rr_ticket = t, rr_tag = g, rr_download_type = DistroResult ps, rr_retries = 1\<rparr> \<in> set ds"
    unfolding ex(2) using e due assms(6) by (auto simp: into_ready_retry_def intro!: image_eqI [where x = "hash_of t"])
  moreover have "ds_retry_entries s2 (hash_of t) = None" using ex(1) [of "hash_of t"] e due by simp
  moreover have "ds_retry_config s2 = ds_retry_config s" using drain_retries_capacity [OF d] by (simp add: s1_def)
  moreover have "handle_message hash_of E' GetDueDistroRetries s1 = Ok ([DueRetries ds], s2)" using d by (simp add: handle_message_def)
  ultimately show ?thesis using q by blast
qed

theorem retry_count_lost_witness:
  "\<exists>s1 ds s2. handle_message (\<lambda>t. t) (demo_env 0 []) (QueueFailedDownload [7 :: 8 word] (5 :: nat) (DistroResult [])) (scheduler_new 1 RetryConfig_default) = Ok ([QueueResult Queued], s1)
    \<and> handle_message (\<lambda>t. t) (demo_env (3 * 10 ^ 9) [[7]]) GetDueDistroRetries s1 = Ok ([DueRetries ds], s2)
    \<and> \<lparr>rr_hash = [7], rr_ticket = [7], rr_tag = 5, rr_download_type = DistroResult [], rr_retries = 1\<rparr> \<in> set ds
    \<and> ds_retry_entries s2 [7] = None \<and> ds_retry_config s2 = RetryConfig_default"
  using retry_count_lost [of "scheduler_new 1 RetryConfig_default" "\<lambda>t. t" "[7 :: 8 word]" "2 * 10 ^ 9" "demo_env 0 []"
      "demo_env (3 * 10 ^ 9) [[7]]" "5 :: nat" "[]"] default_backoff
  by (simp add: scheduler_new_def demo_env_def) (simp add: RetryConfig_default_def)

end
