(* ===== verification/Central_Server.thy ===== *)
theory Central_Server
  imports Coordinator_Program
begin

text \<open>
  The server of the centralized architecture (architectures/centralized/server/src/app.rs): an event loop
  around the coordinator. Its clients are known by one key, so the pending clients are a set of keys; the
  order in which the hash set is iterated, the time and the random seed come with each event. What the
  server sends and writes is recorded as effects. The coordinator returns an error only before it changes
  anything, so an error leaves the state as it is. The hash of the coordinator's bytes is a parameter.
\<close>

section \<open>State and messages\<close>

text \<open>The metadata that comes with a witness is not read by the server and left out.\<close>

datatype OpportunisticData = WitnessStep Witness | WarmupStep Witness

datatype ClientToServerMessage =
  Join bytes
| WitnessMessage OpportunisticData
| HealthCheckMessage HealthChecks
| CheckpointMessage Checkpoint

datatype effect =
  Broadcast Coordinator
| ToDataServer Coordinator
| Recorded Coordinator
| SavedState nat Coordinator

record App =
  ap_coordinator :: Coordinator
  ap_pending_clients :: "bytes set"
  ap_data_server :: bool
  ap_save_state :: bool
  ap_coordinator_writer :: bool
  ap_last_coordinator_hash :: nat
  ap_original_warmup_time :: nat
  ap_withdraw_on_disconnect :: bool

definition from_single_key :: "bytes \<Rightarrow> NodeIdentity" where
  "from_single_key k = \<lparr>signer = k, p2p_identity = k\<rparr>"

definition Client_default :: Client where
  "Client_default = client_new (from_single_key (replicate 32 0))"

definition set_warmup_time :: "nat \<Rightarrow> Coordinator \<Rightarrow> Coordinator" where
  "set_warmup_time t c = c\<lparr>c_config := (c_config c)\<lparr>cc_warmup_time := t\<rparr>\<rparr>"

definition reset_ephemeral :: "Coordinator \<Rightarrow> Coordinator" where
  "reset_ephemeral c = c\<lparr>c_run_state := WaitingForMembers, c_epoch_state := (c_epoch_state c)
     \<lparr>es_clients := map (\<lambda>_. Client_default) (es_clients (c_epoch_state c)),
      es_exited_clients := map (\<lambda>_. Client_default) (es_exited_clients (c_epoch_state c))\<rparr>\<rparr>"

text \<open>The state a server starts with; launching the data server and the network is not part of it.\<close>

definition App_new :: "Coordinator \<Rightarrow> bool \<Rightarrow> bool \<Rightarrow> bool \<Rightarrow> nat option \<Rightarrow> bool \<Rightarrow> App" where
  "App_new coordinator data_server save_state events init_warmup_time withdraw_on_disconnect =
     (let c = reset_ephemeral coordinator in
      \<lparr>ap_coordinator = (case init_warmup_time of Some t \<Rightarrow> set_warmup_time t c | None \<Rightarrow> c),
       ap_pending_clients = {}, ap_data_server = data_server, ap_save_state = save_state, ap_coordinator_writer = events,
       ap_last_coordinator_hash = 0, ap_original_warmup_time = cc_warmup_time (c_config c),
       ap_withdraw_on_disconnect = withdraw_on_disconnect\<rparr>)"

section \<open>Handlers\<close>

text \<open>A call of the coordinator whose error is only logged.\<close>

definition or_unchanged :: "Coordinator \<Rightarrow> ('e, Coordinator) res \<Rightarrow> ('e, Coordinator) res" where
  "or_unchanged c r = (case r of Ok c' \<Rightarrow> Ok c' | Err _ \<Rightarrow> Ok c | Panic \<Rightarrow> Panic)"

definition client_position :: "bytes \<Rightarrow> Coordinator \<Rightarrow> nat option" where
  "client_position from c = find_position (\<lambda>x. node_eq (client_id x) (from_single_key from)) (es_clients (c_epoch_state c))"

definition post_state_change :: "(Coordinator \<Rightarrow> nat) \<Rightarrow> bool \<Rightarrow> App \<Rightarrow> App \<times> effect list" where
  "post_state_change state_hash broadcast a =
     (let c = (if active (ap_coordinator a) then set_warmup_time (ap_original_warmup_time a) (ap_coordinator a) else ap_coordinator a);
          a = a\<lparr>ap_coordinator := c\<rparr>;
          sent = (if broadcast then Broadcast c # (if ap_data_server a then [ToDataServer c] else []) else [])
      in if ap_coordinator_writer a \<and> state_hash c \<noteq> ap_last_coordinator_hash a
         then (a\<lparr>ap_last_coordinator_hash := state_hash c\<rparr>, sent @ [Recorded c])
         else (a, sent))"

definition on_disconnect :: "bytes \<Rightarrow> App \<Rightarrow> (CoordinatorError, App) res" where
  "on_disconnect from a =
     (let a = a\<lparr>ap_pending_clients := ap_pending_clients a - {from}\<rparr> in
      if ap_withdraw_on_disconnect a then
        case client_position from (ap_coordinator a) of
          Some index \<Rightarrow> rbind (or_unchanged (ap_coordinator a) (withdraw index (ap_coordinator a))) (\<lambda>c. Ok (a\<lparr>ap_coordinator := c\<rparr>))
        | None \<Rightarrow> Ok a
      else Ok a)"

definition process_message ::
  "externs \<Rightarrow> nat \<Rightarrow> nat \<Rightarrow> bytes \<Rightarrow> ClientToServerMessage \<Rightarrow> App \<Rightarrow> (CoordinatorError, App \<times> bool) res" where
  "process_message X now seed from event a =
     (let c = ap_coordinator a; from_identity = from_single_key from in
      case event of
        Join run_id \<Rightarrow>
          Ok (if fs_used (c_run_id c) = run_id then a\<lparr>ap_pending_clients := insert from (ap_pending_clients a)\<rparr> else a, False)
      | WitnessMessage data \<Rightarrow>
          rbind (or_unchanged c (case data of
              WitnessStep w \<Rightarrow> submit_witness X from_identity w now c
            | WarmupStep w \<Rightarrow> warmup_witness from_identity w now seed c)) (\<lambda>c'.
            Ok (a\<lparr>ap_coordinator := c'\<rparr>, c_run_state c' \<noteq> c_run_state c))
      | HealthCheckMessage checks \<Rightarrow>
          (case health_check X checks c of
             Ok (c', dropped) \<Rightarrow> Ok (a\<lparr>ap_coordinator := c'\<rparr>, 0 < dropped)
           | Err _ \<Rightarrow> Ok (a, False)
           | Panic \<Rightarrow> Panic)
      | CheckpointMessage repo \<Rightarrow>
          (case client_position from c of
             Some index \<Rightarrow> rbind (or_unchanged c (record_checkpoint from_identity index repo c)) (\<lambda>c'. Ok (a\<lparr>ap_coordinator := c'\<rparr>, True))
           | None \<Rightarrow> Ok (a, True)))"

definition on_client_message ::
  "externs \<Rightarrow> (Coordinator \<Rightarrow> nat) \<Rightarrow> nat \<Rightarrow> nat \<Rightarrow> bytes \<Rightarrow> ClientToServerMessage \<Rightarrow> App \<Rightarrow> (CoordinatorError, App \<times> effect list) res" where
  "on_client_message X state_hash now seed from event a =
     rbind (process_message X now seed from event a) (\<lambda>(a', broadcast). Ok (post_state_change state_hash broadcast a'))"

definition kick_unhealthy_clients :: "App \<Rightarrow> App" where
  "kick_unhealthy_clients a = a\<lparr>ap_pending_clients := ap_pending_clients a
     - (\<lambda>client. signer (client_id client)) ` set (filter (\<lambda>client. client_state client \<noteq> Healthy) (es_exited_clients (c_epoch_state (ap_coordinator a))))\<rparr>"

text \<open>
  The state saved at the end of an epoch, under a name with the step before.
\<close>

definition save_state :: "Coordinator \<Rightarrow> TickResult \<Rightarrow> App \<Rightarrow> (CoordinatorError, effect list) res" where
  "save_state c r a =
     (if r = EpochEnd True \<and> ap_save_state a
      then rbind (u_sub (pr_step (c_progress c)) 1) (\<lambda>step. Ok [SavedState step (reset_ephemeral c)])
      else Ok [])"

definition on_tick ::
  "(Coordinator \<Rightarrow> nat) \<Rightarrow> bytes list \<Rightarrow> nat \<Rightarrow> nat \<Rightarrow> App \<Rightarrow> (CoordinatorError, App \<times> effect list) res" where
  "on_tick state_hash order now seed a0 =
     (let a = kick_unhealthy_clients a0 in
      case tick (Some (map from_single_key order)) now seed (ap_coordinator a) of
        Ok (c, r) \<Rightarrow> rbind (save_state c r a) (\<lambda>saved.
          let (a', sent) = post_state_change state_hash True (a\<lparr>ap_coordinator := c\<rparr>) in Ok (a', saved @ sent))
      | Err _ \<Rightarrow> Ok (post_state_change state_hash True a)
      | Panic \<Rightarrow> Panic)"

definition toggle_pause :: "nat \<Rightarrow> App \<Rightarrow> (CoordinatorError, App) res" where
  "toggle_pause now a =
     (let c = ap_coordinator a in
      rbind (or_unchanged c (if c_run_state c = Paused then resume now c else pause now c)) (\<lambda>c'. Ok (a\<lparr>ap_coordinator := c'\<rparr>)))"

datatype ServerEvent =
  ClientMessage bytes ClientToServerMessage
| Disconnected bytes
| TickInterval
| PausePressed

text \<open>One turn of the event loop; the order of the pending clients is asked for after the kick.\<close>

definition poll_next ::
  "externs \<Rightarrow> (Coordinator \<Rightarrow> nat) \<Rightarrow> bytes list \<Rightarrow> nat \<Rightarrow> nat \<Rightarrow> ServerEvent \<Rightarrow> App \<Rightarrow> (CoordinatorError, App \<times> effect list) res" where
  "poll_next X state_hash order now seed event a =
     (case event of
        ClientMessage from message \<Rightarrow> on_client_message X state_hash now seed from message a
      | Disconnected from \<Rightarrow> rbind (on_disconnect from a) (\<lambda>a'. Ok (a', []))
      | TickInterval \<Rightarrow> on_tick state_hash order now seed a
      | PausePressed \<Rightarrow> rbind (toggle_pause now a) (\<lambda>a'. Ok (a', [])))"

text \<open>
  The events a server has handled, with what it did. The order is that of the pending clients left after the kick,
  and a tick finds room in the counters.
\<close>

inductive server_run :: "externs \<Rightarrow> (Coordinator \<Rightarrow> nat) \<Rightarrow> App \<Rightarrow> ServerEvent list \<Rightarrow> effect list \<Rightarrow> App \<Rightarrow> bool"
  for X state_hash a0 where
  server_start: "server_run X state_hash a0 [] [] a0"
| server_event: "server_run X state_hash a0 evs effs a \<Longrightarrow> poll_next X state_hash order now seed ev a = Ok (a', out) \<Longrightarrow>
    set order = ap_pending_clients (kick_unhealthy_clients a) \<Longrightarrow> (ev = TickInterval \<Longrightarrow> tick_room (ap_coordinator a)) \<Longrightarrow>
    server_run X state_hash a0 (evs @ [ev]) (effs @ out) a'"

section \<open>Every turn is a step of the coordinator\<close>

text \<open>What the server does to its coordinator: steps of the coordinator, then the warmup time put back in place.\<close>

definition restored :: "nat \<Rightarrow> Coordinator \<Rightarrow> Coordinator" where
  "restored t c = (if active c then set_warmup_time t c else c)"

lemma post_state_change_coordinator:
  "post_state_change h b a = (a', out) \<Longrightarrow> ap_coordinator a' = restored (ap_original_warmup_time a) (ap_coordinator a)
     \<and> ap_pending_clients a' = ap_pending_clients a \<and> ap_original_warmup_time a' = ap_original_warmup_time a
     \<and> (b \<longrightarrow> Broadcast (ap_coordinator a') \<in> set out)
     \<and> (\<forall>c. Broadcast c \<in> set out \<or> ToDataServer c \<in> set out \<or> Recorded c \<in> set out \<longrightarrow> c = ap_coordinator a')
     \<and> (\<forall>n c. SavedState n c \<notin> set out)"
  by (auto simp: post_state_change_def restored_def Let_def split: if_splits)

lemma drop_clients_state: "drop_clients checks c d = Ok (c', n) \<Longrightarrow> c_run_state c' = c_run_state c"
  by (induction checks arbitrary: c d) (fastforce simp: Let_def set_client_state_def set_epoch_state_def split: if_splits)+

lemma health_check_state: "health_check X checks c = Ok (c', n) \<Longrightarrow> c_run_state c' = c_run_state c"
  by (auto simp: health_check_def dest: drop_clients_state split: if_splits)

lemma record_checkpoint_state: "record_checkpoint from i repo c = Ok c' \<Longrightarrow> c_run_state c' = c_run_state c"
  by (auto simp: record_checkpoint_def set_checkpoint_def split: option.splits if_splits)

lemma process_message_step:
  assumes "process_message X now seed from m a = Ok (a', b)"
  shows "(coord_step X)\<^sup>=\<^sup>= (ap_coordinator a) (ap_coordinator a')" and "ap_original_warmup_time a' = ap_original_warmup_time a"
    and "ap_pending_clients a' = ap_pending_clients a
      \<or> m = Join (fs_used (c_run_id (ap_coordinator a))) \<and> ap_pending_clients a' = insert from (ap_pending_clients a)"
    and "c_run_state (ap_coordinator a') \<noteq> c_run_state (ap_coordinator a) \<longrightarrow> b"
proof -
  show "(coord_step X)\<^sup>=\<^sup>= (ap_coordinator a) (ap_coordinator a')"
    using assms unfolding process_message_def Let_def or_unchanged_def
    by (auto split: ClientToServerMessage.splits OpportunisticData.splits res.splits option.splits if_splits
        intro: step_warmup_witness step_witness step_health_check step_checkpoint)
  show "ap_original_warmup_time a' = ap_original_warmup_time a"
    "ap_pending_clients a' = ap_pending_clients a
      \<or> m = Join (fs_used (c_run_id (ap_coordinator a))) \<and> ap_pending_clients a' = insert from (ap_pending_clients a)"
    using assms unfolding process_message_def Let_def
    by (auto split: ClientToServerMessage.splits res.splits option.splits if_splits)
  show "c_run_state (ap_coordinator a') \<noteq> c_run_state (ap_coordinator a) \<longrightarrow> b"
    using assms unfolding process_message_def Let_def or_unchanged_def
    by (auto dest: health_check_state record_checkpoint_state
        split: ClientToServerMessage.splits res.splits option.splits if_splits)
qed

lemma on_disconnect_step:
  assumes "on_disconnect from a = Ok a'"
  shows "(coord_step X)\<^sup>=\<^sup>= (ap_coordinator a) (ap_coordinator a')" and "ap_original_warmup_time a' = ap_original_warmup_time a"
    and "ap_pending_clients a' = ap_pending_clients a - {from}" and "c_run_state (ap_coordinator a') = c_run_state (ap_coordinator a)"
  using assms unfolding on_disconnect_def or_unchanged_def Let_def
  by (auto simp: withdraw_def set_client_state_def set_epoch_state_def
      split: option.splits res.splits if_splits intro: step_withdraw)

lemma toggle_pause_step:
  assumes "toggle_pause now a = Ok a'"
  shows "(coord_step X)\<^sup>=\<^sup>= (ap_coordinator a) (ap_coordinator a')" and "ap_original_warmup_time a' = ap_original_warmup_time a"
    and "ap_pending_clients a' = ap_pending_clients a"
    and "c_run_state (ap_coordinator a') \<in> {c_run_state (ap_coordinator a), WaitingForMembers, Finished, Paused}"
proof -
  show "(coord_step X)\<^sup>=\<^sup>= (ap_coordinator a) (ap_coordinator a')"
    using assms unfolding toggle_pause_def or_unchanged_def Let_def
    by (auto split: res.splits if_splits intro: step_pause step_resume)
  show "ap_original_warmup_time a' = ap_original_warmup_time a" "ap_pending_clients a' = ap_pending_clients a"
    "c_run_state (ap_coordinator a') \<in> {c_run_state (ap_coordinator a), WaitingForMembers, Finished, Paused}"
    using assms unfolding toggle_pause_def or_unchanged_def Let_def pause_def resume_def
    by (auto simp: change_state_def assert_ok_def guard_err_def set_epoch_state_def
        dest!: start_waiting_state split: res.splits if_splits)
qed

lemma on_tick_step:
  assumes "on_tick h order now seed a = Ok (a', out)" and "tick_room (ap_coordinator a)"
  obtains c where "(coord_step X)\<^sup>=\<^sup>= (ap_coordinator a) c" "c = ap_coordinator a \<or> (\<exists>r. tick (Some (map from_single_key order)) now seed (ap_coordinator a) = Ok (c, r))"
    "ap_coordinator a' = restored (ap_original_warmup_time a) c" "ap_original_warmup_time a' = ap_original_warmup_time a"
    "ap_pending_clients a' = ap_pending_clients (kick_unhealthy_clients a)" "Broadcast (ap_coordinator a') \<in> set out"
proof -
  have k: "ap_coordinator (kick_unhealthy_clients a) = ap_coordinator a"
    "ap_original_warmup_time (kick_unhealthy_clients a) = ap_original_warmup_time a"
    by (simp_all add: kick_unhealthy_clients_def)
  show ?thesis
  proof (cases "tick (Some (map from_single_key order)) now seed (ap_coordinator a)")
    case (Ok p)
    obtain c r where cr: "p = (c, r)" by fastforce
    obtain a2 sent where p: "post_state_change h True ((kick_unhealthy_clients a)\<lparr>ap_coordinator := c\<rparr>) = (a2, sent)" by fastforce
    obtain saved where eq: "a' = a2" "out = saved @ sent"
      using assms(1) Ok p by (auto simp: on_tick_def k cr)
    then have a': "ap_coordinator a' = restored (ap_original_warmup_time a) c"
      "ap_original_warmup_time a' = ap_original_warmup_time a" "ap_pending_clients a' = ap_pending_clients (kick_unhealthy_clients a)"
      using post_state_change_coordinator [OF p] k by simp_all
    have "Broadcast (ap_coordinator a2) \<in> set sent" using post_state_change_coordinator [OF p] by blast
    then have b: "Broadcast (ap_coordinator a') \<in> set out" using eq by simp
    have "coord_step X (ap_coordinator a) c" using step_tick [OF assms(2)] Ok cr by blast
    then have "(coord_step X)\<^sup>=\<^sup>= (ap_coordinator a) c" by simp
    moreover have "\<exists>r. tick (Some (map from_single_key order)) now seed (ap_coordinator a) = Ok (c, r)" using Ok cr by blast
    ultimately show ?thesis using a' b by (intro that [of c]) blast+
  next
    case (Err e)
    then have "post_state_change h True (kick_unhealthy_clients a) = (a', out)"
      using assms(1) by (simp add: on_tick_def k)
    from post_state_change_coordinator [OF this] k show ?thesis
      by (intro that [of "ap_coordinator a"]) (blast | simp)+
  qed (use assms(1) in \<open>simp add: on_tick_def k\<close>)
qed

text \<open>A turn is at most one step of the coordinator, after which the warmup time may be put back.\<close>

lemma poll_next_step:
  assumes "poll_next X h order now seed ev a = Ok (a', out)" and "ev = TickInterval \<Longrightarrow> tick_room (ap_coordinator a)"
  obtains c where "(coord_step X)\<^sup>*\<^sup>* (ap_coordinator a) c" "ap_original_warmup_time a' = ap_original_warmup_time a"
    "ap_coordinator a' = restored (ap_original_warmup_time a) c
      \<or> ap_coordinator a' = c \<and> (active c \<longrightarrow> c_run_state c = c_run_state (ap_coordinator a))"
proof (cases ev)
  case (ClientMessage k m)
  then obtain a1 b where m: "process_message X now seed k m a = Ok (a1, b)" "post_state_change h b a1 = (a', out)"
    using assms(1) by (auto simp: poll_next_def on_client_message_def)
  have "(coord_step X)\<^sup>*\<^sup>* (ap_coordinator a) (ap_coordinator a1)" using process_message_step(1) [OF m(1)] by auto
  then show ?thesis
    using that [of "ap_coordinator a1"] process_message_step(2) [OF m(1)] post_state_change_coordinator [OF m(2)] by simp
next
  case (Disconnected k)
  then have "on_disconnect k a = Ok a'" using assms(1) by (simp add: poll_next_def)
  note step = on_disconnect_step [OF this]
  have "(coord_step X)\<^sup>*\<^sup>* (ap_coordinator a) (ap_coordinator a')" using step(1) [of X] by auto
  then show ?thesis using that [of "ap_coordinator a'"] step(2,4) by simp
next
  case TickInterval
  then have "on_tick h order now seed a = Ok (a', out)" using assms(1) by (simp add: poll_next_def)
  then obtain c where "(coord_step X)\<^sup>=\<^sup>= (ap_coordinator a) c" "ap_coordinator a' = restored (ap_original_warmup_time a) c"
    "ap_original_warmup_time a' = ap_original_warmup_time a"
    using assms(2) [OF TickInterval] by (rule on_tick_step)
  then show ?thesis using that [of c] by auto
next
  case PausePressed
  then have "toggle_pause now a = Ok a'" using assms(1) by (simp add: poll_next_def)
  note step = toggle_pause_step [OF this]
  have "(coord_step X)\<^sup>*\<^sup>* (ap_coordinator a) (ap_coordinator a')" using step(1) [of X] by auto
  then show ?thesis using that [of "ap_coordinator a'"] step(2,4) by (auto simp: active_def)
qed

section \<open>What a running server keeps\<close>

named_theorems step_mono

definition step_of :: "Coordinator \<Rightarrow> nat" where
  "step_of c = pr_step (c_progress c)"

lemma step_of_updates [simp]:
  "step_of (c\<lparr>c_run_state := s\<rparr>) = step_of c" "step_of (c\<lparr>c_run_state_start_unix_timestamp := t\<rparr>) = step_of c"
  "step_of (c\<lparr>c_model := m\<rparr>) = step_of c" "step_of (c\<lparr>c_pending_pause := b\<rparr>) = step_of c" "step_of (c\<lparr>c_epoch_state := e\<rparr>) = step_of c"
  "step_of (c\<lparr>c_config := cfg\<rparr>) = step_of c" "step_of (c\<lparr>c_progress := p\<rparr>) = pr_step p"
  by (simp_all add: step_of_def)

lemma step_of_setters [simp]:
  "step_of (set_epoch_state f c) = step_of c" "step_of (set_client_state i st c) = step_of c" "step_of (set_checkpoint ck c) = step_of c"
  "step_of (withdraw_all c) = step_of c"
  by (simp_all add: set_epoch_state_def set_client_state_def set_checkpoint_def withdraw_all_eq)

lemma step_of_phases [step_mono]:
  "change_state now st c = Ok c' \<Longrightarrow> step_of c \<le> step_of c'"
  "move_clients_to_exited h c = Ok c' \<Longrightarrow> step_of c \<le> step_of c'"
  "current_round_mut_unchecked c f = Ok c' \<Longrightarrow> step_of c \<le> step_of c'"
  "set_last_step now c = Ok c' \<Longrightarrow> step_of c \<le> step_of c'"
  by (auto simp: change_state_def move_clients_to_exited_def current_round_mut_unchecked_def set_last_step_def Let_def split: if_splits)

lemma step_of_starts [step_mono]:
  "start_waiting_for_members now c = Ok c' \<Longrightarrow> step_of c \<le> step_of c'"
  "start_cooldown now c = Ok c' \<Longrightarrow> step_of c \<le> step_of c'"
  "start_round_train now seed t c = Ok c' \<Longrightarrow> step_of c \<le> step_of c'"
  "begin_epoch pending now c = Ok c' \<Longrightarrow> step_of c \<le> step_of c'"
  by (fastforce simp: start_waiting_for_members_def start_cooldown_def start_round_train_def begin_epoch_def start_warmup_def Let_def
      dest!: step_mono split: if_splits)+

lemma step_of_ends [step_mono]:
  "end_round now seed c = Ok c' \<Longrightarrow> step_of c \<le> step_of c'"
  "end_epoch now c = Ok c' \<Longrightarrow> step_of c \<le> step_of c'"
  by (fastforce simp: end_round_def end_epoch_def u_add_def step_of_def [of c] Let_def dest!: step_mono split: if_splits)+

lemma step_of_tick: "tick pending now seed c = Ok (c', r) \<Longrightarrow> step_of c \<le> step_of c'"
  by (cases "c_run_state c")
    (fastforce simp: tick_def tick_waiting_for_members_def tick_warmup_def tick_round_train_def tick_round_witness_def
      tick_cooldown_def dest!: step_mono split: if_splits option.splits)+

lemma step_of_drop: "drop_clients checks c d = Ok (c', n) \<Longrightarrow> step_of c' = step_of c"
  by (induction checks arbitrary: c d) (fastforce simp: Let_def split: if_splits)+

lemma step_of_step: "coord_step X c c' \<Longrightarrow> step_of c \<le> step_of c'"
proof (induction rule: coord_step.induct)
  case (step_tick c pending now seed c' r)
  then show ?case by (simp add: step_of_tick)
next
  case (step_warmup_witness "from" w now seed c c')
  then show ?case by (fastforce simp: warmup_witness_def store_witness_def dest!: step_mono split: if_splits)
next
  case (step_witness "from" w now c c')
  then show ?case by (fastforce simp: submit_witness_def store_witness_def dest!: step_mono split: if_splits)
next
  case (step_health_check checks c c' n)
  then show ?case by (auto simp: health_check_def dest: step_of_drop split: if_splits)
qed (auto simp: withdraw_def eject_def pause_def resume_def record_checkpoint_def dest!: step_mono split: option.splits if_splits)

lemma fixed_step: "coord_step X c c' \<Longrightarrow> fixed_part c' = fixed_part c"
proof (induction rule: coord_step.induct)
qed (auto simp: withdraw_def eject_def pause_def resume_def dest: fixed_dest dest!: fixed_waiting fixed_change split: option.splits if_splits)

definition server_inv :: "App \<Rightarrow> bool" where
  "server_inv a \<longleftrightarrow> coord_inv (ap_coordinator a) \<and> 0 < step_of (ap_coordinator a)
     \<and> config_wf ((c_config (ap_coordinator a))\<lparr>cc_warmup_time := ap_original_warmup_time a\<rparr>)
     \<and> (active (ap_coordinator a) \<longrightarrow> cc_warmup_time (c_config (ap_coordinator a)) = ap_original_warmup_time a)"

lemma coord_inv_warmup:
  "coord_inv c \<Longrightarrow> config_wf ((c_config c)\<lparr>cc_warmup_time := t\<rparr>) \<Longrightarrow> coord_inv (set_warmup_time t c)"
  by (simp add: coord_inv_def set_warmup_time_def cur_def)

lemma coord_steps_keep:
  assumes "(coord_step X)\<^sup>*\<^sup>* c c'"
  shows "fixed_part c' = fixed_part c" "step_of c \<le> step_of c'"
  using assms by (induction rule: rtranclp_induct) (auto dest: fixed_step step_of_step)

lemma poll_next_inv:
  assumes "poll_next X h order now seed ev a = Ok (a', out)" and "server_inv a" and "ev = TickInterval \<Longrightarrow> tick_room (ap_coordinator a)"
  shows "server_inv a'" and "ap_original_warmup_time a' = ap_original_warmup_time a" and "c_run_id (ap_coordinator a') = c_run_id (ap_coordinator a)"
proof -
  obtain c where c: "(coord_step X)\<^sup>*\<^sup>* (ap_coordinator a) c" "ap_original_warmup_time a' = ap_original_warmup_time a"
    "ap_coordinator a' = restored (ap_original_warmup_time a) c
      \<or> ap_coordinator a' = c \<and> (active c \<longrightarrow> c_run_state c = c_run_state (ap_coordinator a))"
    using assms(1,3) by (rule poll_next_step)
  note keep = coord_steps_keep [OF c(1), unfolded fixed_part_def]
  have inv: "coord_inv c" "0 < step_of c" "config_wf ((c_config c)\<lparr>cc_warmup_time := ap_original_warmup_time a\<rparr>)"
    using assms(2) coord_steps_inv [OF c(1)] keep by (auto simp: server_inv_def)
  have "active c \<Longrightarrow> c_run_state c = c_run_state (ap_coordinator a) \<Longrightarrow> cc_warmup_time (c_config c) = ap_original_warmup_time a"
    using assms(2) keep(1) by (simp add: server_inv_def active_def)
  then show "server_inv a'" "ap_original_warmup_time a' = ap_original_warmup_time a" "c_run_id (ap_coordinator a') = c_run_id (ap_coordinator a)"
    using c(2,3) inv coord_inv_warmup [OF inv(1,3)] keep(1)
    by (auto simp: server_inv_def restored_def set_warmup_time_def active_def split: if_splits)
qed

text \<open>The messages that can stop the server.\<close>

definition is_warmup_witness :: "ServerEvent \<Rightarrow> bool" where
  "is_warmup_witness ev = (case ev of ClientMessage _ (WitnessMessage (WarmupStep _)) \<Rightarrow> True | _ \<Rightarrow> False)"

lemma or_unchanged_Panic [simp]: "or_unchanged c r = Panic \<longleftrightarrow> r = Panic"
  by (simp add: or_unchanged_def split: res.split)

lemma or_unchanged_Err [simp]: "or_unchanged c r \<noteq> Err e"
  by (simp add: or_unchanged_def split: res.split)

lemma process_message_returns:
  assumes "coord_inv (ap_coordinator a)" and "\<not> is_warmup_witness (ClientMessage from m)"
  shows "\<exists>r. process_message X now seed from m a = Ok r"
proof -
  let ?c = "ap_coordinator a"
  have "submit_witness X (from_single_key from) w now ?c \<noteq> Panic" for w
    using submit_witness_inv [OF assms(1)] by (rule sat_no_panic)
  moreover have "health_check X checks ?c \<noteq> Panic" for checks
    using health_check_sat [OF assms(1)] by (rule sat_no_panic)
  moreover have "record_checkpoint (from_single_key from) i repo ?c \<noteq> Panic" for i repo
    using sat_record_checkpoint [OF assms(1)] by (rule sat_no_panic)
  ultimately show ?thesis using assms(2)
    by (cases m) (auto simp: process_message_def is_warmup_witness_def or_unchanged_def Let_def
        split: OpportunisticData.splits res.split option.split)
qed

lemma on_tick_returns:
  assumes "server_inv a" and "tick_room (ap_coordinator a)"
  shows "\<exists>r. on_tick h order now seed a = Ok r"
proof -
  let ?c = "ap_coordinator a" and ?t = "tick (Some (map from_single_key order)) now seed (ap_coordinator a)"
  have k: "ap_coordinator (kick_unhealthy_clients a) = ?c" by (simp add: kick_unhealthy_clients_def)
  have "?t \<noteq> Panic" using sat_tick [of ?c] assms by (auto simp: server_inv_def dest!: sat_no_panic)
  moreover have "\<exists>out. save_state c r a2 = Ok out" if "?t = Ok (c, r)" for c r a2
    using step_of_tick [OF that] assms(1) by (auto simp: save_state_def server_inv_def u_sub_def step_of_def)
  ultimately consider c r out where "?t = Ok (c, r)" "save_state c r (kick_unhealthy_clients a) = Ok out" | e where "?t = Err e"
    by (metis res.exhaust surj_pair)
  then show ?thesis
    by cases (simp_all add: on_tick_def k Let_def split: prod.split)
qed

lemma poll_next_returns:
  assumes "server_inv a" and "\<not> is_warmup_witness ev" and "ev = TickInterval \<Longrightarrow> tick_room (ap_coordinator a)"
  shows "\<exists>r. poll_next X h order now seed ev a = Ok r"
proof -
  let ?c = "ap_coordinator a"
  have inv: "coord_inv ?c" using assms(1) by (simp add: server_inv_def)
  have "withdraw i ?c \<noteq> Panic" "pause now ?c \<noteq> Panic" "resume now ?c \<noteq> Panic" for i
    using sat_withdraw [OF inv, of i] sat_pause [OF inv, of now] sat_resume [OF inv, of now] by (auto dest!: sat_no_panic)
  then show ?thesis
    using process_message_returns [OF inv, of _ _ X now seed] on_tick_returns [OF assms(1)] assms(2,3)
    by (cases ev) (fastforce simp: poll_next_def on_client_message_def on_disconnect_def toggle_pause_def or_unchanged_def Let_def
        split: prod.split res.split option.split)+
qed

lemma server_run_inv:
  assumes "server_run X h a0 evs effs a" and "server_inv a0"
  shows "server_inv a" and "c_run_id (ap_coordinator a) = c_run_id (ap_coordinator a0)"
    and "ap_original_warmup_time a = ap_original_warmup_time a0"
  using assms by (induction rule: server_run.induct) (auto dest: poll_next_inv)

lemma App_new_inv:
  assumes "coord_inv (reset_ephemeral c0)" and "0 < pr_step (c_progress c0)"
    and "\<forall>t. init = Some t \<longrightarrow> config_wf ((c_config c0)\<lparr>cc_warmup_time := t\<rparr>)"
  shows "server_inv (App_new c0 ds sv evd init wd)"
proof -
  have cfg: "c_config (reset_ephemeral c0) = c_config c0" "step_of (reset_ephemeral c0) = pr_step (c_progress c0)"
    "c_run_state (reset_ephemeral c0) = WaitingForMembers"
    by (simp_all add: reset_ephemeral_def step_of_def)
  have wf: "config_wf (c_config c0)" using assms(1) by (simp add: coord_inv_def cfg)
  show ?thesis
  proof (cases init)
    case None
    then show ?thesis using assms(1,2) wf cfg by (simp add: App_new_def server_inv_def active_def)
  next
    case (Some t)
    then have "coord_inv (set_warmup_time t (reset_ephemeral c0))"
      using assms(3) by (intro coord_inv_warmup [OF assms(1)]) (simp add: cfg)
    then show ?thesis using Some assms(2) wf cfg
      by (simp add: App_new_def server_inv_def active_def set_warmup_time_def)
  qed
qed

section \<open>What the server promises\<close>


text \<open>A server of the demonstration run that withdraws clients who disconnect, in each of its states.\<close>

definition demo_app :: "Coordinator \<Rightarrow> bytes set \<Rightarrow> App" where
  "demo_app c pending = \<lparr>ap_coordinator = c, ap_pending_clients = pending, ap_data_server = False, ap_save_state = False,
     ap_coordinator_writer = False, ap_last_coordinator_hash = 0, ap_original_warmup_time = 10, ap_withdraw_on_disconnect = True\<rparr>"

lemma demo_app_new: "App_new demo_coordinator False False False None True = demo_app demo_coordinator {}"
  "reset_ephemeral demo_coordinator = demo_coordinator"
  by (simp_all add: App_new_def demo_app_def reset_ephemeral_def demo_coordinator_def demo_config_def EpochState_default_def Let_def)

lemma demo_app_simps [simp]:
  "ap_coordinator (demo_app c p) = c" "ap_pending_clients (demo_app c p) = p"
  "es_exited_clients (es c) = [] \<Longrightarrow> kick_unhealthy_clients (demo_app c p) = demo_app c p"
  "\<not> active c \<Longrightarrow> post_state_change h b (demo_app c p) = (demo_app c p, if b then [Broadcast c] else [])"
  "(demo_app c p)\<lparr>ap_coordinator := c'\<rparr> = demo_app c' p" "(demo_app c p)\<lparr>ap_pending_clients := p'\<rparr> = demo_app c p'"
  "\<not> ap_save_state (demo_app c p)" "ap_withdraw_on_disconnect (demo_app c p)"
  by (simp_all add: demo_app_def kick_unhealthy_clients_def post_state_change_def)

lemma demo_keys: "from_single_key [k] = demo_node k"
  by (simp add: from_single_key_def demo_node_def)

lemma demo_app_ticks:
  assumes "tick (Some (map demo_node ks)) now seed c = Ok (c', Ticked)" "es_exited_clients (es c) = []" "\<not> active c'"
  shows "poll_next X h (map (\<lambda>k. [k]) ks) now seed TickInterval (demo_app c p) = Ok (demo_app c' p, [Broadcast c'])"
  using assms by (simp add: poll_next_def on_tick_def comp_def demo_keys save_state_def)

lemma demo_app_joins:
  assumes "c_run_id c = []" "\<not> active c"
  shows "poll_next X h order now seed (ClientMessage k (Join [])) (demo_app c p) = Ok (demo_app c (insert k p), [])"
  using assms by (simp add: poll_next_def on_client_message_def process_message_def fs_used_def)

lemma demo_app_witnesses:
  assumes "warmup_witness (demo_node k) w now seed c = Ok c'" "c_run_state c' = c_run_state c" "\<not> active c'"
  shows "poll_next X h order now seed (ClientMessage [k] (WitnessMessage (WarmupStep w))) (demo_app c p) = Ok (demo_app c' p, [])"
  using assms by (simp add: poll_next_def on_client_message_def process_message_def or_unchanged_def demo_keys)

lemma demo_app_loses:
  assumes "withdraw 0 c = Ok c'" "clients c = client # rest" "node_eq (client_id client) (demo_node k)"
  shows "poll_next X h order now seed (Disconnected [k]) (demo_app c p) = Ok (demo_app c' (p - {[k]}), [])"
  using assms by (simp add: poll_next_def on_disconnect_def client_position_def or_unchanged_def demo_keys)

lemma demo_run_warmed:
  "\<exists>c. warmed c \<and> tick_room c \<and> server_run X h (demo_app demo_coordinator {})
     [ClientMessage [1] (Join []), ClientMessage [2] (Join []), TickInterval] [Broadcast c] (demo_app c {[1], [2]})"
proof -
  obtain c where t: "tick (Some [demo_node 1, demo_node 2]) 5 9 demo_coordinator = Ok (c, Ticked)" "tick_room c" and c: "warmed c"
    using demo_warmup by (auto simp: warmed_def coord_inv_def)
  have idle: "\<not> active demo_coordinator" "c_run_id demo_coordinator = []" "es_exited_clients (es demo_coordinator) = []" "\<not> active c"
    using c by (simp_all add: active_def demo_coordinator_def EpochState_default_def warmed_def)
  have 1: "server_run X h (demo_app demo_coordinator {}) ([] @ [ClientMessage [1] (Join [])]) ([] @ []) (demo_app demo_coordinator {[1]})"
    by (rule server_event [OF server_start demo_app_joins [where order = "[]" and now = 1 and seed = 1]]) (use idle in simp_all)
  have 2: "server_run X h (demo_app demo_coordinator {}) (([] @ [ClientMessage [1] (Join [])]) @ [ClientMessage [2] (Join [])])
      (([] @ []) @ []) (demo_app demo_coordinator {[2], [1]})"
    by (rule server_event [OF 1 demo_app_joins [where order = "[[1]]" and now = 1 and seed = 1]]) (use idle in simp_all)
  have "server_run X h (demo_app demo_coordinator {}) ((([] @ [ClientMessage [1] (Join [])]) @ [ClientMessage [2] (Join [])]) @ [TickInterval])
      ((([] @ []) @ []) @ [Broadcast c]) (demo_app c {[2], [1]})"
    by (rule server_event [OF 2 demo_app_ticks [where ks = "[1, 2]" and now = 5 and seed = 9]]) (use idle t demo_inv(2) in auto)
  then show ?thesis using t(2) c by (auto simp: insert_commute)
qed


text \<open>
  (C40) A warmup witness can stop the server. Two clients join and warm up, the second one sends its warmup witness,
  the first one disconnects and is withdrawn, and a tick moves it out of the list of clients. The warmup witness
  that the second client sends now, under its correct index, makes the coordinator read the list out of bounds, and
  the panic ends the event loop for every client.
\<close>

theorem warmup_witness_stops_server:
  "\<exists>evs effs a. server_run X h (App_new demo_coordinator False False False None True) evs effs a
     \<and> client_position [2] (ap_coordinator a) = Some 0 \<and> c_run_state (ap_coordinator a) = Warmup
     \<and> poll_next X h order 7 3 (ClientMessage [2] (WitnessMessage (WarmupStep (stale_witness 0)))) a = Panic"
proof -
  obtain c where c: "warmed c" and room: "tick_room c" and run: "server_run X h (demo_app demo_coordinator {})
     [ClientMessage [1] (Join []), ClientMessage [2] (Join []), TickInterval] [Broadcast c] (demo_app c {[1], [2]})"
    using demo_run_warmed by blast
  let ?c1 = "add_witness (stale_witness 1) c" and ?c2 = "stale_state Withdrawn c"
  define c3 where "c3 = exit_unhealthy 0 ?c2"
  have ne: "Withdrawn \<noteq> Healthy" by simp
  note panics = stale_state_panics [OF c ne, folded c3_def] and facts = stale_state_facts [OF c, of Withdrawn]
  have idle: "\<not> active c" "\<not> active ?c1" "\<not> active c3" "c_run_state ?c1 = c_run_state c" "es_exited_clients (es c) = []" "es_exited_clients (es ?c1) = []"
    "clients ?c1 = [client_new (demo_node 1), client_new (demo_node 2)]"
    using c panics(2) by (simp_all add: warmed_def active_def add_witness_def)
  have lost: "withdraw 0 ?c1 = Ok ?c2"
    using idle(7) by (simp add: withdraw_def stale_state_def slice_get_def client_new_def)
  note run1 = server_event [OF run demo_app_witnesses [OF warmed_witness [OF c, of 5 3] idle(4,2), where order = "[[1], [2]]"]]
  note run2 = server_event [OF run1 demo_app_loses [OF lost idle(7), of 1, where order = "[[1], [2]]" and now = 6 and seed = 3]]
  note run3 = server_event [OF run2 demo_app_ticks [OF panics(1) [of "Some (map demo_node [2])"] facts(7) idle(3)]]
  have "\<exists>evs effs. server_run X h (demo_app demo_coordinator {}) evs effs (demo_app c3 ({[1], [2]} - {[1]}))"
    using idle facts(7,8) room by (intro exI) (rule run3; auto simp: node_eq_def client_new_def demo_node_def)
  moreover have "poll_next X h order 7 3 (ClientMessage [2] (WitnessMessage (WarmupStep (stale_witness 0)))) (demo_app c3 p) = Panic" for p
    using panics(4) by (simp add: poll_next_def on_client_message_def process_message_def or_unchanged_def demo_keys)
  moreover have "client_position [2] c3 = Some 0"
    using panics(3) by (cases "clients c3") (auto simp: client_position_def demo_keys verify_client_def slice_get_def)
  ultimately show ?thesis using panics(2) unfolding demo_app_new by fastforce
qed

section \<open>Who takes part\<close>

definition joined :: "bytes \<Rightarrow> ServerEvent list \<Rightarrow> bytes set" where
  "joined run_id evs = {k. ClientMessage k (Join run_id) \<in> set evs}"

lemma roster_restored [simp]: "roster (restored t c) = roster c"
  by (simp add: restored_def set_warmup_time_def roster_def)

lemma roster_begins:
  assumes "coord_inv c" "c_run_state c = WaitingForMembers" "c_run_state c' = Warmup" "tick (Some p) now seed c = Ok (c', r)"
  shows "set_mset (roster c') \<subseteq> signer ` set p"
proof -
  have "begin_epoch p now c = Ok c'"
    using assms by (auto simp: tick_def tick_waiting_for_members_def split: if_splits)
  then have "clients c' = map client_new (take 256 p)" "es_exited_clients (es c') = []"
    using begin_epoch_eq [OF assms(1,2), of p now] by (auto simp: EpochState_zeroed_def EpochState_default_def)
  then show ?thesis by (auto simp: roster_def client_new_def dest: in_set_takeD)
qed

lemma message_keeps_waiting:
  "process_message X now seed from m a = Ok (a', b) \<Longrightarrow> c_run_state (ap_coordinator a) = WaitingForMembers \<Longrightarrow>
   c_run_state (ap_coordinator a') = WaitingForMembers"
  unfolding process_message_def Let_def or_unchanged_def
  by (auto simp: submit_witness_def warmup_witness_def dest: health_check_state record_checkpoint_state
      split: ClientToServerMessage.splits OpportunisticData.splits res.splits option.splits if_splits)

lemma poll_next_roster:
  assumes "poll_next X h order now seed ev a = Ok (a', out)" and "coord_inv (ap_coordinator a)"
    and "ev = TickInterval \<Longrightarrow> tick_room (ap_coordinator a)" and "set order = ap_pending_clients (kick_unhealthy_clients a)"
  shows "set_mset (roster (ap_coordinator a')) \<subseteq> set_mset (roster (ap_coordinator a)) \<union> ap_pending_clients a"
    and "ap_pending_clients a' \<subseteq> ap_pending_clients a \<union> joined (fs_used (c_run_id (ap_coordinator a))) [ev]"
proof -
  have same: "roster c' = roster (ap_coordinator a)"
    if "(coord_step X)\<^sup>=\<^sup>= (ap_coordinator a) c'" "\<not> (c_run_state (ap_coordinator a) = WaitingForMembers \<and> c_run_state c' = Warmup)" for c'
    using that roster_step [OF _ assms(2)] by auto
  have "set_mset (roster (ap_coordinator a')) \<subseteq> set_mset (roster (ap_coordinator a)) \<union> ap_pending_clients a
      \<and> ap_pending_clients a' \<subseteq> ap_pending_clients a \<union> joined (fs_used (c_run_id (ap_coordinator a))) [ev]"
  proof (cases ev)
    case (ClientMessage k m)
    then obtain a1 b where m: "process_message X now seed k m a = Ok (a1, b)" "post_state_change h b a1 = (a', out)"
      using assms(1) by (auto simp: poll_next_def on_client_message_def)
    have "roster (ap_coordinator a1) = roster (ap_coordinator a)"
      using same [OF process_message_step(1) [OF m(1)]] message_keeps_waiting [OF m(1)] by auto
    moreover have "ap_coordinator a' = restored (ap_original_warmup_time a1) (ap_coordinator a1)" "ap_pending_clients a' = ap_pending_clients a1"
      using post_state_change_coordinator [OF m(2)] by simp_all
    ultimately show ?thesis
      using process_message_step(3) [OF m(1)] ClientMessage by (auto simp: joined_def)
  next
    case (Disconnected k)
    then have d: "on_disconnect k a = Ok a'" using assms(1) by (simp add: poll_next_def)
    show ?thesis using same [OF on_disconnect_step(1) [OF d]] on_disconnect_step(3,4) [OF d] by auto
  next
    case TickInterval
    then have "on_tick h order now seed a = Ok (a', out)" using assms(1) by (simp add: poll_next_def)
    then obtain c where c: "(coord_step X)\<^sup>=\<^sup>= (ap_coordinator a) c" "c = ap_coordinator a \<or> (\<exists>r. tick (Some (map from_single_key order)) now seed (ap_coordinator a) = Ok (c, r))"
      "ap_coordinator a' = restored (ap_original_warmup_time a) c" "ap_pending_clients a' = ap_pending_clients (kick_unhealthy_clients a)"
      using assms(3) [OF TickInterval] by (rule on_tick_step)
    have kick: "ap_pending_clients (kick_unhealthy_clients a) \<subseteq> ap_pending_clients a" by (auto simp: kick_unhealthy_clients_def)
    have "set_mset (roster c) \<subseteq> set_mset (roster (ap_coordinator a)) \<union> set order"
      using same [OF c(1)] c(2) roster_begins [OF assms(2), of c "map from_single_key order" now seed]
      by (cases "c_run_state (ap_coordinator a) = WaitingForMembers \<and> c_run_state c = Warmup") (force simp: from_single_key_def)+
    then show ?thesis using c(3,4) kick assms(4) by auto
  next
    case PausePressed
    then have p: "toggle_pause now a = Ok a'" using assms(1) by (simp add: poll_next_def)
    have "c_run_state (ap_coordinator a') \<noteq> Warmup \<or> c_run_state (ap_coordinator a) = Warmup" using toggle_pause_step(4) [OF p] by auto
    then show ?thesis using same [OF toggle_pause_step(1) [OF p]] toggle_pause_step(3) [OF p] by auto
  qed
  then show "set_mset (roster (ap_coordinator a')) \<subseteq> set_mset (roster (ap_coordinator a)) \<union> ap_pending_clients a"
    "ap_pending_clients a' \<subseteq> ap_pending_clients a \<union> joined (fs_used (c_run_id (ap_coordinator a))) [ev]" by auto
qed

text \<open>
  (C39) Only clients that joined take part. Along every sequence of events, each pending client, and each client of the
  epoch or of those that left it, is one whose message to join this run the server has received; besides them there
  are only the blank entries of the state the server was started with.
\<close>

theorem clients_joined:
  assumes "coord_inv (reset_ephemeral c0)" and "0 < pr_step (c_progress c0)"
    and "\<forall>t. init = Some t \<longrightarrow> config_wf ((c_config c0)\<lparr>cc_warmup_time := t\<rparr>)"
    and "server_run X h (App_new c0 ds sv evd init wd) evs effs a"
  shows "ap_pending_clients a \<subseteq> joined (fs_used (c_run_id c0)) evs
    \<and> set_mset (roster (ap_coordinator a)) \<subseteq> insert (replicate 32 0) (joined (fs_used (c_run_id c0)) evs)"
  using assms(4)
proof (induction rule: server_run.induct)
  case server_start
  have "roster (ap_coordinator (App_new c0 ds sv evd init wd)) = roster (reset_ephemeral c0)"
    by (auto simp: App_new_def Let_def set_warmup_time_def roster_def split: option.split)
  then show ?case
    by (auto simp: App_new_def Let_def reset_ephemeral_def roster_def Client_default_def client_new_def from_single_key_def)
next
  case (server_event evs effs a order now seed ev a' out)
  note inv = server_run_inv [OF server_event.hyps(1) App_new_inv [OF assms(1-3)]]
  have "coord_inv (ap_coordinator a)" using inv(1) by (simp add: server_inv_def)
  moreover have "c_run_id (ap_coordinator a) = c_run_id c0"
    using inv(2) by (simp add: App_new_def Let_def reset_ephemeral_def set_warmup_time_def split: option.splits)
  moreover have "joined r (evs @ [ev]) = joined r evs \<union> joined r [ev]" for r by (auto simp: joined_def)
  ultimately show ?case
    using poll_next_roster [OF server_event.hyps(2) _ server_event.hyps(4,3)] server_event.IH by fastforce
qed

theorem clients_joined_witness:
  "\<exists>c. c_run_state c = Warmup \<and> set_mset (roster c) = {[1], [2]}
     \<and> set_mset (roster c) \<subseteq> insert (replicate 32 0) (joined [] [ClientMessage [1] (Join []), ClientMessage [2] (Join []), TickInterval])"
proof -
  obtain c where c: "warmed c" and run: "server_run demo_X (\<lambda>_. 0) (demo_app demo_coordinator {})
     [ClientMessage [1] (Join []), ClientMessage [2] (Join []), TickInterval] [Broadcast c] (demo_app c {[1], [2]})"
    using demo_run_warmed by blast
  have "coord_inv (reset_ephemeral demo_coordinator)" "0 < pr_step (c_progress demo_coordinator)"
    by (simp_all add: demo_app_new demo_inv) (simp add: demo_coordinator_def Progress_default_def)
  from clients_joined [OF this _ run [folded demo_app_new(1)]] c
  show ?thesis by (intro exI [of _ c]) (auto simp: warmed_def roster_def client_new_def demo_node_def demo_coordinator_def fs_used_def)
qed

lemma on_tick_out:
  assumes "on_tick h order now seed a = Ok (a', out)"
  obtains a1 saved sent where "post_state_change h True a1 = (a', sent)" "out = saved @ sent" "\<forall>e\<in>set saved. \<exists>n c. e = SavedState n c"
proof (cases "tick (Some (map from_single_key order)) now seed (ap_coordinator (kick_unhealthy_clients a))")
  case (Ok p)
  obtain c r where cr: "p = (c, r)" by fastforce
  obtain a2 sent where post: "post_state_change h True ((kick_unhealthy_clients a)\<lparr>ap_coordinator := c\<rparr>) = (a2, sent)" by fastforce
  obtain saved where "save_state c r (kick_unhealthy_clients a) = Ok saved" "a' = a2" "out = saved @ sent"
    using assms Ok post by (auto simp: on_tick_def cr)
  then show ?thesis using that [OF post [folded \<open>a' = a2\<close>], of saved] by (auto simp: save_state_def split: if_splits)
next
  case (Err e)
  then show ?thesis using that [of "kick_unhealthy_clients a" out "[]"] assms by (simp add: on_tick_def)
qed (use assms in \<open>simp add: on_tick_def\<close>)

text \<open>
  Clients learn of every change of phase. A message or a tick that changes the phase of the run is followed by a broadcast
  of the new state, and what is broadcast or recorded is always the state after the event.
\<close>

theorem phases_announced:
  assumes "poll_next X h order now seed ev a = Ok (a', out)" and "ev = TickInterval \<or> (\<exists>k m. ev = ClientMessage k m)"
    and "c_run_state (ap_coordinator a') \<noteq> c_run_state (ap_coordinator a)"
  shows "Broadcast (ap_coordinator a') \<in> set out \<and> (\<forall>c. Broadcast c \<in> set out \<or> Recorded c \<in> set out \<longrightarrow> c = ap_coordinator a')"
proof (cases ev)
  case (ClientMessage k m)
  then obtain a1 b where m: "process_message X now seed k m a = Ok (a1, b)" "post_state_change h b a1 = (a', out)"
    using assms(1) by (auto simp: poll_next_def on_client_message_def)
  have "c_run_state (ap_coordinator a1) = c_run_state (ap_coordinator a')"
    using post_state_change_coordinator [OF m(2)] by (simp add: restored_def set_warmup_time_def)
  then have b using process_message_step(4) [OF m(1)] assms(3) by simp
  then show ?thesis using post_state_change_coordinator [OF m(2)] by blast
next
  case TickInterval
  then have "on_tick h order now seed a = Ok (a', out)" using assms(1) by (simp add: poll_next_def)
  then obtain a1 saved sent where p: "post_state_change h True a1 = (a', sent)" "out = saved @ sent" "\<forall>e\<in>set saved. \<exists>n c. e = SavedState n c"
    by (rule on_tick_out)
  have "Broadcast (ap_coordinator a') \<in> set sent" "Broadcast c \<in> set sent \<or> Recorded c \<in> set sent \<Longrightarrow> c = ap_coordinator a'" for c
    using post_state_change_coordinator [OF p(1)] by blast+
  then show ?thesis using p(2,3) by auto
qed (use assms(2) in auto)

end
