(* ===== verification/Spec2Isabelle.thy ===== *)
theory Spec2Isabelle
  imports Audit_Daemon Airdrop_Tree Merkle_Tree Mining_Pool Download_Scheduler Central_Server
begin

text \<open>
  \<^bold>\<open>Verification of leviathan-net.\<close> The program trains a model on many machines that do not trust each other. A
  \<^emph>\<open>coordinator\<close> (shared/coordinator) moves a run through its phases: clients wait, warm up, train a round,
  witness it, train the next, cool down. In the decentralized architecture the coordinator lives in an account of a
  Solana program, next to programs that authorize clients, keep bonds and settle disputes, pool funds and distribute
  tokens (architectures/decentralized). In the centralized one it lives in a server (architectures/centralized).
  Verifiers replay the work of others, compare it with what was submitted and bring fraud to the treasurer.

  \<^bold>\<open>Conventions.\<close> \<open>Rust_Prelude\<close> has the result type \<open>('e, 'a) res\<close> with \<open>Ok\<close>, \<open>Err\<close> and \<open>Panic\<close>, its bind, checked
  arithmetic of a given width on natural numbers, slices and bytes; an overflow or an index out of range is \<open>Panic\<close>.
  \<open>sat r P\<close> says that \<open>r\<close> does not panic and satisfies \<open>P\<close> if it returns. Structs are records with a prefix per struct,
  enums are datatypes, and methods that change \<open>self\<close> return the new state. SHA-256 and the hash of the Bloom filter are
  the record \<open>externs\<close>; a theorem that needs SHA-256 to be injective where it is used says \<open>collision X\<close> otherwise.
  \<open>Float64\<close> and \<open>Ieee\<close> model binary floating point as rationals with rounding to nearest even, infinities and NaN;
  both zeros are one value. \<open>Rust_Strings\<close> has the functions on strings.

  \<^bold>\<open>Data structures (shared/core).\<close> \<open>Fixed_Vec\<close> (fixed_vec.rs), \<open>Shuffle\<close> (lcg.rs, deterministic_shuffle.rs, swap_or_not.rs),
  \<open>Bloom\<close> (bloom.rs), \<open>Model\<close> (fixed_string.rs, definitions.rs, and the coordinator's model.rs), \<open>Interval_Tree\<close> (interval_tree.rs, batch_id.rs,
  bounded_queue.rs), \<open>Merkle_Layers\<close> and \<open>Merkle_Tree\<close> (merkle_tree.rs). Shown: the vector refines lists, the shuffles are
  permutations, the filter forgets nothing, the interval tree refines a finite map from points, paths in a Merkle tree prove
  exactly their leaf, and the loops that build trees and paths end. The loops of the Merkle tree are
  \<open>partial_function (option)\<close>, so that ending is a theorem.

  \<^bold>\<open>Coordinator (shared/coordinator).\<close> \<open>Coordinator_Types\<close>, \<open>Committee_Selection\<close> (committee_selection.rs) and \<open>Coordinator\<close>
  (coordinator.rs, commitment.rs) hold one definition per operation. \<open>Coordinator_Inv\<close> has the invariant \<open>coord_inv\<close>, the room \<open>tick_room\<close>
  that a tick needs in the counters, and that every operation keeps the invariant. \<open>Coordinator_Props\<close> shows that no operation but the
  warmup witness panics, what an accepted witness and a health check mean, the diagram of phases and that phases end;
  \<open>Coordinator_Epochs\<close> how rounds and epochs follow each other, that no member is lost and what a consensus commitment is;
  \<open>Coordinator_Findings\<close> where code and comments part. \<open>Data_Selection\<close> (data_selection.rs) shows that the data of a round is divided
  without gap or overlap. \<open>Audit_Seats\<close> (audit_selection.rs) shows that the audits chosen off chain are the ones whose
  verdicts the treasurer accepts.

  \<^bold>\<open>Programs on Solana (architectures/decentralized).\<close> \<open>Solana\<close> models accounts, signers, clocks and the token program as the record
  \<open>runtime\<close> with the laws \<open>token_laws\<close>. \<open>Authorizer\<close>, \<open>Instance_State\<close> and \<open>Instance_Props\<close> (the coordinator with its ledger),
  \<open>Coordinator_Program\<close> (every instruction), \<open>Treasurer\<close>, \<open>Treasurer_Props\<close> and \<open>Treasurer_Verdicts\<close>, \<open>Mining_Pool\<close> and \<open>Distributor\<close> model the
  programs with all their instructions as steps of one state each; the treasurer calls the models of the coordinator and
  the authorizer. Shown: how an epoch is settled, that the ledger only grows, who may change what, that bonds are
  backed and claims are earned, the life of a verdict, the totals of treasury and pool, that redemptions pay
  allocations. \<open>Airdrop_Tree\<close> (solana-tooling, distributor.rs) shows that the proofs of the tool are accepted by the program.

  \<^bold>\<open>Verification of work.\<close> \<open>Verifier\<close> (shared/verifier) models distances, bands, calibration, proofs of fraud and the robust
  aggregation; the order in which a sort leaves equal numbers is a parameter with the hypothesis \<open>sorts\<close>. \<open>Audit_Daemon\<close> (solana-tooling, daemon.rs,
  with the file names of leviathan-verifier and of the client) models a pass over a directory; dumps, replays and
  transactions are parameters that may do anything. Shown: what the band decides, that a calibrated band covers its
  samples, that outliers are excised, and that the daemon acts on fraud only, and once.

  \<^bold>\<open>Server and network.\<close> \<open>Central_Server\<close> (centralized/server, app.rs) is the event loop around the coordinator: it keeps serving but for
  the warmup witness, and only clients that joined take part. \<open>Download_Scheduler\<close> (shared/network, download/scheduler.rs) is the actor that limits
  downloads: the limit holds, requesters are served in order, and the count of retries is lost. The order of hash maps and
  sets, the time and whether a receiver still waits are inputs of each event.

  \<^bold>\<open>Interfaces.\<close> Locales state what several components share, and are interpreted on the definitions above: \<open>bounded_vec\<close> (vectors of a
  fixed capacity), \<open>index_shuffle\<close> (shuffles of indices), \<open>ledger_total\<close> (totals over the accounts of a ledger), \<open>layered\<close> with
  \<open>symmetric_layers\<close> and \<open>layer_morphism\<close> (trees built layer by layer from a hash of two).

  \<^bold>\<open>Not modelled.\<close> The training client, the peer-to-peer network, data providers, evaluation and inference are I/O around libraries for
  tensors and networks, whose meaning is not in this repository; clients of the chain only assemble the instructions that
  are modelled; terminal interfaces, metrics, event logs, tools for operators, test harnesses and the website do not act on
  a run. Serialisation is modelled where a theorem needs sizes or bytes. Rent, fees and compute limits of Solana are not modelled.
\<close>

end
